theory Spec2Isabelle
  imports
    Complex_Main
    "HOL-Library.Multiset"
    "HOL-Library.Char_ord"
    "HOL-Library.List_Lexorder"
    "HOL-Library.Product_Lexorder"
begin

section \<open>Data model\<close>

text \<open>
  The pipeline of \<^verbatim>\<open>src/src/data_processing.py\<close> works on pandas tables. A table read by
  \<^verbatim>\<open>pd.read_csv\<close> has columns of dtype \<^verbatim>\<open>int64\<close>, \<^verbatim>\<open>float64\<close>, \<^verbatim>\<open>bool\<close> or \<^verbatim>\<open>object\<close>.
  A cell is an integer, a finite float (the rational number it denotes), a boolean,
  a string, or the missing value \<^verbatim>\<open>NaN\<close>.
\<close>

datatype dtype = Int64 | Float64 | Bool | Object

datatype cell =
    is_IntV: IntV (int_of: int)
  | is_FloatV: FloatV (rat_of: rat)
  | is_BoolV: BoolV (bool_of: bool)
  | is_StrV: StrV (str_of: string)
  | NaN

text \<open>
  Python compares the values of a column with \<^verbatim>\<open>==\<close> and \<^verbatim>\<open><\<close>: numbers by their value,
  whatever their type (\<^verbatim>\<open>True == 1 == 1.0\<close>), strings by their characters; a string and a
  number are never equal, and \<^verbatim>\<open><\<close> between them raises \<^verbatim>\<open>TypeError\<close>. The key of a cell
  is what these comparisons see of it. The missing value has a key of its own: the
  libraries look it up apart from the other values.
\<close>

fun cell_key :: "cell \<Rightarrow> nat \<times> rat \<times> string" where
  "cell_key (IntV i) = (0, of_int i, [])"
| "cell_key (FloatV q) = (0, q, [])"
| "cell_key (BoolV b) = (0, of_bool b, [])"
| "cell_key (StrV s) = (1, 0, s)"
| "cell_key NaN = (2, 0, [])"

definition py_eq :: "cell \<Rightarrow> cell \<Rightarrow> bool" where
  "py_eq a b = (cell_key a = cell_key b)"

definition is_number :: "cell \<Rightarrow> bool" where
  "is_number c = (is_IntV c \<or> is_FloatV c \<or> is_BoolV c)"

text \<open>A pandas \<^verbatim>\<open>Series\<close>: row labels, dtype, values.\<close>

record series =
  s_index :: "nat list"
  s_dtype :: dtype
  s_values :: "cell list"

text \<open>
  A pandas \<^verbatim>\<open>DataFrame\<close>: row labels and the columns in their order, each a name with its
  dtype and values.
\<close>

record frame =
  f_index :: "nat list"
  f_columns :: "(string \<times> dtype \<times> cell list) list"

definition columns_of :: "frame \<Rightarrow> string list" where
  "columns_of d = map fst (f_columns d)"

definition n_rows :: "frame \<Rightarrow> nat" where
  "n_rows d = length (f_index d)"

text \<open>
  Modelled from the spec: \<^verbatim>\<open>CustomException\<close> of \<^verbatim>\<open>src/custom_exception.py\<close> (not among
  the sources), "a wrapped exception carrying a human-readable message and the originating
  cause". The other constructors are the Python and library exceptions that the stages
  catch.
\<close>

datatype exn =
    KeyError string
  | ValueError string
  | TypeError string
  | AttributeError string
  | FileNotFoundError string
  | FileExistsError string
  | PermissionError string
  | ParserError string
  | PicklingError string
  | NotFittedError string
  | CustomException string exn

text \<open>
  Modelled from the spec: the logger of \<^verbatim>\<open>src/logger.py\<close> (not among the sources), "every
  stage logs a descriptive error before re-raising". A log record is the level with the
  message; the formatted exception or list of an f-string is kept as a value.
\<close>

datatype log_record =
    Info string
  | Info_list string "string list"
  | Error string exn

text \<open>What \<^verbatim>\<open>joblib.dump\<close> is given: an array, a series, or the scaler with its statistics.\<close>

datatype obj =
    Ndarray "cell list list"
  | Series_obj series
  | Scaler_obj "(cell \<times> cell) list option"

text \<open>
  The world outside the object: the files with their contents, the directories, which
  files the process may read, the error (if any) that opening a path for writing raises,
  which directories it may create, and the log.
\<close>

record world =
  files :: "string \<Rightarrow> string option"
  dirs :: "string set"
  readable :: "string \<Rightarrow> bool"
  open_wb :: "string \<Rightarrow> exn option"
  creatable :: "string \<Rightarrow> bool"
  logged :: "log_record list"

text \<open>The fields of a \<^verbatim>\<open>DataProcessing\<close> object, and the world it runs in.\<close>

record data_processing =
  input_path :: string
  output_path :: string
  label_encoder :: "string \<Rightarrow> cell list option"
  scaler :: "(cell \<times> cell) list option"
  self_df :: "frame option"
  self_X :: "frame option"
  self_y :: "series option"
  selected_features :: "string list"
  env :: world

section \<open>The libraries\<close>

text \<open>
  pandas, numpy, scikit-learn and joblib are not part of the repository. What they compute
  with floating point, pseudo-random numbers or a file format is a parameter of the model:
  \<^item> \<open>parse_csv\<close>: the table \<^verbatim>\<open>pd.read_csv\<close> parses from a file's content, or its error;
  \<^item> \<open>RandomState\<close>, \<open>permutation\<close>: numpy's seeded generator, as a state and the
    permutation of \<open>0..<n\<close> it draws next;
  \<^item> \<open>check_X_y\<close>, \<open>chi2\<close>: the input validation of \<^verbatim>\<open>SelectKBest.fit\<close> and the
    chi-squared score of one feature column against the target (\<open>None\<close> is NaN);
  \<^item> \<open>check_array\<close>, \<open>fit_column\<close>, \<open>scale_cell\<close>: the input validation of
    \<^verbatim>\<open>StandardScaler\<close>, the mean and scale it fits on one column, and the standardised value
    of one cell;
  \<^item> \<open>pickle\<close>: the bytes joblib writes for an object, or the error with the bytes written
    before it.
  Every theorem holds for all values of these parameters; where a theorem needs the
  generator to return permutations, it says so.
\<close>

record library =
  parse_csv :: "string \<Rightarrow> exn + frame"
  RandomState :: "int \<Rightarrow> nat"
  permutation :: "nat \<Rightarrow> nat \<Rightarrow> nat list \<times> nat"
  check_X_y :: "frame \<Rightarrow> series \<Rightarrow> exn option"
  chi2 :: "cell list \<Rightarrow> cell list \<Rightarrow> rat option"
  check_array :: "cell list list \<Rightarrow> exn option"
  fit_column :: "cell list \<Rightarrow> cell \<times> cell"
  scale_cell :: "cell \<times> cell \<Rightarrow> cell \<Rightarrow> cell"
  pickle :: "obj \<Rightarrow> (exn \<times> string) + string"

subsection \<open>Logging\<close>

definition logger_info :: "string \<Rightarrow> data_processing \<Rightarrow> data_processing" where
  "logger_info msg s = s\<lparr>env := (env s)\<lparr>logged := logged (env s) @ [Info msg]\<rparr>\<rparr>"

definition logger_info_list :: "string \<Rightarrow> string list \<Rightarrow> data_processing \<Rightarrow> data_processing" where
  "logger_info_list msg xs s = s\<lparr>env := (env s)\<lparr>logged := logged (env s) @ [Info_list msg xs]\<rparr>\<rparr>"

definition logger_error :: "string \<Rightarrow> exn \<Rightarrow> data_processing \<Rightarrow> data_processing" where
  "logger_error msg e s = s\<lparr>env := (env s)\<lparr>logged := logged (env s) @ [Error msg e]\<rparr>\<rparr>"

subsection \<open>pandas\<close>

text \<open>
  \<^verbatim>\<open>pd.read_csv(path)\<close>: the file must exist and be readable, and its content must parse.
\<close>

definition read_csv :: "library \<Rightarrow> world \<Rightarrow> string \<Rightarrow> exn + frame" where
  "read_csv L w path =
     (case files w path of
        None \<Rightarrow> Inl (FileNotFoundError path)
      | Some content \<Rightarrow>
          if readable w path then parse_csv L content else Inl (PermissionError path))"

text \<open>\<^verbatim>\<open>df.drop(columns=[name])\<close>: a new table without the column; \<^verbatim>\<open>KeyError\<close> if absent.\<close>

definition drop_columns :: "frame \<Rightarrow> string \<Rightarrow> exn + frame" where
  "drop_columns d name =
     (if name \<in> set (columns_of d)
      then Inr (d\<lparr>f_columns := filter (\<lambda>c. fst c \<noteq> name) (f_columns d)\<rparr>)
      else Inl (KeyError name))"

text \<open>\<^verbatim>\<open>df[name]\<close>: the column as a series; \<^verbatim>\<open>KeyError\<close> if absent.\<close>

definition getitem :: "frame \<Rightarrow> string \<Rightarrow> exn + series" where
  "getitem d name =
     (case map_of (f_columns d) name of
        None \<Rightarrow> Inl (KeyError name)
      | Some (dt, vs) \<Rightarrow> Inr \<lparr>s_index = f_index d, s_dtype = dt, s_values = vs\<rparr>)"

text \<open>\<^verbatim>\<open>df[[names]]\<close>: the named columns in the order of the list.\<close>

fun getitem_list :: "frame \<Rightarrow> string list \<Rightarrow> exn + (string \<times> dtype \<times> cell list) list" where
  "getitem_list d [] = Inr []"
| "getitem_list d (name # names) =
     (case map_of (f_columns d) name of
        None \<Rightarrow> Inl (KeyError name)
      | Some c \<Rightarrow>
          (case getitem_list d names of
             Inl e \<Rightarrow> Inl e
           | Inr cs \<Rightarrow> Inr ((name, c) # cs)))"

text \<open>\<^verbatim>\<open>df[name] = codes\<close> for an existing column: the column is replaced in its place.\<close>

definition setitem :: "frame \<Rightarrow> string \<Rightarrow> dtype \<Rightarrow> cell list \<Rightarrow> frame" where
  "setitem d name dt vs =
     (if name \<in> set (columns_of d)
      then d\<lparr>f_columns := map (\<lambda>c. if fst c = name then (name, dt, vs) else c) (f_columns d)\<rparr>
      else d\<lparr>f_columns := f_columns d @ [(name, dt, vs)]\<rparr>)"

text \<open>\<^verbatim>\<open>df.select_dtypes(include=[...])\<close>: the columns whose dtype is listed.\<close>

definition select_dtypes :: "dtype list \<Rightarrow> frame \<Rightarrow> frame" where
  "select_dtypes inc d = d\<lparr>f_columns := filter (\<lambda>c. fst (snd c) \<in> set inc) (f_columns d)\<rparr>"

text \<open>Row selection by position, as \<^verbatim>\<open>_safe_indexing\<close> does with \<^verbatim>\<open>iloc\<close>.\<close>

definition take_rows :: "nat list \<Rightarrow> 'a list \<Rightarrow> 'a list" where
  "take_rows idx vs = map (\<lambda>i. vs ! i) idx"

definition frame_rows :: "frame \<Rightarrow> nat list \<Rightarrow> frame" where
  "frame_rows d idx =
     \<lparr>f_index = take_rows idx (f_index d),
      f_columns = map (\<lambda>c. (fst c, fst (snd c), take_rows idx (snd (snd c)))) (f_columns d)\<rparr>"

definition series_rows :: "series \<Rightarrow> nat list \<Rightarrow> series" where
  "series_rows y idx =
     \<lparr>s_index = take_rows idx (s_index y), s_dtype = s_dtype y,
      s_values = take_rows idx (s_values y)\<rparr>"

text \<open>The table as the array of its rows.\<close>

definition to_numpy :: "frame \<Rightarrow> cell list list" where
  "to_numpy d = map (\<lambda>i. map (\<lambda>c. snd (snd c) ! i) (f_columns d)) [0..<n_rows d]"

text \<open>
  \<^verbatim>\<open>sort_values(by=['Chi2_Scores'], ascending=False)\<close> followed by \<^verbatim>\<open>head(5)\<close>. pandas puts
  the rows whose score is NaN last, reverses the others, sorts them ascending and reverses
  the result. The sort of numpy leaves the order of equal scores open; here it is the
  stable one.
\<close>

definition sort_values_desc :: "(string \<times> rat option) list \<Rightarrow> (string \<times> rat option) list" where
  "sort_values_desc rows =
     rev (sort_key (\<lambda>r. the (snd r)) (rev (filter (\<lambda>r. snd r \<noteq> None) rows)))
       @ filter (\<lambda>r. snd r = None) rows"

subsection \<open>scikit-learn: LabelEncoder\<close>

text \<open>
  \<^verbatim>\<open>LabelEncoder.fit_transform\<close> on an object column, which is \<^verbatim>\<open>_unique_python\<close>: the
  values that are not missing are put into a Python set, which keeps of equal values the
  first; the set is sorted, which raises \<^verbatim>\<open>TypeError\<close> when it holds a string and a number;
  a missing value comes last. These are \<open>classes_\<close>. The code of a value is the position of
  the class equal to it, found by a dictionary lookup.
\<close>

definition unique_python :: "cell list \<Rightarrow> exn + cell list" where
  "unique_python vs =
     (let present = filter (\<lambda>v. v \<noteq> NaN) vs;
          keys = sort (remdups (map cell_key present));
          uniques = map (\<lambda>k. hd (filter (\<lambda>v. cell_key v = k) present)) keys;
          missing = (if NaN \<in> set vs then [NaN] else [])
      in if list_all is_StrV present \<or> list_all is_number present
         then Inr (uniques @ missing)
         else Inl (TypeError ''Encoders require their input argument must be uniformly strings or numbers.''))"

fun index_of :: "'a list \<Rightarrow> 'a \<Rightarrow> nat" where
  "index_of [] v = 0"
| "index_of (x # xs) v = (if x = v then 0 else Suc (index_of xs v))"

definition encode :: "cell list \<Rightarrow> cell \<Rightarrow> cell" where
  "encode classes v = IntV (int (index_of (map cell_key classes) (cell_key v)))"

text \<open>
  The codes are returned as \<^verbatim>\<open>np.asarray\<close> of their list: an array of numpy's default
  integer dtype, taken to be \<^verbatim>\<open>int64\<close>, and of dtype \<^verbatim>\<open>float64\<close> when the list is empty.
\<close>

definition codes_dtype :: "cell list \<Rightarrow> dtype" where
  "codes_dtype codes = (if codes = [] then Float64 else Int64)"

definition fit_transform :: "cell list \<Rightarrow> exn + (cell list \<times> cell list)" where
  "fit_transform vs =
     (case unique_python vs of
        Inl e \<Rightarrow> Inl e
      | Inr classes \<Rightarrow> Inr (classes, map (encode classes) vs))"

definition valid_code :: "cell list \<Rightarrow> cell \<Rightarrow> bool" where
  "valid_code classes c = (is_IntV c \<and> 0 \<le> int_of c \<and> nat (int_of c) < length classes)"

definition inverse_transform :: "cell list \<Rightarrow> cell list \<Rightarrow> exn + cell list" where
  "inverse_transform classes codes =
     (if list_all (valid_code classes) codes
      then Inr (map (\<lambda>c. classes ! nat (int_of c)) codes)
      else Inl (ValueError ''y contains previously unseen labels''))"

subsection \<open>scikit-learn: train_test_split\<close>

text \<open>
  \<^verbatim>\<open>_validate_shuffle_split\<close> with a float \<open>test_size\<close> and no \<open>train_size\<close>:
  \<open>n_test = ceil(test_size * n_samples)\<close>, \<open>n_train = n_samples - n_test\<close>, and an empty
  training set is an error. The float product is modelled by the exact one.
\<close>

definition validate_shuffle_split :: "nat \<Rightarrow> rat \<Rightarrow> exn + (nat \<times> nat)" where
  "validate_shuffle_split n_samples test_size =
     (if test_size \<le> 0 \<or> 1 \<le> test_size
      then Inl (ValueError ''test_size should be in the (0, 1) range'')
      else let n_test = nat \<lceil>test_size * of_nat n_samples\<rceil>;
               n_train = n_samples - n_test
           in if n_train = 0
              then Inl (ValueError ''the resulting train set will be empty'')
              else Inr (n_train, n_test))"

text \<open>
  \<^verbatim>\<open>ShuffleSplit\<close>: one permutation of the row positions from a generator seeded with
  \<open>random_state\<close>; its first \<open>n_test\<close> entries are the test rows, the next \<open>n_train\<close> the
  training rows.
\<close>

definition shuffle_split :: "library \<Rightarrow> int \<Rightarrow> nat \<Rightarrow> nat \<Rightarrow> nat \<Rightarrow> nat list \<times> nat list" where
  "shuffle_split L random_state n_samples n_train n_test =
     (let perm = fst (permutation L (RandomState L random_state) n_samples)
      in (take n_train (drop n_test perm), take n_test perm))"

text \<open>
  \<^verbatim>\<open>np.unique(y)\<close>: the classes of a target of strings or of numbers in sorted order
  (numbers by value, strings lexicographically), with the number of rows and the row
  positions of each class.
\<close>

definition unique_classes :: "cell list \<Rightarrow> cell list" where
  "unique_classes ys = sort_key cell_key (remdups ys)"

definition class_counts :: "cell list \<Rightarrow> nat list" where
  "class_counts ys = map (\<lambda>c. length (filter (\<lambda>v. v = c) ys)) (unique_classes ys)"

definition class_indices :: "cell list \<Rightarrow> nat list list" where
  "class_indices ys = map (\<lambda>c. filter (\<lambda>j. ys ! j = c) [0..<length ys]) (unique_classes ys)"

text \<open>
  \<^verbatim>\<open>rng.choice(inds, size=k, replace=False)\<close> of numpy's \<^verbatim>\<open>RandomState\<close>: the entries of
  \<open>inds\<close> at the first \<open>k\<close> positions of a permutation.
\<close>

definition choice :: "library \<Rightarrow> nat \<Rightarrow> nat list \<Rightarrow> nat \<Rightarrow> nat list \<times> nat" where
  "choice L r inds k =
     (let (p, r') = permutation L r (length inds) in (take_rows (take k p) inds, r'))"

text \<open>
  \<^verbatim>\<open>_approximate_mode(class_counts, n_draws, rng)\<close>: every class gets the floor of its
  proportional share \<open>count / total * n_draws\<close>; the draws still missing go to the classes
  with the largest remainders, one each, ties broken by \<open>rng.choice\<close>. The shares are
  computed exactly: the remainder of class \<open>i\<close> is \<open>(count\<^sub>i * n_draws mod total) / total\<close>,
  kept here as its numerator.
\<close>

fun add_by_remainder ::
  "library \<Rightarrow> nat list \<Rightarrow> nat list \<Rightarrow> nat list \<Rightarrow> nat \<Rightarrow> nat \<Rightarrow> nat list \<times> nat" where
  "add_by_remainder L [] remainder floored need_to_add r = (floored, r)"
| "add_by_remainder L (v # vs) remainder floored need_to_add r =
     (let inds = filter (\<lambda>i. remainder ! i = v) [0..<length remainder];
          add_now = min (length inds) need_to_add;
          (chosen, r') = choice L r inds add_now;
          floored' = map (\<lambda>i. if i \<in> set chosen then floored ! i + 1 else floored ! i)
                       [0..<length floored];
          need_to_add' = need_to_add - add_now
      in if need_to_add' = 0 then (floored', r')
         else add_by_remainder L vs remainder floored' need_to_add' r')"

definition approximate_mode :: "library \<Rightarrow> nat list \<Rightarrow> nat \<Rightarrow> nat \<Rightarrow> nat list \<times> nat" where
  "approximate_mode L counts n_draws r =
     (let total = sum_list counts;
          floored = map (\<lambda>c. c * n_draws div total) counts;
          remainder = map (\<lambda>c. c * n_draws mod total) counts;
          need_to_add = n_draws - sum_list floored
      in if 0 < need_to_add
         then add_by_remainder L (rev (sort (remdups remainder))) remainder floored need_to_add r
         else (floored, r))"

text \<open>
  The loop over the classes of \<^verbatim>\<open>StratifiedShuffleSplit._iter_indices\<close>: the rows of each
  class are permuted; the first \<open>n_i\<close> go to the training rows, the next \<open>t_i\<close> to the test
  rows.
\<close>

fun class_loop ::
  "library \<Rightarrow> nat list list \<Rightarrow> nat list \<Rightarrow> nat list \<Rightarrow> nat \<Rightarrow> nat list \<times> nat list \<times> nat" where
  "class_loop L (ci # rest) (n # ns) (t # ts) r =
     (let (p, r1) = permutation L r (length ci);
          perm_indices_class_i = take_rows p ci;
          (train, test, r2) = class_loop L rest ns ts r1
      in (take n perm_indices_class_i @ train,
          take t (drop n perm_indices_class_i) @ test, r2))"
| "class_loop L rest ns ts r = ([], [], r)"

text \<open>
  \<^verbatim>\<open>StratifiedShuffleSplit\<close>: a missing target value, a target that mixes strings with
  numbers (\<^verbatim>\<open>np.unique\<close> cannot sort it), a class with one row, or fewer training or test
  rows than classes is an error. Otherwise the training and then the
  test rows are allotted to the classes by \<open>approximate_mode\<close>, drawn class by class, and
  both lists are shuffled.
\<close>

definition stratified_shuffle_split ::
  "library \<Rightarrow> int \<Rightarrow> cell list \<Rightarrow> nat \<Rightarrow> nat \<Rightarrow> exn + (nat list \<times> nat list)" where
  "stratified_shuffle_split L random_state ys n_train n_test =
     (let counts = class_counts ys; n_classes = length counts
      in if NaN \<in> set ys then Inl (ValueError ''Input y contains NaN.'')
         else if \<not> (list_all is_StrV ys \<or> list_all is_number ys)
         then Inl (TypeError ''< not supported between instances of str and int'')
         else if list_ex (\<lambda>c. c < 2) counts
         then Inl (ValueError ''The least populated class in y has only 1 member'')
         else if n_train < n_classes
         then Inl (ValueError ''The train_size should be greater or equal to the number of classes'')
         else if n_test < n_classes
         then Inl (ValueError ''The test_size should be greater or equal to the number of classes'')
         else let (n_i, r1) = approximate_mode L counts n_train (RandomState L random_state);
                  class_counts_remaining = map2 (\<lambda>c n. c - n) counts n_i;
                  (t_i, r2) = approximate_mode L class_counts_remaining n_test r1;
                  (train, test, r3) = class_loop L (class_indices ys) n_i t_i r2;
                  (p1, r4) = permutation L r3 (length train);
                  (p2, r5) = permutation L r4 (length test)
              in Inr (take_rows p1 train, take_rows p2 test))"

text \<open>
  \<^verbatim>\<open>train_test_split(X, y, test_size=..., random_state=..., stratify=...)\<close>, as the row
  positions of the training and of the test partition; the callers select the rows of
  \<open>X\<close> and \<open>y\<close> with them.
\<close>

definition train_test_split ::
  "library \<Rightarrow> nat \<Rightarrow> nat \<Rightarrow> rat \<Rightarrow> int \<Rightarrow> cell list option \<Rightarrow> exn + (nat list \<times> nat list)" where
  "train_test_split L n_samples n_y test_size random_state stratify =
     (if n_samples \<noteq> n_y
      then Inl (ValueError ''Found input variables with inconsistent numbers of samples'')
      else case validate_shuffle_split n_samples test_size of
             Inl e \<Rightarrow> Inl e
           | Inr (n_train, n_test) \<Rightarrow>
               (case stratify of
                  None \<Rightarrow> Inr (shuffle_split L random_state n_samples n_train n_test)
                | Some ys \<Rightarrow> stratified_shuffle_split L random_state ys n_train n_test))"

subsection \<open>scikit-learn: StandardScaler\<close>

definition scaler_fit :: "library \<Rightarrow> frame \<Rightarrow> (cell \<times> cell) list" where
  "scaler_fit L d = map (\<lambda>c. fit_column L (snd (snd c))) (f_columns d)"

definition scaler_transform :: "library \<Rightarrow> (cell \<times> cell) list \<Rightarrow> frame \<Rightarrow> cell list list" where
  "scaler_transform L stats d = map (\<lambda>row. map2 (scale_cell L) stats row) (to_numpy d)"

subsection \<open>os and joblib\<close>

definition os_path_join :: "string \<Rightarrow> string \<Rightarrow> string" where
  "os_path_join a b =
     (if b \<noteq> [] \<and> hd b = CHR ''/'' then b
      else if a = [] \<or> last a = CHR ''/'' then a @ b
      else a @ ''/'' @ b)"

text \<open>
  \<^verbatim>\<open>os.makedirs(path, exist_ok=True)\<close>: nothing to do for a directory that exists; the
  empty path, a file at the path, or a directory that may not be created, is an error. The missing ancestors,
  which it creates too, are not tracked.
\<close>

definition makedirs :: "string \<Rightarrow> world \<Rightarrow> exn + world" where
  "makedirs path w =
     (if path = [] then Inl (FileNotFoundError path)
      else if path \<in> dirs w then Inr w
      else if files w path \<noteq> None then Inl (FileExistsError path)
      else if creatable w path then Inr (w\<lparr>dirs := insert path (dirs w)\<rparr>)
      else Inl (PermissionError path))"

text \<open>
  \<^verbatim>\<open>joblib.dump(value, filename)\<close> opens the file for writing, which truncates it, and
  pickles the value into it.
\<close>

definition joblib_dump :: "library \<Rightarrow> obj \<Rightarrow> string \<Rightarrow> world \<Rightarrow> exn option \<times> world" where
  "joblib_dump L v filename w =
     (case open_wb w filename of
        Some e \<Rightarrow> (Some e, w)
      | None \<Rightarrow>
          (case pickle L v of
             Inl (e, written) \<Rightarrow> (Some e, w\<lparr>files := (files w)(filename \<mapsto> written)\<rparr>)
           | Inr bytes \<Rightarrow> (None, w\<lparr>files := (files w)(filename \<mapsto> bytes)\<rparr>)))"

section \<open>The class DataProcessing\<close>

text \<open>
  Every method takes the object with its world and returns the new one together with its
  result: \<open>Inr\<close> the value it returns, \<open>Inl\<close> the exception it raises. The state that is
  returned with an exception is the one the \<^verbatim>\<open>try\<close> block had reached.
\<close>

text \<open>\<^verbatim>\<open>__init__\<close> (lines 18 to 29).\<close>

definition init :: "string \<Rightarrow> string \<Rightarrow> world \<Rightarrow> exn + data_processing" where
  "init inp outp w =
     (case makedirs outp w of
        Inl e \<Rightarrow> Inl e
      | Inr w' \<Rightarrow>
          Inr (logger_info ''Data Processing Initialized....''
            \<lparr>input_path = inp, output_path = outp, label_encoder = Map.empty,
             scaler = None, self_df = None, self_X = None, self_y = None,
             selected_features = [], env = w'\<rparr>))"

text \<open>\<^verbatim>\<open>load_data\<close> (lines 31 to 37).\<close>

definition load_data :: "library \<Rightarrow> data_processing \<Rightarrow> (exn + unit) \<times> data_processing" where
  "load_data L s =
     (case read_csv L (env s) (input_path s) of
        Inr d \<Rightarrow> (Inr (), logger_info ''Data Loaded successfully'' (s\<lparr>self_df := Some d\<rparr>))
      | Inl e \<Rightarrow>
          (Inl (CustomException ''Failed to load data'' e),
           logger_error ''Error while loading Data : '' e s))"

text \<open>
  \<^verbatim>\<open>preprocess_data\<close> (lines 39 to 54). The loop of lines 46 to 49 over the categorical
  columns:
\<close>

fun encode_columns :: "string list \<Rightarrow> data_processing \<Rightarrow> (exn + unit) \<times> data_processing" where
  "encode_columns [] s = (Inr (), s)"
| "encode_columns (col # rest) s =
     (case self_X s of
        None \<Rightarrow> (Inl (TypeError ''NoneType object is not subscriptable''), s)
      | Some x \<Rightarrow>
          (case getitem x col of
             Inl e \<Rightarrow> (Inl e, s)
           | Inr column \<Rightarrow>
               (case fit_transform (s_values column) of
                  Inl e \<Rightarrow> (Inl e, s)
                | Inr (le, codes) \<Rightarrow>
                    encode_columns rest
                      (s\<lparr>self_X := Some (setitem x col (codes_dtype codes) codes),
                         label_encoder := (label_encoder s)(col \<mapsto> le)\<rparr>))))"

text \<open>The \<^verbatim>\<open>try\<close> block of lines 41 to 51, up to the exception it raises.\<close>

definition preprocess_body :: "data_processing \<Rightarrow> (exn + unit) \<times> data_processing" where
  "preprocess_body s =
     (case self_df s of
        None \<Rightarrow> (Inl (AttributeError ''NoneType object has no attribute drop''), s)
      | Some d \<Rightarrow>
          (case drop_columns d ''Patient_ID'' of
             Inl e \<Rightarrow> (Inl e, s)
           | Inr d1 \<Rightarrow>
               let s1 = s\<lparr>self_df := Some d1\<rparr> in
               (case drop_columns d1 ''Survival_Prediction'' of
                  Inl e \<Rightarrow> (Inl e, s1)
                | Inr x \<Rightarrow>
                    let s2 = s1\<lparr>self_X := Some x\<rparr> in
                    (case getitem d1 ''Survival_Prediction'' of
                       Inl e \<Rightarrow> (Inl e, s2)
                     | Inr target \<Rightarrow>
                         let s3 = s2\<lparr>self_y := Some target\<rparr>;
                             categorical_cols = columns_of (select_dtypes [Object] x)
                         in encode_columns categorical_cols s3))))"

definition preprocess_data :: "library \<Rightarrow> data_processing \<Rightarrow> (exn + unit) \<times> data_processing" where
  "preprocess_data L s =
     (case preprocess_body s of
        (Inr u, s') \<Rightarrow> (Inr (), logger_info ''Data processing - Label encoding done...'' s')
      | (Inl e, s') \<Rightarrow>
          (Inl (CustomException ''Failed to process data'' e),
           logger_error ''Error while processing Data : '' e s'))"

text \<open>
  \<^verbatim>\<open>feature_selection\<close> (lines 56 to 72). The provisional split of line 58 and the scores
  of lines 59 to 63:
\<close>

definition provisional_split :: "library \<Rightarrow> frame \<Rightarrow> series \<Rightarrow> exn + (nat list \<times> nat list)" where
  "provisional_split L x target =
     train_test_split L (n_rows x) (length (s_values target)) 0.2 42 None"

definition chi2_table :: "library \<Rightarrow> frame \<Rightarrow> series \<Rightarrow> (string \<times> rat option) list" where
  "chi2_table L X_cat y_train =
     map (\<lambda>c. (fst c, chi2 L (snd (snd c)) (s_values y_train))) (f_columns X_cat)"

definition chi2_scores :: "library \<Rightarrow> frame \<Rightarrow> series \<Rightarrow> (string \<times> rat option) list" where
  "chi2_scores L X_cat y_train = sort_values_desc (chi2_table L X_cat y_train)"

definition feature_selection_body :: "library \<Rightarrow> data_processing \<Rightarrow> (exn + unit) \<times> data_processing" where
  "feature_selection_body L s =
     (case self_X s of
        None \<Rightarrow> (Inl (TypeError ''Expected sequence or array-like, got NoneType''), s)
      | Some x \<Rightarrow>
          (case self_y s of
             None \<Rightarrow> (Inl (TypeError ''Expected sequence or array-like, got NoneType''), s)
           | Some target \<Rightarrow>
               (case provisional_split L x target of
                  Inl e \<Rightarrow> (Inl e, s)
                | Inr (train, test) \<Rightarrow>
                    let X_train = frame_rows x train;
                        y_train = series_rows target train;
                        X_cat = select_dtypes [Int64, Float64] X_train
                    in (case check_X_y L X_cat y_train of
                          Some e \<Rightarrow> (Inl e, s)
                        | None \<Rightarrow>
                            let top_features = map fst (take 5 (chi2_scores L X_cat y_train));
                                s1 = logger_info_list ''Selected features are '' top_features
                                       (s\<lparr>selected_features := top_features\<rparr>)
                            in (case getitem_list x top_features of
                                  Inl e \<Rightarrow> (Inl e, s1)
                                | Inr cs \<Rightarrow>
                                    (Inr (), logger_info ''Feature selection completed''
                                       (s1\<lparr>self_X := Some (x\<lparr>f_columns := cs\<rparr>)\<rparr>)))))))"

definition feature_selection :: "library \<Rightarrow> data_processing \<Rightarrow> (exn + unit) \<times> data_processing" where
  "feature_selection L s =
     (case feature_selection_body L s of
        (Inr u, s') \<Rightarrow> (Inr (), s')
      | (Inl e, s') \<Rightarrow>
          (Inl (CustomException ''Failed to select features'' e),
           logger_error ''Error while Feature selection : '' e s'))"

text \<open>
  \<^verbatim>\<open>split_and_scale\<close> (lines 74 to 85). \<^verbatim>\<open>fit_transform\<close> forgets what the scaler had
  learnt before it validates its input, so a training matrix that is refused leaves the
  scaler unfitted. The final split of line 76:
\<close>

definition final_split :: "library \<Rightarrow> frame \<Rightarrow> series \<Rightarrow> exn + (nat list \<times> nat list)" where
  "final_split L x target =
     train_test_split L (n_rows x) (length (s_values target)) 0.2 42 (Some (s_values target))"

type_synonym arrays = "cell list list \<times> cell list list \<times> series \<times> series"

definition split_and_scale_body :: "library \<Rightarrow> data_processing \<Rightarrow> (exn + arrays) \<times> data_processing" where
  "split_and_scale_body L s =
     (case self_X s of
        None \<Rightarrow> (Inl (TypeError ''Expected sequence or array-like, got NoneType''), s)
      | Some x \<Rightarrow>
          (case self_y s of
             None \<Rightarrow> (Inl (TypeError ''Expected sequence or array-like, got NoneType''), s)
           | Some target \<Rightarrow>
               (case final_split L x target of
                  Inl e \<Rightarrow> (Inl e, s)
                | Inr (train, test) \<Rightarrow>
                    let X_train = frame_rows x train;
                        X_test = frame_rows x test;
                        y_train = series_rows target train;
                        y_test = series_rows target test
                    in (case check_array L (to_numpy X_train) of
                          Some e \<Rightarrow> (Inl e, s\<lparr>scaler := None\<rparr>)
                        | None \<Rightarrow>
                            let stats = scaler_fit L X_train;
                                s1 = s\<lparr>scaler := Some stats\<rparr>;
                                X_train' = scaler_transform L stats X_train
                            in (case check_array L (to_numpy X_test) of
                                  Some e \<Rightarrow> (Inl e, s1)
                                | None \<Rightarrow>
                                    (Inr (X_train', scaler_transform L stats X_test, y_train, y_test),
                                     logger_info ''Splitting and scaling done successfully'' s1))))))"

definition split_and_scale :: "library \<Rightarrow> data_processing \<Rightarrow> (exn + arrays) \<times> data_processing" where
  "split_and_scale L s =
     (case split_and_scale_body L s of
        (Inr r, s') \<Rightarrow> (Inr r, s')
      | (Inl e, s') \<Rightarrow>
          (Inl (CustomException ''Failed to split and scale data'' e),
           logger_error ''Error while splitting and scaling data : '' e s'))"

text \<open>
  \<^verbatim>\<open>save_data_and_scaler\<close> (lines 87 to 98). The five calls of \<^verbatim>\<open>joblib.dump\<close> in their
  order, stopping at the first that raises:
\<close>

fun dump_all :: "library \<Rightarrow> (obj \<times> string) list \<Rightarrow> world \<Rightarrow> exn option \<times> world" where
  "dump_all L [] w = (None, w)"
| "dump_all L ((v, filename) # rest) w =
     (case joblib_dump L v filename w of
        (Some e, w') \<Rightarrow> (Some e, w')
      | (None, w') \<Rightarrow> dump_all L rest w')"

definition artifacts :: "data_processing \<Rightarrow> arrays \<Rightarrow> (obj \<times> string) list" where
  "artifacts s a =
     (case a of (X_train, X_test, y_train, y_test) \<Rightarrow>
        [(Ndarray X_train, os_path_join (output_path s) ''X_train.pkl''),
         (Ndarray X_test, os_path_join (output_path s) ''X_test.pkl''),
         (Series_obj y_train, os_path_join (output_path s) ''y_train.pkl''),
         (Series_obj y_test, os_path_join (output_path s) ''y_test.pkl''),
         (Scaler_obj (scaler s), os_path_join (output_path s) ''scaler.pkl'')])"

definition save_data_and_scaler ::
  "library \<Rightarrow> arrays \<Rightarrow> data_processing \<Rightarrow> (exn + unit) \<times> data_processing" where
  "save_data_and_scaler L a s =
     (case dump_all L (artifacts s a) (env s) of
        (None, w') \<Rightarrow> (Inr (), logger_info ''Files saved successfully'' (s\<lparr>env := w'\<rparr>))
      | (Some e, w') \<Rightarrow>
          (Inl (CustomException ''Failed to save data'' e),
           logger_error ''Error while saving data : '' e (s\<lparr>env := w'\<rparr>)))"

text \<open>\<^verbatim>\<open>run\<close> (lines 100 to 107): an exception of a stage leaves \<open>run\<close> at once.\<close>

definition run :: "library \<Rightarrow> data_processing \<Rightarrow> (exn + unit) \<times> data_processing" where
  "run L s =
     (case load_data L s of
        (Inl e, s1) \<Rightarrow> (Inl e, s1)
      | (Inr u1, s1) \<Rightarrow>
          (case preprocess_data L s1 of
             (Inl e, s2) \<Rightarrow> (Inl e, s2)
           | (Inr u2, s2) \<Rightarrow>
               (case feature_selection L s2 of
                  (Inl e, s3) \<Rightarrow> (Inl e, s3)
                | (Inr u3, s3) \<Rightarrow>
                    (case split_and_scale L s3 of
                       (Inl e, s4) \<Rightarrow> (Inl e, s4)
                     | (Inr a, s4) \<Rightarrow>
                         (case save_data_and_scaler L a s4 of
                            (Inl e, s5) \<Rightarrow> (Inl e, s5)
                          | (Inr u5, s5) \<Rightarrow>
                              (Inr (), logger_info
                                 ''Data Processing pipeline executed successfully...'' s5))))))"

text \<open>The entry point (lines 110 to 115).\<close>

definition main :: "library \<Rightarrow> world \<Rightarrow> (exn + unit) \<times> data_processing option" where
  "main L w =
     (case init ''artifacts/raw/data.csv'' ''artifacts/processed'' w of
        Inl e \<Rightarrow> (Inl e, None)
      | Inr processor \<Rightarrow> (case run L processor of (r, s) \<Rightarrow> (r, Some s)))"

section \<open>An example run\<close>

text \<open>
  A table of ten patients, and stand-ins for the libraries: a generator that returns the
  identity permutation, the sum of a column as its score, the mean of a column with scale
  one as its statistics. The theorems below hold for every library; the stand-ins only
  serve to run the model on a concrete input.
\<close>

definition example_table :: frame where
  "example_table =
     \<lparr>f_index = [0..<10],
      f_columns =
        [(''Patient_ID'', Int64, map IntV [1, 2, 3, 4, 5, 6, 7, 8, 9, 10]),
         (''Age'', Int64, map IntV [50, 61, 47, 70, 55, 66, 59, 43, 68, 52]),
         (''Tumor_Size'', Float64, map FloatV [1.5, 3, 2.25, 4, 1, 3.5, 2, 0.5, 4.5, 2.5]),
         (''Gender'', Object,
            map StrV [''M'', ''F'', ''F'', ''M'', ''F'', ''M'', ''M'', ''F'', ''M'', ''F'']),
         (''Survival_Prediction'', Object,
            map StrV [''No'', ''No'', ''Yes'', ''No'', ''Yes'', ''No'', ''Yes'', ''Yes'', ''No'', ''Yes''])]\<rparr>"

fun cell_value :: "cell \<Rightarrow> rat" where
  "cell_value (IntV i) = of_int i"
| "cell_value (FloatV q) = q"
| "cell_value (BoolV b) = of_bool b"
| "cell_value c = 0"

definition example_library :: library where
  "example_library =
     \<lparr>parse_csv = (\<lambda>content. if content = ''ten patients'' then Inr example_table
                              else Inl (ParserError content)),
      RandomState = (\<lambda>seed. 0),
      permutation = (\<lambda>r n. ([0..<n], r)),
      check_X_y = (\<lambda>x y. None),
      chi2 = (\<lambda>vs ys. Some (sum_list (map cell_value vs))),
      check_array = (\<lambda>rows. None),
      fit_column = (\<lambda>vs. (FloatV (sum_list (map cell_value vs) / of_nat (length vs)), FloatV 1)),
      scale_cell = (\<lambda>st v. FloatV ((cell_value v - cell_value (fst st)) / cell_value (snd st))),
      pickle = (\<lambda>v. Inr ''bytes'')\<rparr>"

definition example_world :: world where
  "example_world =
     \<lparr>files = [''artifacts/raw/data.csv'' \<mapsto> ''ten patients''], dirs = {},
      readable = (\<lambda>p. True), open_wb = (\<lambda>p. None), creatable = (\<lambda>p. True), logged = []\<rparr>"

definition example_object :: data_processing where
  "example_object =
     \<lparr>input_path = ''artifacts/raw/data.csv'', output_path = ''artifacts/processed'',
      label_encoder = Map.empty, scaler = None, self_df = None, self_X = None,
      self_y = None, selected_features = [],
      env = example_world\<lparr>dirs := {''artifacts/processed''},
                            logged := [Info ''Data Processing Initialized....'']\<rparr>\<rparr>"

subsection \<open>Auxiliary notions for the statements\<close>

text \<open>The object when \<open>run\<close> calls \<open>split_and_scale\<close>: after the first three stages.\<close>

definition before_split :: "library \<Rightarrow> data_processing \<Rightarrow> data_processing" where
  "before_split L s = snd (feature_selection L (snd (preprocess_data L (snd (load_data L s)))))"

text \<open>What no stage before the last writes: the two paths and the world but for its log.\<close>

definition frame_of :: "data_processing \<Rightarrow> string \<times> string \<times> world" where
  "frame_of s = (input_path s, output_path s, (env s)\<lparr>logged := []\<rparr>)"

text \<open>Inputs on which a stage fails: a table without its identifier column, a missing
  input file, and the example in a world where the file of the scaler cannot be written,
  with the object that \<open>__init__\<close> makes there and the one that \<open>run\<close> hands to
  \<open>save_data_and_scaler\<close>.\<close>

definition missing_patient_id :: data_processing where
  "missing_patient_id =
     example_object\<lparr>self_df := Some \<lparr>f_index = [0, 1],
        f_columns = [(''Age'', Int64, [IntV 50, IntV 61]),
                     (''Survival_Prediction'', Int64, [IntV 1, IntV 0])]\<rparr>\<rparr>"

definition scaler_locked_world :: world where
  "scaler_locked_world =
     example_world\<lparr>open_wb := (\<lambda>p. if p = ''artifacts/processed/scaler.pkl''
                                       then Some (PermissionError p) else None)\<rparr>"

definition scaler_locked_object :: data_processing where
  "scaler_locked_object =
     example_object\<lparr>env := scaler_locked_world\<lparr>dirs := {''artifacts/processed''},
                                                  logged := [Info ''Data Processing Initialized....'']\<rparr>\<rparr>"

definition before_save :: data_processing where
  "before_save =
     snd (split_and_scale example_library (before_split example_library scaler_locked_object))"

definition no_input_object :: data_processing where
  "no_input_object = example_object\<lparr>env := (env example_object)\<lparr>files := Map.empty\<rparr>\<rparr>"

text \<open>
  The generator draws permutations: \<open>permutation r n\<close> is a rearrangement of \<open>0..<n\<close>.
\<close>

definition perm_ok :: "library \<Rightarrow> bool" where
  "perm_ok L = (\<forall>r n. mset (fst (permutation L r n)) = mset [0..<n])"

text \<open>
  The order of \<^verbatim>\<open>sort_values(ascending=False)\<close> on scores: a score is at least any score
  that is NaN, and at least any smaller number.
\<close>

definition score_ge :: "rat option \<Rightarrow> rat option \<Rightarrow> bool" where
  "score_ge a b = (case b of None \<Rightarrow> True | Some q \<Rightarrow> (case a of None \<Rightarrow> False | Some p \<Rightarrow> q \<le> p))"

text \<open>The fields of the object without its world and its output path.\<close>

definition fields_of ::
  "data_processing \<Rightarrow> string \<times> (string \<Rightarrow> cell list option) \<times> (cell \<times> cell) list option
     \<times> frame option \<times> frame option \<times> series option \<times> string list" where
  "fields_of s =
     (input_path s, label_encoder s, scaler s, self_df s, self_X s, self_y s, selected_features s)"

text \<open>
  The table that \<^verbatim>\<open>pd.read_csv\<close> makes of a file with a header and no rows: every column
  is of dtype object.
\<close>

definition header_only :: data_processing where
  "header_only =
     example_object\<lparr>self_df := Some \<lparr>f_index = [],
        f_columns = [(''Patient_ID'', Object, []), (''Age'', Object, []),
                     (''Gender'', Object, []), (''Survival_Prediction'', Object, [])]\<rparr>\<rparr>"

text \<open>An object whose table has six rows, three of each target class.\<close>

definition six_rows :: data_processing where
  "six_rows =
     example_object
       \<lparr>self_X := Some \<lparr>f_index = [0..<6],
                         f_columns = [(''Age'', Int64, map IntV [50, 61, 47, 70, 55, 66])]\<rparr>,
        self_y := Some \<lparr>s_index = [0..<6], s_dtype = Int64,
                         s_values = map IntV [0, 0, 0, 1, 1, 1]\<rparr>\<rparr>"

text \<open>The example object after each of the first three stages, and what they hold.\<close>

definition example_loaded :: data_processing where
  "example_loaded = snd (load_data example_library example_object)"

definition example_preprocessed :: data_processing where
  "example_preprocessed = snd (preprocess_data example_library example_loaded)"

definition example_selected :: data_processing where
  "example_selected = snd (feature_selection example_library example_preprocessed)"

definition example_X :: frame where
  "example_X =
     \<lparr>f_index = [0, 1, 2, 3, 4, 5, 6, 7, 8, 9],
      f_columns =
        [(''Age'', Int64, map IntV [50, 61, 47, 70, 55, 66, 59, 43, 68, 52]),
         (''Tumor_Size'', Float64, map FloatV [1.5, 3, 2.25, 4, 1, 3.5, 2, 0.5, 4.5, 2.5]),
         (''Gender'', Int64, map IntV [1, 0, 0, 1, 0, 1, 1, 0, 1, 0])]\<rparr>"

definition example_y :: series where
  "example_y =
     \<lparr>s_index = [0, 1, 2, 3, 4, 5, 6, 7, 8, 9], s_dtype = Object,
      s_values = map StrV [''No'', ''No'', ''Yes'', ''No'', ''Yes'', ''No'', ''Yes'', ''Yes'', ''No'', ''Yes'']\<rparr>"

text \<open>The four arrays that \<open>split_and_scale\<close> returns in the example.\<close>

definition example_arrays :: arrays where
  "example_arrays =
     (map (map FloatV)
        [[- (51 / 8), - (23 / 32), 1 / 2], [37 / 8, 25 / 32, - (1 / 2)],
         [109 / 8, 57 / 32, 1 / 2], [77 / 8, 41 / 32, 1 / 2],
         [- (75 / 8), 1 / 32, - (1 / 2)], [- (11 / 8), - (39 / 32), - (1 / 2)],
         [21 / 8, - (7 / 32), 1 / 2], [- (107 / 8), - (55 / 32), - (1 / 2)]],
      map (map FloatV) [[93 / 8, 73 / 32, 1 / 2], [- (35 / 8), 9 / 32, - (1 / 2)]],
      \<lparr>s_index = [0, 1, 3, 5, 2, 4, 6, 7], s_dtype = Object,
       s_values = map StrV [''No'', ''No'', ''No'', ''No'', ''Yes'', ''Yes'', ''Yes'', ''Yes'']\<rparr>,
      \<lparr>s_index = [8, 9], s_dtype = Object, s_values = map StrV [''No'', ''Yes'']\<rparr>)"

text \<open>
  A second world with the same input file, and the object that \<open>__init__\<close> makes there for
  another output directory: other files, no permission to write, an older log.
\<close>

definition other_world :: world where
  "other_world =
     \<lparr>files = [''artifacts/raw/data.csv'' \<mapsto> ''ten patients'', ''notes.txt'' \<mapsto> ''draft''],
      dirs = {''elsewhere''},
      readable = (\<lambda>p. True), open_wb = (\<lambda>p. Some (PermissionError p)),
      creatable = (\<lambda>p. False), logged = [Info ''an earlier run'']\<rparr>"

definition other_object :: data_processing where
  "other_object =
     \<lparr>input_path = ''artifacts/raw/data.csv'', output_path = ''elsewhere'',
      label_encoder = Map.empty, scaler = None, self_df = None, self_X = None,
      self_y = None, selected_features = [],
      env = other_world\<lparr>logged := [Info ''an earlier run'', Info ''Data Processing Initialized....'']\<rparr>\<rparr>"

text \<open>
  The files that lie in a directory: the paths made of the directory, a separator and a
  name without a separator.
\<close>

definition in_directory :: "string \<Rightarrow> string \<Rightarrow> bool" where
  "in_directory d p =
     (let prefix = (if d = [] \<or> last d = CHR ''/'' then d else d @ ''/'')
      in take (length prefix) p = prefix
         \<and> drop (length prefix) p \<noteq> []
         \<and> CHR ''/'' \<notin> set (drop (length prefix) p))"

section \<open>Properties\<close>

subsection \<open>The example\<close>

lemma init_example: "init ''artifacts/raw/data.csv'' ''artifacts/processed'' example_world = Inr example_object"
  by (simp add: init_def makedirs_def example_world_def example_object_def logger_info_def)

lemma example_run_ok: "fst (run example_library example_object) = Inr ()"
  by code_simp

lemma example_pickle: "pickle example_library v = Inr b \<longleftrightarrow> b = ''bytes''"
  by (auto simp: example_library_def)

lemma example_perm_ok: "perm_ok example_library"
  by (simp add: perm_ok_def example_library_def)

lemma example_loaded_df: "self_df example_loaded = Some example_table"
  by (simp add: example_loaded_def load_data_def read_csv_def example_object_def
      example_world_def example_library_def logger_info_def)

lemma example_loaded_encoders: "label_encoder example_loaded = Map.empty"
  by (simp add: example_loaded_def load_data_def read_csv_def example_object_def
      example_world_def example_library_def logger_info_def)

lemma example_preprocess_ok: "fst (preprocess_data example_library example_loaded) = Inr ()"
  by code_simp

lemma example_preprocessed_X: "self_X example_preprocessed = Some example_X"
  by code_simp

lemma example_preprocessed_y: "self_y example_preprocessed = Some example_y"
  by code_simp

lemma example_selection_ok: "fst (feature_selection example_library example_preprocessed) = Inr ()"
  by code_simp

lemma example_selected_features: "selected_features example_selected = [''Age'', ''Tumor_Size'', ''Gender'']"
  by code_simp

lemma example_split_ok:
  "fst (split_and_scale example_library (snd (feature_selection example_library example_preprocessed)))
     = Inr example_arrays"
  by code_simp

lemma example_provisional:
  "provisional_split example_library example_X example_y = Inr ([2, 3, 4, 5, 6, 7, 8, 9], [0, 1])"
  by code_simp

lemma other_init: "init ''artifacts/raw/data.csv'' ''elsewhere'' other_world = Inr other_object"
  by (simp add: init_def makedirs_def other_world_def other_object_def logger_info_def)

subsection \<open>The fields a stage leaves alone\<close>

lemma logger_error_fields [simp]:
  "input_path (logger_error m e s) = input_path s"
  "output_path (logger_error m e s) = output_path s"
  "label_encoder (logger_error m e s) = label_encoder s"
  "scaler (logger_error m e s) = scaler s"
  "self_df (logger_error m e s) = self_df s"
  "self_X (logger_error m e s) = self_X s"
  "self_y (logger_error m e s) = self_y s"
  "selected_features (logger_error m e s) = selected_features s"
  "logged (env (logger_error m e s)) = logged (env s) @ [Error m e]"
  "files (env (logger_error m e s)) = files (env s)"
  "dirs (env (logger_error m e s)) = dirs (env s)"
  "(logger_error m e s)\<lparr>env := w\<rparr> = s\<lparr>env := w\<rparr>"
  by (simp_all add: logger_error_def)

lemma logger_info_fields [simp]:
  "input_path (logger_info m s) = input_path s"
  "output_path (logger_info m s) = output_path s"
  "label_encoder (logger_info m s) = label_encoder s"
  "scaler (logger_info m s) = scaler s"
  "self_df (logger_info m s) = self_df s"
  "self_X (logger_info m s) = self_X s"
  "self_y (logger_info m s) = self_y s"
  "selected_features (logger_info m s) = selected_features s"
  "logged (env (logger_info m s)) = logged (env s) @ [Info m]"
  "files (env (logger_info m s)) = files (env s)"
  "dirs (env (logger_info m s)) = dirs (env s)"
  "(logger_info m s)\<lparr>env := w\<rparr> = s\<lparr>env := w\<rparr>"
  by (simp_all add: logger_info_def)

lemma logger_info_list_fields [simp]:
  "input_path (logger_info_list m xs s) = input_path s"
  "output_path (logger_info_list m xs s) = output_path s"
  "label_encoder (logger_info_list m xs s) = label_encoder s"
  "scaler (logger_info_list m xs s) = scaler s"
  "self_df (logger_info_list m xs s) = self_df s"
  "self_X (logger_info_list m xs s) = self_X s"
  "self_y (logger_info_list m xs s) = self_y s"
  "selected_features (logger_info_list m xs s) = selected_features s"
  "logged (env (logger_info_list m xs s)) = logged (env s) @ [Info_list m xs]"
  "files (env (logger_info_list m xs s)) = files (env s)"
  "dirs (env (logger_info_list m xs s)) = dirs (env s)"
  "(logger_info_list m xs s)\<lparr>env := w\<rparr> = s\<lparr>env := w\<rparr>"
  by (simp_all add: logger_info_list_def)

lemma joblib_dump_logged: "logged (snd (joblib_dump L v p w)) = logged w"
  by (simp add: joblib_dump_def split: option.splits sum.splits prod.splits)

lemma dump_all_logged: "logged (snd (dump_all L vs w)) = logged w"
proof (induction vs arbitrary: w)
  case Nil
  then show ?case by simp
next
  case (Cons a vs)
  obtain v p where a: "a = (v, p)" by (cases a)
  obtain r w' where d: "joblib_dump L v p w = (r, w')" by (cases "joblib_dump L v p w")
  have "logged w' = logged w" using joblib_dump_logged [of L v p w] d by simp
  then show ?case using Cons.IH [of w'] a d by (cases r) simp_all
qed

lemma frame_of_simps [simp]:
  "frame_of (logger_info m s) = frame_of s"
  "frame_of (logger_error m e s) = frame_of s"
  "frame_of (logger_info_list m xs s) = frame_of s"
  "frame_of (s\<lparr>self_df := d\<rparr>) = frame_of s"
  "frame_of (s\<lparr>self_X := x\<rparr>) = frame_of s"
  "frame_of (s\<lparr>self_y := y\<rparr>) = frame_of s"
  "frame_of (s\<lparr>scaler := sc\<rparr>) = frame_of s"
  "frame_of (s\<lparr>selected_features := fs\<rparr>) = frame_of s"
  "frame_of (s\<lparr>label_encoder := le\<rparr>) = frame_of s"
  by (simp_all add: frame_of_def logger_info_def logger_error_def logger_info_list_def)

lemma frame_of_load: "frame_of (snd (load_data L s)) = frame_of s"
  by (simp add: load_data_def split: sum.splits)

lemma frame_of_encode: "frame_of (snd (encode_columns cols s)) = frame_of s"
  by (induction cols arbitrary: s) (auto split: option.splits sum.splits prod.splits)

lemma preprocess_data_fst:
  "fst (preprocess_data L s) =
     (case fst (preprocess_body s) of
        Inr u \<Rightarrow> Inr ()
      | Inl e \<Rightarrow> Inl (CustomException ''Failed to process data'' e))"
  by (simp add: preprocess_data_def split: prod.splits sum.splits)

lemma preprocess_data_snd:
  "snd (preprocess_data L s) =
     (case fst (preprocess_body s) of
        Inr u \<Rightarrow> logger_info ''Data processing - Label encoding done...'' (snd (preprocess_body s))
      | Inl e \<Rightarrow> logger_error ''Error while processing Data : '' e (snd (preprocess_body s)))"
  by (simp add: preprocess_data_def split: prod.splits sum.splits)

lemma feature_selection_fst:
  "fst (feature_selection L s) =
     (case fst (feature_selection_body L s) of
        Inr u \<Rightarrow> Inr ()
      | Inl e \<Rightarrow> Inl (CustomException ''Failed to select features'' e))"
  by (simp add: feature_selection_def split: prod.splits sum.splits)

lemma feature_selection_snd:
  "snd (feature_selection L s) =
     (case fst (feature_selection_body L s) of
        Inr u \<Rightarrow> snd (feature_selection_body L s)
      | Inl e \<Rightarrow> logger_error ''Error while Feature selection : '' e (snd (feature_selection_body L s)))"
  by (simp add: feature_selection_def split: prod.splits sum.splits)

lemma split_and_scale_fst:
  "fst (split_and_scale L s) =
     (case fst (split_and_scale_body L s) of
        Inr r \<Rightarrow> Inr r
      | Inl e \<Rightarrow> Inl (CustomException ''Failed to split and scale data'' e))"
  by (simp add: split_and_scale_def split: prod.splits sum.splits)

lemma split_and_scale_snd:
  "snd (split_and_scale L s) =
     (case fst (split_and_scale_body L s) of
        Inr r \<Rightarrow> snd (split_and_scale_body L s)
      | Inl e \<Rightarrow> logger_error ''Error while splitting and scaling data : '' e
                 (snd (split_and_scale_body L s)))"
  by (simp add: split_and_scale_def split: prod.splits sum.splits)

lemma frame_of_preprocess_body: "frame_of (snd (preprocess_body s)) = frame_of s"
  by (simp add: preprocess_body_def Let_def frame_of_encode split: option.splits sum.splits)

lemma frame_of_preprocess: "frame_of (snd (preprocess_data L s)) = frame_of s"
  by (simp add: preprocess_data_snd frame_of_preprocess_body split: sum.splits)

lemma frame_of_feature_selection_body: "frame_of (snd (feature_selection_body L s)) = frame_of s"
  by (simp add: feature_selection_body_def Let_def split: option.splits sum.splits prod.splits)

lemma frame_of_feature_selection: "frame_of (snd (feature_selection L s)) = frame_of s"
  by (simp add: feature_selection_snd frame_of_feature_selection_body split: sum.splits)

lemma frame_of_split_and_scale_body: "frame_of (snd (split_and_scale_body L s)) = frame_of s"
  by (simp add: split_and_scale_body_def Let_def split: option.splits sum.splits prod.splits)

lemma frame_of_split_and_scale: "frame_of (snd (split_and_scale L s)) = frame_of s"
  by (simp add: split_and_scale_snd frame_of_split_and_scale_body split: sum.splits)

lemma frame_of_before_split: "frame_of (before_split L s) = frame_of s"
  by (simp add: before_split_def frame_of_load frame_of_preprocess frame_of_feature_selection)

subsection \<open>Failures\<close>

text \<open>
  Claim C6. When the loaded table lacks the column \<open>Patient_ID\<close> or the column
  \<open>Survival_Prediction\<close>, \<open>preprocess_data\<close> raises the \<open>CustomException\<close>
  "Failed to process data" that wraps the \<open>KeyError\<close> of the first missing column, logs the
  error, and assigns neither \<open>self.X\<close> nor \<open>self.y\<close> nor an encoder.
\<close>

theorem preprocess_missing_column:
  assumes "self_df s = Some d"
    and "''Patient_ID'' \<notin> set (columns_of d) \<or> ''Survival_Prediction'' \<notin> set (columns_of d)"
  shows "fst (preprocess_data L s) =
           Inl (CustomException ''Failed to process data''
                  (KeyError (if ''Patient_ID'' \<in> set (columns_of d)
                             then ''Survival_Prediction'' else ''Patient_ID'')))
         \<and> self_X (snd (preprocess_data L s)) = self_X s
         \<and> self_y (snd (preprocess_data L s)) = self_y s
         \<and> label_encoder (snd (preprocess_data L s)) = label_encoder s
         \<and> logged (env (snd (preprocess_data L s))) =
             logged (env s) @
               [Error ''Error while processing Data : ''
                  (KeyError (if ''Patient_ID'' \<in> set (columns_of d)
                             then ''Survival_Prediction'' else ''Patient_ID''))]"
proof (cases "''Patient_ID'' \<in> set (columns_of d)")
  case False
  with assms(1) show ?thesis
    by (simp add: preprocess_data_def preprocess_body_def drop_columns_def logger_error_def)
next
  case True
  with assms(2) have no: "''Survival_Prediction'' \<notin> set (columns_of d)" by simp
  then have "''Survival_Prediction'' \<notin> set (columns_of (d\<lparr>f_columns := filter (\<lambda>c. fst c \<noteq> ''Patient_ID'') (f_columns d)\<rparr>))"
    by (auto simp: columns_of_def)
  with True assms(1) show ?thesis
    by (simp add: preprocess_data_def preprocess_body_def drop_columns_def logger_error_def)
qed

theorem preprocess_missing_column_witness:
  "fst (preprocess_data example_library missing_patient_id) =
     Inl (CustomException ''Failed to process data'' (KeyError ''Patient_ID''))
   \<and> self_X (snd (preprocess_data example_library missing_patient_id)) = None"
proof -
  have d: "self_df missing_patient_id = Some \<lparr>f_index = [0, 1],
        f_columns = [(''Age'', Int64, [IntV 50, IntV 61]),
                     (''Survival_Prediction'', Int64, [IntV 1, IntV 0])]\<rparr>"
    by (simp add: missing_patient_id_def)
  have x: "self_X missing_patient_id = None"
    by (simp add: missing_patient_id_def example_object_def)
  show ?thesis
    using preprocess_missing_column [OF d, of example_library] x
    by (simp add: columns_of_def)
qed

text \<open>
  Claim C7. \<open>load_data\<close> on a path that is missing, unreadable or malformed returns the
  \<open>CustomException\<close> "Failed to load data" that carries the cause; and whichever stage
  raises first, \<open>run\<close> ends with that exception in the state that stage left: no later
  stage has run.
\<close>

theorem stage_failure_aborts_run:
  assumes "load_data L s = (r1, s1)"
    and "preprocess_data L s1 = (r2, s2)"
    and "feature_selection L s2 = (r3, s3)"
    and "split_and_scale L s3 = (r4, s4)"
  shows
    "(files (env s) (input_path s) = None \<longrightarrow>
        r1 = Inl (CustomException ''Failed to load data'' (FileNotFoundError (input_path s))))
     \<and> (files (env s) (input_path s) \<noteq> None \<and> \<not> readable (env s) (input_path s) \<longrightarrow>
        r1 = Inl (CustomException ''Failed to load data'' (PermissionError (input_path s))))
     \<and> (files (env s) (input_path s) = Some content \<and> readable (env s) (input_path s)
          \<and> parse_csv L content = Inl cause \<longrightarrow>
        r1 = Inl (CustomException ''Failed to load data'' cause))
     \<and> (r1 = Inl e \<longrightarrow> run L s = (Inl e, s1))
     \<and> (r1 = Inr () \<and> r2 = Inl e \<longrightarrow> run L s = (Inl e, s2))
     \<and> (r1 = Inr () \<and> r2 = Inr () \<and> r3 = Inl e \<longrightarrow> run L s = (Inl e, s3))
     \<and> (r1 = Inr () \<and> r2 = Inr () \<and> r3 = Inr () \<and> r4 = Inl e \<longrightarrow> run L s = (Inl e, s4))
     \<and> (r1 = Inr () \<and> r2 = Inr () \<and> r3 = Inr () \<and> r4 = Inr a
          \<and> fst (save_data_and_scaler L a s4) = Inl e \<longrightarrow>
        run L s = (Inl e, snd (save_data_and_scaler L a s4)))"
proof -
  have l: "files (env s) (input_path s) = None \<longrightarrow>
        r1 = Inl (CustomException ''Failed to load data'' (FileNotFoundError (input_path s)))"
    using assms(1) by (auto simp: load_data_def read_csv_def)
  have l2: "files (env s) (input_path s) \<noteq> None \<and> \<not> readable (env s) (input_path s) \<longrightarrow>
        r1 = Inl (CustomException ''Failed to load data'' (PermissionError (input_path s)))"
    using assms(1) by (auto simp: load_data_def read_csv_def)
  have l3: "files (env s) (input_path s) = Some content \<and> readable (env s) (input_path s)
          \<and> parse_csv L content = Inl cause \<longrightarrow>
        r1 = Inl (CustomException ''Failed to load data'' cause)"
    using assms(1) by (auto simp: load_data_def read_csv_def)
  have a1: "r1 = Inl e \<longrightarrow> run L s = (Inl e, s1)"
    using assms(1) by (simp add: run_def)
  have a2: "r1 = Inr () \<and> r2 = Inl e \<longrightarrow> run L s = (Inl e, s2)"
    using assms(1,2) by (simp add: run_def)
  have a3: "r1 = Inr () \<and> r2 = Inr () \<and> r3 = Inl e \<longrightarrow> run L s = (Inl e, s3)"
    using assms(1,2,3) by (simp add: run_def)
  have a4: "r1 = Inr () \<and> r2 = Inr () \<and> r3 = Inr () \<and> r4 = Inl e \<longrightarrow> run L s = (Inl e, s4)"
    using assms by (simp add: run_def)
  have a5: "r1 = Inr () \<and> r2 = Inr () \<and> r3 = Inr () \<and> r4 = Inr a
          \<and> fst (save_data_and_scaler L a s4) = Inl e \<longrightarrow>
        run L s = (Inl e, snd (save_data_and_scaler L a s4))"
    using assms by (cases "save_data_and_scaler L a s4") (simp add: run_def)
  from l l2 l3 a1 a2 a3 a4 a5 show ?thesis by blast
qed

theorem stage_failure_aborts_run_witness:
  "files (env no_input_object) (input_path no_input_object) = None
   \<and> run example_library no_input_object =
       (Inl (CustomException ''Failed to load data'' (FileNotFoundError ''artifacts/raw/data.csv'')),
        snd (load_data example_library no_input_object))"
proof -
  have n: "files (env no_input_object) (input_path no_input_object) = None"
    by (simp add: no_input_object_def)
  have p: "input_path no_input_object = ''artifacts/raw/data.csv''"
    by (simp add: no_input_object_def example_object_def)
  show ?thesis
    using n p stage_failure_aborts_run [OF prod.collapse [symmetric] prod.collapse [symmetric]
      prod.collapse [symmetric] prod.collapse [symmetric],
      where L = example_library and s = no_input_object
        and e = "CustomException ''Failed to load data'' (FileNotFoundError ''artifacts/raw/data.csv'')"]
    by simp
qed

text \<open>
  Claim C8. A failing \<open>save_data_and_scaler\<close> raises the \<open>CustomException\<close> "Failed to save
  data" and changes nothing of the object but its world (files and log): \<open>df\<close>, \<open>X\<close>,
  \<open>y\<close>, the selected features, the encoders and the fitted scaler are as before. The four
  arrays are values; the method has no way to change them.
\<close>

theorem save_failure_keeps_object:
  assumes "fst (save_data_and_scaler L a s) = Inl e"
  shows "(\<exists>cause. e = CustomException ''Failed to save data'' cause
            \<and> logged (env (snd (save_data_and_scaler L a s))) =
                logged (env s) @ [Error ''Error while saving data : '' cause])
         \<and> (snd (save_data_and_scaler L a s))\<lparr>env := env s\<rparr> = s
         \<and> self_df (snd (save_data_and_scaler L a s)) = self_df s
         \<and> self_X (snd (save_data_and_scaler L a s)) = self_X s
         \<and> self_y (snd (save_data_and_scaler L a s)) = self_y s
         \<and> selected_features (snd (save_data_and_scaler L a s)) = selected_features s
         \<and> label_encoder (snd (save_data_and_scaler L a s)) = label_encoder s
         \<and> scaler (snd (save_data_and_scaler L a s)) = scaler s"
proof -
  obtain r w' where d: "dump_all L (artifacts s a) (env s) = (r, w')"
    by (cases "dump_all L (artifacts s a) (env s)")
  have lg: "logged w' = logged (env s)"
    using dump_all_logged [of L "artifacts s a" "env s"] d by simp
  show ?thesis
  proof (cases r)
    case None
    with d assms show ?thesis by (simp add: save_data_and_scaler_def)
  next
    case (Some cause)
    with d assms lg show ?thesis by (simp add: save_data_and_scaler_def)
  qed
qed

theorem save_failure_keeps_object_witness:
  "init ''artifacts/raw/data.csv'' ''artifacts/processed'' scaler_locked_world =
     Inr scaler_locked_object
   \<and> fst (split_and_scale example_library (before_split example_library scaler_locked_object)) =
       Inr example_arrays
   \<and> fst (save_data_and_scaler example_library example_arrays before_save) =
       Inl (CustomException ''Failed to save data''
              (PermissionError ''artifacts/processed/scaler.pkl''))
   \<and> self_df (snd (save_data_and_scaler example_library example_arrays before_save)) =
       Some (example_table\<lparr>f_columns := tl (f_columns example_table)\<rparr>)
   \<and> self_X (snd (save_data_and_scaler example_library example_arrays before_save)) =
       Some example_X
   \<and> self_y (snd (save_data_and_scaler example_library example_arrays before_save)) =
       Some example_y
   \<and> selected_features (snd (save_data_and_scaler example_library example_arrays before_save)) =
       [''Age'', ''Tumor_Size'', ''Gender'']
   \<and> label_encoder (snd (save_data_and_scaler example_library example_arrays before_save)) ''Gender'' =
       Some [StrV ''F'', StrV ''M'']
   \<and> scaler (snd (save_data_and_scaler example_library example_arrays before_save)) =
       Some [(FloatV (451 / 8), FloatV 1), (FloatV (71 / 32), FloatV 1), (FloatV (1 / 2), FloatV 1)]
   \<and> (snd (save_data_and_scaler example_library example_arrays before_save))
        \<lparr>env := env before_save\<rparr> = before_save
   \<and> dom (files (env (snd (save_data_and_scaler example_library example_arrays before_save)))) =
       {''artifacts/raw/data.csv'', ''artifacts/processed/X_train.pkl'',
        ''artifacts/processed/X_test.pkl'', ''artifacts/processed/y_train.pkl'',
        ''artifacts/processed/y_test.pkl''}"
proof -
  have i: "init ''artifacts/raw/data.csv'' ''artifacts/processed'' scaler_locked_world =
     Inr scaler_locked_object"
    by (simp add: init_def makedirs_def scaler_locked_world_def scaler_locked_object_def
        example_world_def example_object_def logger_info_def)
  have a: "fst (split_and_scale example_library (before_split example_library scaler_locked_object)) =
       Inr example_arrays"
    by code_simp
  have f: "fst (save_data_and_scaler example_library example_arrays before_save) =
       Inl (CustomException ''Failed to save data''
              (PermissionError ''artifacts/processed/scaler.pkl''))"
    by code_simp
  have d: "self_df before_save = Some (example_table\<lparr>f_columns := tl (f_columns example_table)\<rparr>)"
    by code_simp
  have x: "self_X before_save = Some example_X"
    by code_simp
  have y: "self_y before_save = Some example_y"
    by code_simp
  have s: "selected_features before_save = [''Age'', ''Tumor_Size'', ''Gender'']"
    by code_simp
  have l: "label_encoder before_save ''Gender'' = Some [StrV ''F'', StrV ''M'']"
    by code_simp
  have c: "scaler before_save =
       Some [(FloatV (451 / 8), FloatV 1), (FloatV (71 / 32), FloatV 1), (FloatV (1 / 2), FloatV 1)]"
    by code_simp
  have w: "dom (files (env (snd (save_data_and_scaler example_library example_arrays before_save)))) =
       {''artifacts/raw/data.csv'', ''artifacts/processed/X_train.pkl'',
        ''artifacts/processed/X_test.pkl'', ''artifacts/processed/y_train.pkl'',
        ''artifacts/processed/y_test.pkl''}"
  proof -
    have "files (env (snd (save_data_and_scaler example_library example_arrays before_save))) =
        [''artifacts/raw/data.csv'' \<mapsto> ''ten patients'',
         ''artifacts/processed/X_train.pkl'' \<mapsto> ''bytes'',
         ''artifacts/processed/X_test.pkl'' \<mapsto> ''bytes'',
         ''artifacts/processed/y_train.pkl'' \<mapsto> ''bytes'',
         ''artifacts/processed/y_test.pkl'' \<mapsto> ''bytes'']"
      by (rule ext) code_simp
    then show ?thesis by auto
  qed
  note k = save_failure_keeps_object [OF f]
  from k d have d': "self_df (snd (save_data_and_scaler example_library example_arrays before_save)) =
       Some (example_table\<lparr>f_columns := tl (f_columns example_table)\<rparr>)" by simp
  from k x have x': "self_X (snd (save_data_and_scaler example_library example_arrays before_save)) =
       Some example_X" by simp
  from k y have y': "self_y (snd (save_data_and_scaler example_library example_arrays before_save)) =
       Some example_y" by simp
  from k s have s': "selected_features (snd (save_data_and_scaler example_library example_arrays before_save)) =
       [''Age'', ''Tumor_Size'', ''Gender'']" by simp
  from k l have l': "label_encoder (snd (save_data_and_scaler example_library example_arrays before_save)) ''Gender'' =
       Some [StrV ''F'', StrV ''M'']" by simp
  from k c have c': "scaler (snd (save_data_and_scaler example_library example_arrays before_save)) =
       Some [(FloatV (451 / 8), FloatV 1), (FloatV (71 / 32), FloatV 1), (FloatV (1 / 2), FloatV 1)]"
    by simp
  from k have e: "(snd (save_data_and_scaler example_library example_arrays before_save))
        \<lparr>env := env before_save\<rparr> = before_save" by blast
  from i a f d' x' y' s' l' c' e w show ?thesis by (intro conjI)
qed

subsection \<open>The artifacts\<close>

lemma joblib_dump_ok:
  assumes "joblib_dump L v p w = (None, w')"
  shows "\<exists>b. pickle L v = Inr b \<and> w' = w\<lparr>files := (files w)(p \<mapsto> b)\<rparr>"
  using assms by (auto simp: joblib_dump_def split: option.splits sum.splits prod.splits)

lemma dump_all_ok:
  assumes "dump_all L vs w = (None, w')" and "distinct (map snd vs)"
  shows "dirs w' = dirs w
         \<and> (\<forall>p. p \<notin> set (map snd vs) \<longrightarrow> files w' p = files w p)
         \<and> (\<forall>v p. (v, p) \<in> set vs \<longrightarrow> (\<exists>b. pickle L v = Inr b \<and> files w' p = Some b))"
  using assms
proof (induction vs arbitrary: w)
  case Nil
  then show ?case by simp
next
  case (Cons a vs)
  obtain v p where a: "a = (v, p)" by (cases a)
  obtain r w1 where d: "joblib_dump L v p w = (r, w1)" by (cases "joblib_dump L v p w")
  from Cons.prems(1) a d have r: "r = None" and rest: "dump_all L vs w1 = (None, w')"
    by (cases r; simp)+
  from joblib_dump_ok [OF d [unfolded r]] obtain b
    where b: "pickle L v = Inr b" and w1: "w1 = w\<lparr>files := (files w)(p \<mapsto> b)\<rparr>" by blast
  from Cons.prems(2) a have dist: "distinct (map snd vs)" and pn: "p \<notin> set (map snd vs)" by auto
  note ih = Cons.IH [OF rest dist]
  have 1: "dirs w' = dirs w" using ih w1 by simp
  have 2: "\<forall>q. q \<notin> set (map snd (a # vs)) \<longrightarrow> files w' q = files w q"
    using ih w1 a by auto
  have "files w' p = Some b" using ih pn w1 by simp
  then have 3: "\<forall>v' q. (v', q) \<in> set (a # vs) \<longrightarrow> (\<exists>b. pickle L v' = Inr b \<and> files w' q = Some b)"
    using ih a b by auto
  from 1 2 3 show ?case by blast
qed

lemma os_path_join_inj: "hd b \<noteq> CHR ''/'' \<Longrightarrow> hd c \<noteq> CHR ''/'' \<Longrightarrow> os_path_join a b = os_path_join a c \<longleftrightarrow> b = c"
  by (auto simp: os_path_join_def)

lemma artifacts_paths:
  "map snd (artifacts s a) =
     map (os_path_join (output_path s))
       [''X_train.pkl'', ''X_test.pkl'', ''y_train.pkl'', ''y_test.pkl'', ''scaler.pkl'']"
  by (cases a) (simp add: artifacts_def)

lemma artifacts_distinct: "distinct (map snd (artifacts s a))"
  unfolding artifacts_paths by (simp add: os_path_join_inj)

lemma init_fields:
  assumes "init inp outp w = Inr s0"
  shows "output_path s0 = outp" "input_path s0 = inp" "files (env s0) = files w" "outp \<in> dirs (env s0)"
    "label_encoder s0 = Map.empty"
  using assms by (auto simp: init_def makedirs_def logger_info_def split: sum.splits if_splits)

lemma run_success:
  assumes "fst (run L s) = Inr ()"
  shows "\<exists>a. fst (load_data L s) = Inr ()
           \<and> fst (preprocess_data L (snd (load_data L s))) = Inr ()
           \<and> fst (feature_selection L (snd (preprocess_data L (snd (load_data L s))))) = Inr ()
           \<and> fst (split_and_scale L (before_split L s)) = Inr a
           \<and> fst (save_data_and_scaler L a (snd (split_and_scale L (before_split L s)))) = Inr ()
           \<and> snd (run L s) =
               logger_info ''Data Processing pipeline executed successfully...''
                 (snd (save_data_and_scaler L a (snd (split_and_scale L (before_split L s)))))"
  using assms
  by (auto simp: run_def before_split_def split: prod.splits sum.splits)

lemma split_and_scale_fitted:
  assumes "fst (split_and_scale L s) = Inr a"
  shows "\<exists>stats. scaler (snd (split_and_scale L s)) = Some stats"
  using assms
  by (auto simp: split_and_scale_fst split_and_scale_snd split_and_scale_body_def Let_def
      split: option.splits sum.splits prod.splits)

lemma save_success:
  assumes "fst (save_data_and_scaler L a s) = Inr ()"
  shows "\<exists>w'. dump_all L (artifacts s a) (env s) = (None, w')
           \<and> snd (save_data_and_scaler L a s) = logger_info ''Files saved successfully'' (s\<lparr>env := w'\<rparr>)"
  using assms by (auto simp: save_data_and_scaler_def split: prod.splits option.splits)

lemma in_directory_join:
  "name \<noteq> [] \<Longrightarrow> CHR ''/'' \<notin> set name \<Longrightarrow> in_directory d (os_path_join d name)"
  by (cases name) (auto simp: in_directory_def os_path_join_def)

lemma directory_contents:
  assumes "files' = (files0 :: string \<Rightarrow> string option)(os_path_join outp ''X_train.pkl'' \<mapsto> b1,
                      os_path_join outp ''X_test.pkl'' \<mapsto> b2,
                      os_path_join outp ''y_train.pkl'' \<mapsto> b3,
                      os_path_join outp ''y_test.pkl'' \<mapsto> b4,
                      os_path_join outp ''scaler.pkl'' \<mapsto> b5)"
    and "\<forall>p. in_directory outp p \<and> files0 p \<noteq> None \<longrightarrow>
           p \<in> set (map (os_path_join outp)
                 [''X_train.pkl'', ''X_test.pkl'', ''y_train.pkl'', ''y_test.pkl'', ''scaler.pkl''])"
  shows "{p. in_directory outp p \<and> files' p \<noteq> None} =
           set (map (os_path_join outp)
                 [''X_train.pkl'', ''X_test.pkl'', ''y_train.pkl'', ''y_test.pkl'', ''scaler.pkl''])"
proof -
  have ins: "\<forall>p \<in> set (map (os_path_join outp)
                 [''X_train.pkl'', ''X_test.pkl'', ''y_train.pkl'', ''y_test.pkl'', ''scaler.pkl'']).
               in_directory outp p"
    by (simp add: in_directory_join)
  show ?thesis
  proof (intro equalityI subsetI)
    fix p assume "p \<in> {p. in_directory outp p \<and> files' p \<noteq> None}"
    then have d: "in_directory outp p" and f: "files' p \<noteq> None" by simp_all
    show "p \<in> set (map (os_path_join outp)
                 [''X_train.pkl'', ''X_test.pkl'', ''y_train.pkl'', ''y_test.pkl'', ''scaler.pkl''])"
    proof (rule ccontr)
      assume n: "p \<notin> set (map (os_path_join outp)
                 [''X_train.pkl'', ''X_test.pkl'', ''y_train.pkl'', ''y_test.pkl'', ''scaler.pkl''])"
      then have "files' p = files0 p" by (simp add: assms(1))
      with f d assms(2) n show False by auto
    qed
  next
    fix p assume m: "p \<in> set (map (os_path_join outp)
                 [''X_train.pkl'', ''X_test.pkl'', ''y_train.pkl'', ''y_test.pkl'', ''scaler.pkl''])"
    with ins have "in_directory outp p" by blast
    moreover from m have "files' p \<noteq> None" by (auto simp: assms(1))
    ultimately show "p \<in> {p. in_directory outp p \<and> files' p \<noteq> None}" by simp
  qed
qed

text \<open>
  Claim C9. After \<open>__init__\<close> and a successful \<open>run\<close> the output directory exists, and the
  files are those from before \<open>__init__\<close> with exactly five paths rewritten: the pickles of
  the training features, the test features, the training target, the test target and the
  fitted scaler, at five distinct paths under the output directory. What a path held
  before does not matter: a re-run overwrites it. So a directory that held nothing but
  artifacts of an earlier run, or nothing at all, holds exactly these five files.
\<close>

theorem run_writes_five_artifacts:
  assumes "init inp outp w = Inr s0" and "fst (run L s0) = Inr ()"
  shows "outp \<in> dirs (env (snd (run L s0)))
     \<and> distinct (map (os_path_join outp)
          [''X_train.pkl'', ''X_test.pkl'', ''y_train.pkl'', ''y_test.pkl'', ''scaler.pkl''])
     \<and> (\<exists>X_train X_test y_train y_test stats b1 b2 b3 b4 b5.
          fst (split_and_scale L (before_split L s0)) = Inr (X_train, X_test, y_train, y_test)
        \<and> scaler (snd (split_and_scale L (before_split L s0))) = Some stats
        \<and> pickle L (Ndarray X_train) = Inr b1
        \<and> pickle L (Ndarray X_test) = Inr b2
        \<and> pickle L (Series_obj y_train) = Inr b3
        \<and> pickle L (Series_obj y_test) = Inr b4
        \<and> pickle L (Scaler_obj (Some stats)) = Inr b5
        \<and> files (env (snd (run L s0))) =
            (files w)(os_path_join outp ''X_train.pkl'' \<mapsto> b1,
                      os_path_join outp ''X_test.pkl'' \<mapsto> b2,
                      os_path_join outp ''y_train.pkl'' \<mapsto> b3,
                      os_path_join outp ''y_test.pkl'' \<mapsto> b4,
                      os_path_join outp ''scaler.pkl'' \<mapsto> b5))
     \<and> ((\<forall>p. in_directory outp p \<and> files w p \<noteq> None \<longrightarrow>
             p \<in> set (map (os_path_join outp)
             [''X_train.pkl'', ''X_test.pkl'', ''y_train.pkl'', ''y_test.pkl'', ''scaler.pkl'']))
        \<longrightarrow> {p. in_directory outp p \<and> files (env (snd (run L s0))) p \<noteq> None} =
             set (map (os_path_join outp)
             [''X_train.pkl'', ''X_test.pkl'', ''y_train.pkl'', ''y_test.pkl'', ''scaler.pkl'']))"
proof -
  let ?s4 = "snd (split_and_scale L (before_split L s0))"
  from run_success [OF assms(2)] obtain a where
    a: "fst (split_and_scale L (before_split L s0)) = Inr a"
    and sv: "fst (save_data_and_scaler L a ?s4) = Inr ()"
    and fin: "snd (run L s0) =
               logger_info ''Data Processing pipeline executed successfully...''
                 (snd (save_data_and_scaler L a ?s4))"
    by blast
  obtain X_train X_test y_train y_test where a4: "a = (X_train, X_test, y_train, y_test)"
    by (cases a) auto
  from split_and_scale_fitted [OF a] obtain stats where st: "scaler ?s4 = Some stats" by blast
  from save_success [OF sv] obtain w' where
    d: "dump_all L (artifacts ?s4 a) (env ?s4) = (None, w')"
    and s5: "snd (save_data_and_scaler L a ?s4) = logger_info ''Files saved successfully'' (?s4\<lparr>env := w'\<rparr>)"
    by blast
  have fr: "frame_of ?s4 = frame_of s0"
    by (simp add: frame_of_split_and_scale frame_of_before_split)
  then have op: "output_path ?s4 = outp" and fl: "files (env ?s4) = files w"
    and dr: "dirs (env ?s4) = dirs (env s0)"
    using init_fields [OF assms(1)] 
    by (auto simp: frame_of_def dest: arg_cong [where f = files] arg_cong [where f = dirs])
  note ok = dump_all_ok [OF d artifacts_distinct]
  have dirs: "outp \<in> dirs (env (snd (run L s0)))"
    using ok dr init_fields(4) [OF assms(1)] by (simp add: fin s5)
  have dist: "distinct (map (os_path_join outp)
          [''X_train.pkl'', ''X_test.pkl'', ''y_train.pkl'', ''y_test.pkl'', ''scaler.pkl''])"
    using artifacts_distinct [of ?s4 a] unfolding artifacts_paths op .
  have mem: "set (artifacts ?s4 a) =
      {(Ndarray X_train, os_path_join outp ''X_train.pkl''),
       (Ndarray X_test, os_path_join outp ''X_test.pkl''),
       (Series_obj y_train, os_path_join outp ''y_train.pkl''),
       (Series_obj y_test, os_path_join outp ''y_test.pkl''),
       (Scaler_obj (Some stats), os_path_join outp ''scaler.pkl'')}"
    by (simp add: artifacts_def a4 op st)
  have written: "\<And>v p. (v, p) \<in> set (artifacts ?s4 a) \<Longrightarrow> \<exists>b. pickle L v = Inr b \<and> files w' p = Some b"
    using ok by blast
  have "(Ndarray X_train, os_path_join outp ''X_train.pkl'') \<in> set (artifacts ?s4 a)"
    by (simp add: mem)
  from written [OF this] obtain b1 where b1: "pickle L (Ndarray X_train) = Inr b1"
    "files w' (os_path_join outp ''X_train.pkl'') = Some b1" by blast
  have "(Ndarray X_test, os_path_join outp ''X_test.pkl'') \<in> set (artifacts ?s4 a)"
    by (simp add: mem)
  from written [OF this] obtain b2 where b2: "pickle L (Ndarray X_test) = Inr b2"
    "files w' (os_path_join outp ''X_test.pkl'') = Some b2" by blast
  have "(Series_obj y_train, os_path_join outp ''y_train.pkl'') \<in> set (artifacts ?s4 a)"
    by (simp add: mem)
  from written [OF this] obtain b3 where b3: "pickle L (Series_obj y_train) = Inr b3"
    "files w' (os_path_join outp ''y_train.pkl'') = Some b3" by blast
  have "(Series_obj y_test, os_path_join outp ''y_test.pkl'') \<in> set (artifacts ?s4 a)"
    by (simp add: mem)
  from written [OF this] obtain b4 where b4: "pickle L (Series_obj y_test) = Inr b4"
    "files w' (os_path_join outp ''y_test.pkl'') = Some b4" by blast
  have "(Scaler_obj (Some stats), os_path_join outp ''scaler.pkl'') \<in> set (artifacts ?s4 a)"
    by (simp add: mem)
  from written [OF this] obtain b5 where b5: "pickle L (Scaler_obj (Some stats)) = Inr b5"
    "files w' (os_path_join outp ''scaler.pkl'') = Some b5" by blast
  have other: "\<And>p. p \<notin> set (map (os_path_join outp)
          [''X_train.pkl'', ''X_test.pkl'', ''y_train.pkl'', ''y_test.pkl'', ''scaler.pkl''])
        \<Longrightarrow> files w' p = files w p"
  proof -
    fix p
    assume "p \<notin> set (map (os_path_join outp)
          [''X_train.pkl'', ''X_test.pkl'', ''y_train.pkl'', ''y_test.pkl'', ''scaler.pkl''])"
    then have "p \<notin> set (map snd (artifacts ?s4 a))"
      unfolding artifacts_paths op .
    with ok have "files w' p = files (env ?s4) p" by blast
    then show "files w' p = files w p" by (simp add: fl)
  qed
  have "files w' =
            (files w)(os_path_join outp ''X_train.pkl'' \<mapsto> b1,
                      os_path_join outp ''X_test.pkl'' \<mapsto> b2,
                      os_path_join outp ''y_train.pkl'' \<mapsto> b3,
                      os_path_join outp ''y_test.pkl'' \<mapsto> b4,
                      os_path_join outp ''scaler.pkl'' \<mapsto> b5)"
  proof (rule ext)
    fix p
    show "files w' p = ((files w)(os_path_join outp ''X_train.pkl'' \<mapsto> b1,
                      os_path_join outp ''X_test.pkl'' \<mapsto> b2,
                      os_path_join outp ''y_train.pkl'' \<mapsto> b3,
                      os_path_join outp ''y_test.pkl'' \<mapsto> b4,
                      os_path_join outp ''scaler.pkl'' \<mapsto> b5)) p"
      using b1(2) b2(2) b3(2) b4(2) b5(2) other [of p] by auto
  qed
  then have fs: "files (env (snd (run L s0))) =
            (files w)(os_path_join outp ''X_train.pkl'' \<mapsto> b1,
                      os_path_join outp ''X_test.pkl'' \<mapsto> b2,
                      os_path_join outp ''y_train.pkl'' \<mapsto> b3,
                      os_path_join outp ''y_test.pkl'' \<mapsto> b4,
                      os_path_join outp ''scaler.pkl'' \<mapsto> b5)"
    by (simp add: fin s5)
  have dc: "(\<forall>p. in_directory outp p \<and> files w p \<noteq> None \<longrightarrow>
             p \<in> set (map (os_path_join outp)
             [''X_train.pkl'', ''X_test.pkl'', ''y_train.pkl'', ''y_test.pkl'', ''scaler.pkl'']))
        \<longrightarrow> {p. in_directory outp p \<and> files (env (snd (run L s0))) p \<noteq> None} =
             set (map (os_path_join outp)
             [''X_train.pkl'', ''X_test.pkl'', ''y_train.pkl'', ''y_test.pkl'', ''scaler.pkl''])"
    using directory_contents [OF fs] by blast
  from fs a a4 st b1(1) b2(1) b3(1) b4(1) b5(1)
  have ex: "\<exists>X_train X_test y_train y_test stats b1 b2 b3 b4 b5.
          fst (split_and_scale L (before_split L s0)) = Inr (X_train, X_test, y_train, y_test)
        \<and> scaler (snd (split_and_scale L (before_split L s0))) = Some stats
        \<and> pickle L (Ndarray X_train) = Inr b1
        \<and> pickle L (Ndarray X_test) = Inr b2
        \<and> pickle L (Series_obj y_train) = Inr b3
        \<and> pickle L (Series_obj y_test) = Inr b4
        \<and> pickle L (Scaler_obj (Some stats)) = Inr b5
        \<and> files (env (snd (run L s0))) =
            (files w)(os_path_join outp ''X_train.pkl'' \<mapsto> b1,
                      os_path_join outp ''X_test.pkl'' \<mapsto> b2,
                      os_path_join outp ''y_train.pkl'' \<mapsto> b3,
                      os_path_join outp ''y_test.pkl'' \<mapsto> b4,
                      os_path_join outp ''scaler.pkl'' \<mapsto> b5)"
    by blast
  from dirs dist ex dc show ?thesis by (intro conjI)
qed

theorem run_writes_five_artifacts_witness:
  "init ''artifacts/raw/data.csv'' ''artifacts/processed'' example_world = Inr example_object
   \<and> fst (run example_library example_object) = Inr ()
   \<and> ''artifacts/processed'' \<in> dirs (env (snd (run example_library example_object)))
   \<and> files (env (snd (run example_library example_object))) =
       (files example_world)
         (''artifacts/processed/X_train.pkl'' \<mapsto> ''bytes'',
          ''artifacts/processed/X_test.pkl'' \<mapsto> ''bytes'',
          ''artifacts/processed/y_train.pkl'' \<mapsto> ''bytes'',
          ''artifacts/processed/y_test.pkl'' \<mapsto> ''bytes'',
          ''artifacts/processed/scaler.pkl'' \<mapsto> ''bytes'')
   \<and> {p. in_directory ''artifacts/processed'' p
            \<and> files (env (snd (run example_library example_object))) p \<noteq> None} =
       {''artifacts/processed/X_train.pkl'', ''artifacts/processed/X_test.pkl'',
        ''artifacts/processed/y_train.pkl'', ''artifacts/processed/y_test.pkl'',
        ''artifacts/processed/scaler.pkl''}"
proof -
  note t = run_writes_five_artifacts [OF init_example example_run_ok]
  have empty: "\<forall>p. in_directory ''artifacts/processed'' p \<and> files example_world p \<noteq> None \<longrightarrow>
             p \<in> set (map (os_path_join ''artifacts/processed'')
             [''X_train.pkl'', ''X_test.pkl'', ''y_train.pkl'', ''y_test.pkl'', ''scaler.pkl''])"
    by (auto simp: example_world_def in_directory_def split: if_splits)
  from t have d: "''artifacts/processed'' \<in> dirs (env (snd (run example_library example_object)))"
    by blast
  from t have f: "files (env (snd (run example_library example_object))) =
       (files example_world)
         (''artifacts/processed/X_train.pkl'' \<mapsto> ''bytes'',
          ''artifacts/processed/X_test.pkl'' \<mapsto> ''bytes'',
          ''artifacts/processed/y_train.pkl'' \<mapsto> ''bytes'',
          ''artifacts/processed/y_test.pkl'' \<mapsto> ''bytes'',
          ''artifacts/processed/scaler.pkl'' \<mapsto> ''bytes'')"
    by (auto simp: example_pickle os_path_join_def)
  from t empty have "{p. in_directory ''artifacts/processed'' p
            \<and> files (env (snd (run example_library example_object))) p \<noteq> None} =
       set (map (os_path_join ''artifacts/processed'')
             [''X_train.pkl'', ''X_test.pkl'', ''y_train.pkl'', ''y_test.pkl'', ''scaler.pkl''])"
    by blast
  also have "\<dots> = {''artifacts/processed/X_train.pkl'', ''artifacts/processed/X_test.pkl'',
        ''artifacts/processed/y_train.pkl'', ''artifacts/processed/y_test.pkl'',
        ''artifacts/processed/scaler.pkl''}"
    by (simp add: os_path_join_def)
  finally have c: "{p. in_directory ''artifacts/processed'' p
            \<and> files (env (snd (run example_library example_object))) p \<noteq> None} =
       {''artifacts/processed/X_train.pkl'', ''artifacts/processed/X_test.pkl'',
        ''artifacts/processed/y_train.pkl'', ''artifacts/processed/y_test.pkl'',
        ''artifacts/processed/scaler.pkl''}" .
  from init_example example_run_ok d f c show ?thesis by (intro conjI)
qed

subsection \<open>Ranking the features\<close>

lemma mset_sort_values_desc: "mset (sort_values_desc rows) = mset rows"
proof -
  have "mset (sort_values_desc rows) =
          filter_mset (\<lambda>r. snd r \<noteq> None) (mset rows) + filter_mset (\<lambda>r. \<not> snd r \<noteq> None) (mset rows)"
    by (simp add: sort_values_desc_def)
  then show ?thesis by (simp only: multiset_partition [symmetric])
qed

lemma length_sort_values_desc: "length (sort_values_desc rows) = length rows"
  using mset_sort_values_desc [of rows] by (metis size_mset)

lemma sorted_sort_values_desc:
  "sorted_wrt (\<lambda>a b. score_ge (snd a) (snd b)) (sort_values_desc rows)"
proof -
  let ?some = "filter (\<lambda>r. snd r \<noteq> None) rows"
  let ?ys = "sort_key (\<lambda>r. the (snd r)) (rev ?some)"
  have "sorted (map (\<lambda>r. the (snd r)) ?ys)" by (rule sorted_sort_key)
  then have asc: "sorted_wrt (\<lambda>a b. the (snd a) \<le> the (snd b)) ?ys"
    by (simp add: sorted_map)
  have "sorted_wrt (\<lambda>a b. score_ge (snd b) (snd a)) ?ys"
  proof (rule sorted_wrt_mono_rel [OF _ asc])
    fix a b
    assume "a \<in> set ?ys" "b \<in> set ?ys" "the (snd a) \<le> the (snd b)"
    then show "score_ge (snd b) (snd a)"
      by (auto simp: score_ge_def)
  qed
  then have 1: "sorted_wrt (\<lambda>a b. score_ge (snd a) (snd b)) (rev ?ys)"
    by (simp add: sorted_wrt_rev)
  have 2: "sorted_wrt (\<lambda>a b. score_ge (snd a) (snd b)) (filter (\<lambda>r. snd r = None) rows)"
    by (rule sorted_wrt_mono_rel [OF _ sorted_wrt_true]) (auto simp: score_ge_def)
  have 3: "\<forall>a\<in>set (rev ?ys). \<forall>b\<in>set (filter (\<lambda>r. snd r = None) rows). score_ge (snd a) (snd b)"
    by (auto simp: score_ge_def)
  from 1 2 3 show ?thesis
    unfolding sort_values_desc_def sorted_wrt_append by blast
qed

lemma getitem_list_names: "getitem_list d names = Inr cs \<Longrightarrow> map fst cs = names"
  by (induction names arbitrary: cs) (auto split: option.splits sum.splits)

lemma numeric_columns_rows:
  "length (f_columns (select_dtypes inc (frame_rows x idx))) = length (f_columns (select_dtypes inc x))"
  by (simp add: select_dtypes_def frame_rows_def filter_map comp_def)

subsection \<open>The label encoder\<close>

lemma index_of_less: "v \<in> set xs \<Longrightarrow> index_of xs v < length xs"
  by (induction xs) auto

lemma nth_index_of: "v \<in> set xs \<Longrightarrow> xs ! index_of xs v = v"
  by (induction xs) auto

lemma index_of_inj: "v \<in> set xs \<Longrightarrow> index_of xs v = index_of xs v' \<Longrightarrow> v' \<in> set xs \<Longrightarrow> v = v'"
  by (metis nth_index_of)

lemma index_of_nth: "distinct xs \<Longrightarrow> i < length xs \<Longrightarrow> index_of xs (xs ! i) = i"
proof (induction xs arbitrary: i)
  case Nil
  then show ?case by simp
next
  case (Cons x xs)
  show ?case
  proof (cases i)
    case 0
    then show ?thesis by simp
  next
    case (Suc j)
    with Cons.prems have "xs ! j \<in> set xs" "x \<notin> set xs" by auto
    then have "x \<noteq> xs ! j" by auto
    with Cons Suc show ?thesis by simp
  qed
qed

lemma cell_key_NaN: "cell_key v = (2, 0, []) \<longleftrightarrow> v = NaN"
  by (cases v) auto

lemma cell_key_inj: "\<not> is_number u \<Longrightarrow> \<not> is_number v \<Longrightarrow> cell_key u = cell_key v \<Longrightarrow> u = v"
  by (cases u; cases v) (auto simp: is_number_def)

lemma hd_filter_key:
  assumes "k \<in> cell_key ` set xs"
  shows "hd (filter (\<lambda>v. cell_key v = k) xs) \<in> set xs"
    and "cell_key (hd (filter (\<lambda>v. cell_key v = k) xs)) = k"
proof -
  from assms have ne: "filter (\<lambda>v. cell_key v = k) xs \<noteq> []"
    by (auto simp: filter_empty_conv)
  then have "hd (filter (\<lambda>v. cell_key v = k) xs) \<in> set (filter (\<lambda>v. cell_key v = k) xs)"
    by (rule hd_in_set)
  then show "hd (filter (\<lambda>v. cell_key v = k) xs) \<in> set xs"
    and "cell_key (hd (filter (\<lambda>v. cell_key v = k) xs)) = k" by auto
qed

lemma unique_python_classes:
  assumes "unique_python vs = Inr classes"
  shows "distinct (map cell_key classes)"
    and "cell_key ` set classes = cell_key ` set vs"
    and "set classes \<subseteq> set vs"
proof -
  define present where "present = filter (\<lambda>v. v \<noteq> NaN) vs"
  define keys where "keys = sort (remdups (map cell_key present))"
  define uniques where "uniques = map (\<lambda>k. hd (filter (\<lambda>v. cell_key v = k) present)) keys"
  define missing where "missing = (if NaN \<in> set vs then [NaN] else [])"
  from assms have c: "classes = uniques @ missing"
    by (auto simp: unique_python_def Let_def present_def keys_def uniques_def missing_def
        split: if_splits)
  have ks: "set keys = cell_key ` set present" and kd: "distinct keys"
    by (simp_all add: keys_def)
  have mk: "map cell_key uniques = keys"
    unfolding uniques_def map_map comp_def
    by (rule map_idI) (simp add: ks hd_filter_key(2))
  have us: "set uniques \<subseteq> set present"
    unfolding uniques_def using ks by (auto simp: hd_filter_key(1))
  have nk: "(2, 0, []) \<notin> set keys"
    unfolding ks using cell_key_NaN by (force simp: present_def)
  show "distinct (map cell_key classes)"
    using kd nk by (simp add: c mk missing_def)
  have "cell_key ` set classes = set keys \<union> cell_key ` set missing"
    using mk by (simp add: c image_Un) (metis list.set_map)
  also have "\<dots> = cell_key ` set vs"
  proof -
    have "NaN \<in> set vs \<Longrightarrow> cell_key NaN \<in> cell_key ` set vs" by (rule imageI)
    then show ?thesis unfolding ks by (auto simp: present_def missing_def)
  qed
  finally show "cell_key ` set classes = cell_key ` set vs" .
  show "set classes \<subseteq> set vs"
    using us by (auto simp: c present_def missing_def)
qed

lemma fit_transform_classes:
  assumes "fit_transform vs = Inr (classes, codes)"
  shows "distinct (map cell_key classes)" and "cell_key ` set classes = cell_key ` set vs"
    and "set classes \<subseteq> set vs" and "codes = map (encode classes) vs"
  using assms unique_python_classes [of vs classes]
  by (auto simp: fit_transform_def split: sum.splits)

lemma codes_dtype_map [simp]: "codes_dtype (map f vs) = codes_dtype vs"
  by (simp add: codes_dtype_def)

lemma encode_decode:
  assumes "cell_key v \<in> cell_key ` set classes"
  shows "valid_code classes (encode classes v)"
    and "cell_key (classes ! nat (int_of (encode classes v))) = cell_key v"
proof -
  from assms have m: "cell_key v \<in> set (map cell_key classes)" by simp
  from index_of_less [OF m] show "valid_code classes (encode classes v)"
    by (simp add: valid_code_def encode_def)
  from index_of_less [OF m] nth_index_of [OF m]
  show "cell_key (classes ! nat (int_of (encode classes v))) = cell_key v"
    by (simp add: encode_def)
qed

lemma inverse_transform_encode:
  assumes "cell_key ` set vs \<subseteq> cell_key ` set classes"
  shows "\<exists>decoded. inverse_transform classes (map (encode classes) vs) = Inr decoded
           \<and> list_all2 py_eq decoded vs"
proof -
  have "list_all (valid_code classes) (map (encode classes) vs)"
    using assms by (auto simp: list_all_iff intro!: encode_decode(1))
  moreover have "list_all2 py_eq (map (\<lambda>c. classes ! nat (int_of c)) (map (encode classes) vs)) vs"
    using assms by (auto simp: list_all2_map1 py_eq_def intro!: list_all2_same [THEN iffD2] encode_decode(2))
  ultimately show ?thesis by (simp add: inverse_transform_def)
qed

lemma list_all2_py_eq_strings:
  assumes "list_all2 py_eq decoded vs" and "\<forall>v \<in> set vs. \<not> is_number v"
  shows "decoded = vs"
  using assms
proof (induction rule: list_all2_induct)
  case Nil
  then show ?case by simp
next
  case (Cons d ds v vs)
  from Cons.hyps(1) Cons.prems have "cell_key d = cell_key v" "\<not> is_number v"
    by (simp_all add: py_eq_def)
  then have "d = v" by (cases d; cases v) (auto simp: is_number_def)
  with Cons show ?case by simp
qed

lemma encode_codes:
  assumes "distinct (map cell_key classes)" and "cell_key ` set classes = cell_key ` set vs"
  shows "encode classes ` set vs = IntV ` int ` {..<length classes}"
    and "length classes = card (cell_key ` set vs)"
    and "\<forall>u \<in> set vs. \<forall>v \<in> set vs. encode classes u = encode classes v \<longleftrightarrow> py_eq u v"
proof -
  let ?ks = "map cell_key classes"
  have ks: "set ?ks = cell_key ` set vs" using assms(2) by simp
  show "encode classes ` set vs = IntV ` int ` {..<length classes}"
  proof (intro equalityI subsetI)
    fix c assume "c \<in> encode classes ` set vs"
    then obtain v where v: "v \<in> set vs" and c: "c = encode classes v" by blast
    from v ks have "cell_key v \<in> set ?ks" by blast
    from index_of_less [OF this] show "c \<in> IntV ` int ` {..<length classes}"
      by (simp add: c encode_def)
  next
    fix c assume "c \<in> IntV ` int ` {..<length classes}"
    then obtain i where i: "i < length classes" and c: "c = IntV (int i)" by auto
    then have "?ks ! i \<in> set ?ks" by (metis length_map nth_mem)
    with ks obtain v where v: "v \<in> set vs" and kv: "cell_key v = ?ks ! i" by auto
    have "encode classes v = c"
      using index_of_nth [OF assms(1), of i] i c by (simp add: encode_def kv)
    with v show "c \<in> encode classes ` set vs" by blast
  qed
  have "length classes = length ?ks" by simp
  also have "\<dots> = card (set ?ks)" using assms(1) by (simp only: distinct_card)
  finally show "length classes = card (cell_key ` set vs)" by (simp only: ks)
  show "\<forall>u \<in> set vs. \<forall>v \<in> set vs. encode classes u = encode classes v \<longleftrightarrow> py_eq u v"
  proof (intro ballI)
    fix u v assume u: "u \<in> set vs" and v: "v \<in> set vs"
    with ks have ku: "cell_key u \<in> set ?ks" and kv: "cell_key v \<in> set ?ks" by blast+
    show "encode classes u = encode classes v \<longleftrightarrow> py_eq u v"
      using index_of_inj [OF ku _ kv] by (auto simp: encode_def py_eq_def)
  qed
qed

lemma encode_bij:
  assumes "distinct (map cell_key classes)" and "cell_key ` set classes = cell_key ` set vs"
    and "\<forall>v \<in> set vs. \<not> is_number v"
  shows "bij_betw (encode classes) (set vs) (IntV ` int ` {..<length classes})"
  unfolding bij_betw_def
proof
  show "inj_on (encode classes) (set vs)"
  proof (rule inj_onI)
    fix u v assume u: "u \<in> set vs" and v: "v \<in> set vs" and e: "encode classes u = encode classes v"
    with encode_codes(3) [OF assms(1,2)] have "cell_key u = cell_key v" by (simp add: py_eq_def)
    with u v assms(3) show "u = v" by (intro cell_key_inj) auto
  qed
  show "encode classes ` set vs = IntV ` int ` {..<length classes}"
    by (rule encode_codes(1) [OF assms(1,2)])
qed

lemma fit_transform_roundtrip:
  assumes "fit_transform vs = Inr (classes, codes)"
  shows "\<exists>decoded.
           inverse_transform classes (map (encode classes) vs) = Inr decoded
         \<and> list_all2 py_eq decoded vs
         \<and> ((\<forall>v \<in> set vs. \<not> is_number v) \<longrightarrow> decoded = vs)
         \<and> encode classes ` set vs = IntV ` int ` {..<length classes}
         \<and> length classes = card (cell_key ` set vs)
         \<and> (\<forall>u \<in> set vs. \<forall>v \<in> set vs. encode classes u = encode classes v \<longleftrightarrow> py_eq u v)
         \<and> ((\<forall>v \<in> set vs. \<not> is_number v) \<longrightarrow>
               bij_betw (encode classes) (set vs) (IntV ` int ` {..<length classes}))"
proof -
  note cl = fit_transform_classes(1,2) [OF assms]
  from inverse_transform_encode [of vs classes] cl(2) obtain decoded where
    d: "inverse_transform classes (map (encode classes) vs) = Inr decoded"
    and e: "list_all2 py_eq decoded vs" by auto
  from e have s: "(\<forall>v \<in> set vs. \<not> is_number v) \<longrightarrow> decoded = vs"
    by (auto intro: list_all2_py_eq_strings)
  have b: "(\<forall>v \<in> set vs. \<not> is_number v) \<longrightarrow>
               bij_betw (encode classes) (set vs) (IntV ` int ` {..<length classes})"
    using encode_bij [OF cl] by blast
  note c = encode_codes [OF cl]
  show ?thesis
    apply (rule exI [of _ decoded])
    apply (insert d e s c b)
    apply (intro conjI; assumption)
    done
qed

lemma fit_transform_numbers:
  "fit_transform [IntV 3, BoolV True, IntV 3, FloatV 1, NaN] =
     Inr ([BoolV True, IntV 3, NaN], map IntV [1, 0, 1, 0, 2])"
  by code_simp

lemma preprocess_header_only:
  "fst (preprocess_data example_library header_only) = Inr ()
   \<and> self_X (snd (preprocess_data example_library header_only)) =
       Some \<lparr>f_index = [], f_columns = [(''Age'', Float64, []), (''Gender'', Float64, [])]\<rparr>
   \<and> label_encoder (snd (preprocess_data example_library header_only)) ''Age'' = Some []
   \<and> label_encoder (snd (preprocess_data example_library header_only)) ''Gender'' = Some []"
  by code_simp

lemma fit_transform_mixed:
  "fit_transform [StrV ''F'', IntV 1] =
     Inl (TypeError ''Encoders require their input argument must be uniformly strings or numbers.'')"
  by code_simp

lemma map_of_replace:
  "map_of (map (\<lambda>c. if fst c = name then (name, v) else c) cs) k =
     (if k = name \<and> name \<in> fst ` set cs then Some v else map_of cs k)"
proof (induction cs)
  case Nil
  then show ?case by simp
next
  case (Cons c cs)
  show ?case
  proof (cases "name \<in> fst ` set cs")
    case True
    with Cons show ?thesis by auto
  next
    case False
    then have "map (\<lambda>c. if fst c = name then (name, v) else c) cs = cs"
      by (intro map_idI) auto
    with False show ?thesis by auto
  qed
qed

lemma map_of_setitem:
  "name \<in> set (columns_of d) \<Longrightarrow>
     map_of (f_columns (setitem d name dt vs)) = (map_of (f_columns d))(name \<mapsto> (dt, vs))"
  by (rule ext) (simp add: setitem_def columns_of_def map_of_replace)

lemma columns_of_setitem:
  "name \<in> set (columns_of d) \<Longrightarrow> columns_of (setitem d name dt vs) = columns_of d"
  by (simp add: setitem_def columns_of_def comp_def if_distrib [of fst] cong: if_cong)

lemma getitem_Some:
  "map_of (f_columns d) name = Some (dt, vs) \<Longrightarrow>
     getitem d name = Inr \<lparr>s_index = f_index d, s_dtype = dt, s_values = vs\<rparr>"
  by (simp add: getitem_def)

lemma columns_map_of:
  "name \<in> set (columns_of d) \<Longrightarrow> \<exists>dt vs. map_of (f_columns d) name = Some (dt, vs)"
  by (metis columns_of_def list.set_map map_of_eq_None_iff not_Some_eq surj_pair)

lemma f_index_setitem: "f_index (setitem d name dt vs) = f_index d"
  by (simp add: setitem_def)

lemma encode_columns_ok:
  assumes "self_X s = Some x0" and "set names \<subseteq> set (columns_of x0)" and "distinct names"
    and "fst (encode_columns names s) = Inr ()"
  shows "\<exists>x'. self_X (snd (encode_columns names s)) = Some x'
          \<and> columns_of x' = columns_of x0 \<and> f_index x' = f_index x0
          \<and> (\<forall>name\<in>set names. \<exists>dt vs classes.
                map_of (f_columns x0) name = Some (dt, vs)
              \<and> fit_transform vs = Inr (classes, map (encode classes) vs)
              \<and> map_of (f_columns x') name = Some (codes_dtype vs, map (encode classes) vs)
              \<and> label_encoder (snd (encode_columns names s)) name = Some classes)
          \<and> (\<forall>name. name \<notin> set names \<longrightarrow>
                map_of (f_columns x') name = map_of (f_columns x0) name
              \<and> label_encoder (snd (encode_columns names s)) name = label_encoder s name)"
  using assms
proof (induction names arbitrary: s x0)
  case Nil
  then show ?case by simp
next
  case (Cons col rest)
  from Cons.prems(2) have colin: "col \<in> set (columns_of x0)" by simp
  from columns_map_of [OF this] obtain dt vs where mo: "map_of (f_columns x0) col = Some (dt, vs)"
    by blast
  note gi = getitem_Some [OF mo]
  from Cons.prems(1,4) gi obtain le codes where ft: "fit_transform vs = Inr (le, codes)"
    by (cases "fit_transform vs") auto
  from fit_transform_classes(4) [OF ft] have codes: "codes = map (encode le) vs" .
  let ?x1 = "setitem x0 col (codes_dtype codes) codes"
  let ?s1 = "s\<lparr>self_X := Some ?x1, label_encoder := (label_encoder s)(col \<mapsto> le)\<rparr>"
  have step: "encode_columns (col # rest) s = encode_columns rest ?s1"
    using Cons.prems(1) gi ft by simp
  have x1: "self_X ?s1 = Some ?x1" by simp
  have cols1: "columns_of ?x1 = columns_of x0" by (rule columns_of_setitem [OF colin])
  have sub: "set rest \<subseteq> set (columns_of ?x1)" using Cons.prems(2) cols1 by simp
  have dist: "distinct rest" and notin: "col \<notin> set rest" using Cons.prems(3) by auto
  have ok: "fst (encode_columns rest ?s1) = Inr ()" using Cons.prems(4) step by simp
  from Cons.IH [OF x1 sub dist ok] obtain x' where
    X': "self_X (snd (encode_columns rest ?s1)) = Some x'"
    and c': "columns_of x' = columns_of ?x1" and i': "f_index x' = f_index ?x1"
    and inn: "\<forall>name\<in>set rest. \<exists>dt vs classes.
                map_of (f_columns ?x1) name = Some (dt, vs)
              \<and> fit_transform vs = Inr (classes, map (encode classes) vs)
              \<and> map_of (f_columns x') name = Some (codes_dtype vs, map (encode classes) vs)
              \<and> label_encoder (snd (encode_columns rest ?s1)) name = Some classes"
    and out: "\<forall>name. name \<notin> set rest \<longrightarrow>
                map_of (f_columns x') name = map_of (f_columns ?x1) name
              \<and> label_encoder (snd (encode_columns rest ?s1)) name = label_encoder ?s1 name"
    by blast
  have mo1: "map_of (f_columns ?x1) = (map_of (f_columns x0))(col \<mapsto> (codes_dtype codes, codes))"
    by (rule map_of_setitem [OF colin])
  have A: "\<forall>name\<in>set (col # rest). \<exists>dt vs classes.
                map_of (f_columns x0) name = Some (dt, vs)
              \<and> fit_transform vs = Inr (classes, map (encode classes) vs)
              \<and> map_of (f_columns x') name = Some (codes_dtype vs, map (encode classes) vs)
              \<and> label_encoder (snd (encode_columns rest ?s1)) name = Some classes"
  proof
    fix name assume "name \<in> set (col # rest)"
    then consider "name = col" | "name \<in> set rest" "name \<noteq> col" using notin by auto
    then show "\<exists>dt vs classes.
                map_of (f_columns x0) name = Some (dt, vs)
              \<and> fit_transform vs = Inr (classes, map (encode classes) vs)
              \<and> map_of (f_columns x') name = Some (codes_dtype vs, map (encode classes) vs)
              \<and> label_encoder (snd (encode_columns rest ?s1)) name = Some classes"
    proof cases
      case 1
      with out notin mo1 have "map_of (f_columns x') name = Some (codes_dtype codes, codes)"
        and "label_encoder (snd (encode_columns rest ?s1)) name = Some le" by simp_all
      with 1 mo ft codes show ?thesis by auto
    next
      case 2
      with inn mo1 show ?thesis by auto
    qed
  qed
  have B: "\<forall>name. name \<notin> set (col # rest) \<longrightarrow>
                map_of (f_columns x') name = map_of (f_columns x0) name
              \<and> label_encoder (snd (encode_columns rest ?s1)) name = label_encoder s name"
    using out mo1 by simp
  from X' c' i' cols1 A B show ?case
    unfolding step by (simp add: f_index_setitem)
qed

lemma encode_columns_frame:
  "self_y (snd (encode_columns names s)) = self_y s \<and> self_df (snd (encode_columns names s)) = self_df s
   \<and> selected_features (snd (encode_columns names s)) = selected_features s
   \<and> scaler (snd (encode_columns names s)) = scaler s"
  by (induction names arbitrary: s) (auto split: option.splits sum.splits)

lemma drop_columns_Inr:
  assumes "drop_columns d name = Inr d'"
  shows "f_columns d' = filter (\<lambda>c. fst c \<noteq> name) (f_columns d)" and "f_index d' = f_index d"
  using assms by (auto simp: drop_columns_def split: if_splits)

lemma distinct_drop_columns:
  "drop_columns d name = Inr d' \<Longrightarrow> distinct (columns_of d) \<Longrightarrow> distinct (columns_of d')"
  by (simp add: drop_columns_Inr columns_of_def distinct_map_filter)

lemma preprocess_body_ok:
  assumes "self_df s = Some d" and "fst (preprocess_body s) = Inr ()"
  shows "\<exists>d1 x target.
           drop_columns d ''Patient_ID'' = Inr d1
         \<and> drop_columns d1 ''Survival_Prediction'' = Inr x
         \<and> getitem d1 ''Survival_Prediction'' = Inr target
         \<and> preprocess_body s =
             encode_columns (columns_of (select_dtypes [Object] x))
               (s\<lparr>self_df := Some d1, self_X := Some x, self_y := Some target\<rparr>)"
  using assms by (auto simp: preprocess_body_def Let_def split: sum.splits)

subsection \<open>The splits\<close>

lemma ceil_fifth: "nat \<lceil>rat_of_nat n / 5\<rceil> = (n + 4) div 5"
proof -
  have "rat_of_nat n / 5 = of_int (int n) / of_int 5" by simp
  then have "\<lceil>rat_of_nat n / 5\<rceil> = - (- int n div 5)"
    by (simp only: ceiling_divide_eq_div)
  also have "\<dots> = int ((n + 4) div 5)" by linarith
  finally show ?thesis by simp
qed

lemma validate_shuffle_split_Inr:
  assumes "validate_shuffle_split n 0.2 = Inr (n_train, n_test)"
  shows "n_test = (n + 4) div 5" and "n_train = n - (n + 4) div 5" and "0 < n_train"
    and "n_train + n_test = n"
  using assms by (auto simp: validate_shuffle_split_def Let_def ceil_fifth split: if_splits)

lemma perm_okD:
  assumes "perm_ok L"
  shows "mset (fst (permutation L r n)) = mset [0..<n]"
    and "length (fst (permutation L r n)) = n"
    and "set (fst (permutation L r n)) = {..<n}"
    and "distinct (fst (permutation L r n))"
proof -
  show m: "mset (fst (permutation L r n)) = mset [0..<n]" using assms by (simp add: perm_ok_def)
  from m show "length (fst (permutation L r n)) = n" by (metis size_mset length_upt diff_zero)
  from m show "set (fst (permutation L r n)) = {..<n}" by (metis set_mset_mset set_upt atLeast_upt)
  from m show "distinct (fst (permutation L r n))" by (metis mset_eq_imp_distinct_iff distinct_upt)
qed

lemma mset_take_rows_perm:
  assumes "mset p = mset [0..<length xs]"
  shows "mset (take_rows p xs) = mset xs"
proof -
  have "mset (take_rows p xs) = image_mset (\<lambda>i. xs ! i) (mset p)" by (simp add: take_rows_def)
  also have "\<dots> = mset (map (\<lambda>i. xs ! i) [0..<length xs])" using assms by simp
  also have "\<dots> = mset xs" by (simp add: map_nth)
  finally show ?thesis .
qed

lemma length_take_rows [simp]: "length (take_rows p xs) = length p"
  by (simp add: take_rows_def)

lemma shuffle_split_ok:
  assumes "perm_ok L" and "n_train + n_test = n"
    and "shuffle_split L seed n n_train n_test = (train, test)"
  shows "length train = n_train" and "length test = n_test"
    and "mset (train @ test) = mset [0..<n]"
proof -
  let ?p = "fst (permutation L (RandomState L seed) n)"
  from assms(3) have tr: "train = take n_train (drop n_test ?p)" and te: "test = take n_test ?p"
    by (simp_all add: shuffle_split_def Let_def)
  note p = perm_okD [OF assms(1), of "RandomState L seed" n]
  from p(2) assms(2) show "length train = n_train" "length test = n_test"
    by (simp_all add: tr te)
  from p(2) assms(2) have "train = drop n_test ?p" by (simp add: tr)
  then have "mset (train @ test) = mset (drop n_test ?p) + mset (take n_test ?p)"
    by (simp add: te)
  also have "\<dots> = mset (take n_test ?p @ drop n_test ?p)"
    by (simp only: mset_append union_commute)
  finally show "mset (train @ test) = mset [0..<n]" using p(1) by simp
qed

lemma mset_concat_classes:
  assumes "distinct cs" and "\<forall>x\<in>set xs. f x \<in> set cs"
  shows "mset (concat (map (\<lambda>c. filter (\<lambda>x. f x = c) xs) cs)) = mset xs"
  using assms
proof (induction cs arbitrary: xs)
  case Nil
  then show ?case by (cases xs) auto
next
  case (Cons c cs)
  let ?rest = "filter (\<lambda>x. f x \<noteq> c) xs"
  have same: "map (\<lambda>c'. filter (\<lambda>x. f x = c') xs) cs = map (\<lambda>c'. filter (\<lambda>x. f x = c') ?rest) cs"
  proof (rule map_cong [OF refl])
    fix c' assume "c' \<in> set cs"
    with Cons.prems(1) have "c' \<noteq> c" by auto
    then show "filter (\<lambda>x. f x = c') xs = filter (\<lambda>x. f x = c') ?rest"
      by (auto intro: filter_cong)
  qed
  have "\<forall>x\<in>set ?rest. f x \<in> set cs" using Cons.prems(2) by auto
  with Cons.IH [of ?rest] Cons.prems(1)
  have "mset (concat (map (\<lambda>c'. filter (\<lambda>x. f x = c') ?rest) cs)) = mset ?rest" by simp
  then have "mset (concat (map (\<lambda>c'. filter (\<lambda>x. f x = c') xs) cs)) = mset ?rest"
    by (simp only: same)
  then have "mset (concat (map (\<lambda>c'. filter (\<lambda>x. f x = c') xs) (c # cs)))
      = filter_mset (\<lambda>x. f x = c) (mset xs) + filter_mset (\<lambda>x. \<not> f x = c) (mset xs)"
    by simp
  then show ?case by (simp only: multiset_partition [symmetric])
qed

lemma unique_classes_props: "distinct (unique_classes ys)" "set (unique_classes ys) = set ys"
  by (simp_all add: unique_classes_def)

lemma mset_class_indices: "mset (concat (class_indices ys)) = mset [0..<length ys]"
  unfolding class_indices_def
  by (rule mset_concat_classes) (auto simp: unique_classes_props)

lemma length_filter_nth:
  "length (filter (\<lambda>j. ys ! j = c) [0..<length ys]) = length (filter (\<lambda>v. v = c) ys)"
proof -
  have "length (filter (\<lambda>v. v = c) (map (\<lambda>j. ys ! j) [0..<length ys])) = length (filter (\<lambda>v. v = c) ys)"
    by (simp add: map_nth)
  then show ?thesis by (simp add: filter_map comp_def)
qed

lemma class_indices_lengths: "map length (class_indices ys) = class_counts ys"
  by (simp add: class_indices_def class_counts_def comp_def length_filter_nth)

lemma sum_class_counts: "sum_list (class_counts ys) = length ys"
proof -
  have "sum_list (map length (class_indices ys)) = length (concat (class_indices ys))"
    by (simp add: length_concat)
  also have "\<dots> = length ys" using mset_class_indices [of ys] by (metis size_mset length_upt diff_zero)
  finally show ?thesis by (simp add: class_indices_lengths)
qed

lemma div_mod_sum:
  "sum_list (map (\<lambda>c. c * d div T) cs) * T + sum_list (map (\<lambda>c. c * d mod T) cs) = sum_list cs * (d::nat)"
  by (induction cs) (simp_all add: algebra_simps)

lemma sum_le_positive_count:
  "\<forall>x\<in>set xs. x \<le> (T::nat) \<Longrightarrow> sum_list xs \<le> T * length (filter (\<lambda>x. 0 < x) xs)"
  by (induction xs) auto

lemma shares:
  fixes counts :: "nat list" and d :: nat
  defines "T \<equiv> sum_list counts"
  defines "floored \<equiv> map (\<lambda>c. c * d div T) counts"
  defines "remainder \<equiv> map (\<lambda>c. c * d mod T) counts"
  assumes "0 < T" and "d \<le> T"
  shows "sum_list floored \<le> d"
    and "d - sum_list floored \<le> length (filter (\<lambda>x. 0 < x) remainder)"
    and "\<forall>i < length counts. floored ! i \<le> counts ! i"
    and "\<forall>i < length counts. 0 < remainder ! i \<longrightarrow> floored ! i < counts ! i"
proof -
  have eq: "sum_list floored * T + sum_list remainder = d * T"
    unfolding floored_def remainder_def using div_mod_sum [of d T counts] by (simp add: T_def mult.commute)
  then have "sum_list floored * T \<le> d * T" by linarith
  with \<open>0 < T\<close> show le: "sum_list floored \<le> d" by simp
  have "\<forall>x\<in>set remainder. x \<le> T" using \<open>0 < T\<close>
    by (auto simp: remainder_def intro: less_imp_le)
  from sum_le_positive_count [OF this]
  have "sum_list remainder \<le> T * length (filter (\<lambda>x. 0 < x) remainder)" .
  moreover from eq le have "sum_list remainder = (d - sum_list floored) * T"
    by (simp add: algebra_simps diff_mult_distrib)
  ultimately have "(d - sum_list floored) * T \<le> length (filter (\<lambda>x. 0 < x) remainder) * T"
    by (simp add: mult.commute)
  with \<open>0 < T\<close> show "d - sum_list floored \<le> length (filter (\<lambda>x. 0 < x) remainder)" by simp
  show "\<forall>i < length counts. floored ! i \<le> counts ! i"
  proof (intro allI impI)
    fix i assume "i < length counts"
    have "counts ! i * d div T \<le> counts ! i * T div T"
      using \<open>d \<le> T\<close> by (intro div_le_mono) simp
    then show "floored ! i \<le> counts ! i" using \<open>i < length counts\<close> \<open>0 < T\<close>
      by (simp add: floored_def)
  qed
  show "\<forall>i < length counts. 0 < remainder ! i \<longrightarrow> floored ! i < counts ! i"
  proof (intro allI impI)
    fix i assume i: "i < length counts" and pos: "0 < remainder ! i"
    let ?c = "counts ! i"
    from pos i have "0 < ?c * d mod T" by (simp add: remainder_def)
    moreover have "?c * d = (?c * d div T) * T + ?c * d mod T" by simp
    ultimately have "(?c * d div T) * T < ?c * d" by linarith
    also have "\<dots> \<le> ?c * T" using \<open>d \<le> T\<close> by simp
    finally have "?c * d div T < ?c" using \<open>0 < T\<close> by simp
    then show "floored ! i < counts ! i" using i by (simp add: floored_def)
  qed
qed

lemma length_filter_member:
  assumes "distinct chosen" and "set chosen \<subseteq> {..<k}"
  shows "length (filter (\<lambda>i. i \<in> set chosen) [0..<k]) = length chosen"
proof -
  have "distinct (filter (\<lambda>i. i \<in> set chosen) [0..<k])" by simp
  moreover have "set (filter (\<lambda>i. i \<in> set chosen) [0..<k]) = set chosen" using assms(2) by auto
  ultimately show ?thesis using assms(1) by (metis distinct_card)
qed

lemma sum_list_increment:
  assumes "distinct chosen" and "set chosen \<subseteq> {..<length fl}"
  shows "sum_list (map (\<lambda>i. if i \<in> set chosen then fl ! i + 1 else fl ! i) [0..<length fl])
           = sum_list fl + length chosen"
proof -
  have "(\<lambda>i. if i \<in> set chosen then fl ! i + 1 else fl ! i)
          = (\<lambda>i. fl ! i + (if i \<in> set chosen then 1 else 0))" by auto
  then have "sum_list (map (\<lambda>i. if i \<in> set chosen then fl ! i + 1 else fl ! i) [0..<length fl])
      = sum_list (map (\<lambda>i. fl ! i) [0..<length fl])
        + sum_list (map (\<lambda>i. if i \<in> set chosen then 1 else 0) [0..<length fl])"
    by (simp only: sum_list_addf)
  also have "sum_list (map (\<lambda>i. fl ! i) [0..<length fl]) = sum_list fl" by (simp add: map_nth)
  also have "sum_list (map (\<lambda>i. if i \<in> set chosen then 1 else 0) [0..<length fl])
      = length (filter (\<lambda>i. i \<in> set chosen) [0..<length fl])"
    by (simp add: sum_list_map_filter' [symmetric] sum_list_triv flip: length_filter_conv_card)
  also have "\<dots> = length chosen" by (rule length_filter_member [OF assms])
  finally show ?thesis .
qed

lemma choice_props:
  assumes "perm_ok L" and "distinct inds" and "k \<le> length inds"
  shows "distinct (fst (choice L r inds k))"
    and "set (fst (choice L r inds k)) \<subseteq> set inds"
    and "length (fst (choice L r inds k)) = k"
proof -
  let ?p = "fst (permutation L r (length inds))"
  note p = perm_okD [OF assms(1), of r "length inds"]
  have c: "fst (choice L r inds k) = map (\<lambda>i. inds ! i) (take k ?p)"
    by (simp add: choice_def take_rows_def split: prod.splits)
  have sub: "set (take k ?p) \<subseteq> {..<length inds}" using p(3) by (metis set_take_subset)
  have "inj_on (\<lambda>i. inds ! i) {..<length inds}"
    using assms(2) by (auto simp: inj_on_def nth_eq_iff_index_eq)
  then have "inj_on (\<lambda>i. inds ! i) (set (take k ?p))" using sub by (rule inj_on_subset)
  moreover have "distinct (take k ?p)" using p(4) by simp
  ultimately show "distinct (fst (choice L r inds k))" by (simp add: c distinct_map)
  show "set (fst (choice L r inds k)) \<subseteq> set inds" using sub by (auto simp: c)
  show "length (fst (choice L r inds k)) = k" using p(2) assms(3) by (simp add: c)
qed

lemma count_split:
  assumes "v \<notin> set vs" and "0 < (v::nat)"
  shows "length (filter (\<lambda>x. x \<in> set (v # vs) \<and> 0 < x) xs)
           = length (filter (\<lambda>x. x = v) xs) + length (filter (\<lambda>x. x \<in> set vs \<and> 0 < x) xs)"
  using assms by (induction xs) auto

lemma add_by_remainder_step:
  "add_by_remainder L (v # vs) remainder fl need r =
     (let inds = filter (\<lambda>i. remainder ! i = v) [0..<length remainder];
          add_now = min (length inds) need;
          chosen = fst (choice L r inds add_now);
          r' = snd (choice L r inds add_now);
          fl' = map (\<lambda>i. if i \<in> set chosen then fl ! i + 1 else fl ! i) [0..<length fl]
      in if need - add_now = 0 then (fl', r')
         else add_by_remainder L vs remainder fl' (need - add_now) r')"
  by (simp add: Let_def split: prod.splits)

lemma add_by_remainder_ok:
  assumes "perm_ok L" and "length fl = length remainder" and "distinct vs" and "sorted (rev vs)"
    and "0 < need" and "need \<le> length (filter (\<lambda>x. x \<in> set vs \<and> 0 < x) remainder)"
  shows "length (fst (add_by_remainder L vs remainder fl need r)) = length fl
       \<and> sum_list (fst (add_by_remainder L vs remainder fl need r)) = sum_list fl + need
       \<and> (\<forall>i < length fl.
            fst (add_by_remainder L vs remainder fl need r) ! i = fl ! i
          \<or> (fst (add_by_remainder L vs remainder fl need r) ! i = fl ! i + 1
              \<and> remainder ! i \<in> set vs \<and> 0 < remainder ! i))"
  using assms(2-)
proof (induction vs arbitrary: fl need r)
  case Nil
  then show ?case by simp
next
  case (Cons v vs)
  define inds where "inds = filter (\<lambda>i. remainder ! i = v) [0..<length remainder]"
  define add_now where "add_now = min (length inds) need"
  define chosen where "chosen = fst (choice L r inds add_now)"
  define r' where "r' = snd (choice L r inds add_now)"
  define fl' where "fl' = map (\<lambda>i. if i \<in> set chosen then fl ! i + 1 else fl ! i) [0..<length fl]"
  from Cons.prems(2) have vnot: "v \<notin> set vs" and dvs: "distinct vs" by auto
  from Cons.prems(3) have below: "\<forall>u\<in>set vs. u \<le> v" and svs: "sorted (rev vs)"
    by (auto simp: sorted_append)
  have vpos: "0 < v"
  proof (rule ccontr)
    assume "\<not> 0 < v"
    then have "v = 0" by simp
    with below have "\<forall>u\<in>set vs. u = 0" by simp
    with vnot \<open>v = 0\<close> have "set vs = {}" by (cases vs) auto
    with \<open>v = 0\<close> have "filter (\<lambda>x. x \<in> set (v # vs) \<and> 0 < x) remainder = []"
      by (auto simp: filter_empty_conv)
    with Cons.prems(4,5) show False by simp
  qed
  have dinds: "distinct inds" by (simp add: inds_def)
  have sinds: "set inds = {i. i < length remainder \<and> remainder ! i = v}"
    by (auto simp: inds_def)
  have linds: "length inds = length (filter (\<lambda>x. x = v) remainder)"
    unfolding inds_def by (rule length_filter_nth)
  have le: "add_now \<le> length inds" by (simp add: add_now_def)
  have le2: "add_now \<le> need" by (simp add: add_now_def)
  note ch = choice_props [OF assms(1) dinds le, of r, folded chosen_def]
  have chosen_v: "\<forall>i\<in>set chosen. i < length fl \<and> remainder ! i = v"
  proof
    fix i assume "i \<in> set chosen"
    with ch(2) have "i \<in> set inds" by blast
    with sinds Cons.prems(1) show "i < length fl \<and> remainder ! i = v" by simp
  qed
  then have sub: "set chosen \<subseteq> {..<length fl}" by blast
  have len': "length fl' = length fl" by (simp add: fl'_def)
  have sum': "sum_list fl' = sum_list fl + add_now"
    unfolding fl'_def using sum_list_increment [OF ch(1) sub] ch(3) by simp
  have pt': "\<And>i. i < length fl \<Longrightarrow> fl' ! i = (if i \<in> set chosen then fl ! i + 1 else fl ! i)"
    by (simp add: fl'_def)
  have step: "add_by_remainder L (v # vs) remainder fl need r =
      (if need - add_now = 0 then (fl', r')
       else add_by_remainder L vs remainder fl' (need - add_now) r')"
    unfolding fl'_def r'_def chosen_def add_now_def inds_def
    by (simp only: add_by_remainder_step Let_def)
  show ?case
  proof (cases "need - add_now = 0")
    case True
    then have an: "add_now = need" using le2 by simp
    have res: "fst (add_by_remainder L (v # vs) remainder fl need r) = fl'"
      unfolding step using True by simp
    have C: "\<forall>i < length fl. fl' ! i = fl ! i
          \<or> (fl' ! i = fl ! i + 1 \<and> remainder ! i \<in> set (v # vs) \<and> 0 < remainder ! i)"
    proof (intro allI impI)
      fix i assume i: "i < length fl"
      show "fl' ! i = fl ! i
          \<or> (fl' ! i = fl ! i + 1 \<and> remainder ! i \<in> set (v # vs) \<and> 0 < remainder ! i)"
      proof (cases "i \<in> set chosen")
        case True
        with chosen_v have "remainder ! i = v" by blast
        with True pt' [OF i] vpos show ?thesis by simp
      next
        case False
        with pt' [OF i] show ?thesis by simp
      qed
    qed
    from len' sum' an C show ?thesis unfolding res by simp
  next
    case False
    then have an: "add_now = length inds" and pos': "0 < need - add_now"
      by (auto simp: add_now_def)
    have l1: "length fl' = length remainder" using Cons.prems(1) len' by simp
    have "need \<le> length (filter (\<lambda>x. x = v) remainder)
                  + length (filter (\<lambda>x. x \<in> set vs \<and> 0 < x) remainder)"
      using Cons.prems(5) count_split [OF vnot vpos, of remainder] by simp
    then have enough: "need - add_now \<le> length (filter (\<lambda>x. x \<in> set vs \<and> 0 < x) remainder)"
      using an linds by simp
    note ih = Cons.IH [OF l1 dvs svs pos' enough, of r']
    define res where "res = fst (add_by_remainder L vs remainder fl' (need - add_now) r')"
    from ih have rl: "length res = length fl'"
      and rs: "sum_list res = sum_list fl' + (need - add_now)"
      and rp: "\<forall>i < length fl'. res ! i = fl' ! i
                \<or> (res ! i = fl' ! i + 1 \<and> remainder ! i \<in> set vs \<and> 0 < remainder ! i)"
      unfolding res_def by blast+
    have res: "fst (add_by_remainder L (v # vs) remainder fl need r) = res"
      unfolding step res_def using False by simp
    have A: "length res = length fl" using rl len' by simp
    have B: "sum_list res = sum_list fl + need" using rs sum' le2 by simp
    have C: "\<forall>i < length fl. res ! i = fl ! i
          \<or> (res ! i = fl ! i + 1 \<and> remainder ! i \<in> set (v # vs) \<and> 0 < remainder ! i)"
    proof (intro allI impI)
      fix i assume i: "i < length fl"
      then have i': "i < length fl'" using len' by simp
      show "res ! i = fl ! i
          \<or> (res ! i = fl ! i + 1 \<and> remainder ! i \<in> set (v # vs) \<and> 0 < remainder ! i)"
      proof (cases "i \<in> set chosen")
        case True
        with chosen_v have rv: "remainder ! i = v" by blast
        with vnot rp i' have "res ! i = fl' ! i" by auto
        with True pt' [OF i] rv vpos show ?thesis by simp
      next
        case False
        with pt' [OF i] have "fl' ! i = fl ! i" by simp
        with rp i' show ?thesis by auto
      qed
    qed
    from A B C show ?thesis unfolding res by blast
  qed
qed

lemma approximate_mode_ok:
  assumes "perm_ok L" and "0 < sum_list counts" and "d \<le> sum_list counts"
  shows "length (fst (approximate_mode L counts d r)) = length counts
       \<and> sum_list (fst (approximate_mode L counts d r)) = d
       \<and> (\<forall>i < length counts. fst (approximate_mode L counts d r) ! i \<le> counts ! i)"
proof -
  define T where "T = sum_list counts"
  define floored where "floored = map (\<lambda>c. c * d div T) counts"
  define remainder where "remainder = map (\<lambda>c. c * d mod T) counts"
  define need where "need = d - sum_list floored"
  note sh = shares [of counts d, folded T_def, folded floored_def remainder_def, OF assms(2,3) [folded T_def]]
  have am: "approximate_mode L counts d r =
      (if 0 < need
       then add_by_remainder L (rev (sort (remdups remainder))) remainder floored need r
       else (floored, r))"
    unfolding need_def floored_def remainder_def T_def
    by (simp only: approximate_mode_def Let_def)
  have lf: "length floored = length counts" by (simp add: floored_def)
  have lr: "length remainder = length counts" by (simp add: remainder_def)
  show ?thesis
  proof (cases "0 < need")
    case False
    then have "sum_list floored = d" using sh(1) by (simp add: need_def)
    with False sh(3) lf show ?thesis unfolding am by simp
  next
    case True
    define vs where "vs = rev (sort (remdups remainder))"
    have d: "distinct vs" and s: "sorted (rev vs)" and sv: "set vs = set remainder"
      by (simp_all add: vs_def)
    have "filter (\<lambda>x. x \<in> set vs \<and> 0 < x) remainder = filter (\<lambda>x. 0 < x) remainder"
      by (rule filter_cong) (auto simp: sv)
    then have enough: "need \<le> length (filter (\<lambda>x. x \<in> set vs \<and> 0 < x) remainder)"
      using sh(2) by (simp add: need_def)
    have lfr: "length floored = length remainder" by (simp add: lf lr)
    define res where "res = fst (add_by_remainder L vs remainder floored need r)"
    from add_by_remainder_ok [OF assms(1) lfr d s True enough, of r]
    have rl: "length res = length floored"
      and rs: "sum_list res = sum_list floored + need"
      and rp: "\<forall>i < length floored. res ! i = floored ! i
           \<or> (res ! i = floored ! i + 1 \<and> remainder ! i \<in> set vs \<and> 0 < remainder ! i)"
      unfolding res_def by blast+
    have res: "fst (approximate_mode L counts d r) = res"
      unfolding am res_def vs_def using True by simp
    have A: "length res = length counts" using rl lf by simp
    have B: "sum_list res = d" using rs sh(1) by (simp add: need_def)
    have C: "\<forall>i < length counts. res ! i \<le> counts ! i"
    proof (intro allI impI)
      fix i assume i: "i < length counts"
      with rp lf consider "res ! i = floored ! i"
        | "res ! i = floored ! i + 1" "0 < remainder ! i" by auto
      then show "res ! i \<le> counts ! i"
      proof cases
        case 1
        with sh(3) i show ?thesis by simp
      next
        case 2
        with sh(4) i have "floored ! i < counts ! i" by simp
        with 2 show ?thesis by simp
      qed
    qed
    from A B C show ?thesis unfolding res by blast
  qed
qed

lemma sum_list_map2_diff:
  "length xs = length ys \<Longrightarrow> \<forall>i < length xs. ys ! i \<le> xs ! i \<Longrightarrow>
     sum_list (map2 (\<lambda>c n. c - n) xs ys) + sum_list ys = sum_list (xs :: nat list)"
proof (induction xs ys rule: list_induct2)
  case Nil
  then show ?case by simp
next
  case (Cons x xs y ys)
  from Cons.prems have "y \<le> x" and "\<forall>i < length xs. ys ! i \<le> xs ! i" by auto
  with Cons.IH show ?case by simp
qed

lemma pointwise_le_sum_eq:
  "length xs = length ys \<Longrightarrow> \<forall>i < length xs. xs ! i \<le> ys ! i \<Longrightarrow>
     sum_list xs = sum_list (ys :: nat list) \<Longrightarrow> xs = ys"
proof (induction xs ys rule: list_induct2)
  case Nil
  then show ?case by simp
next
  case (Cons x xs y ys)
  from Cons.prems(1) have xy: "x \<le> y" and rest: "\<forall>i < length xs. xs ! i \<le> ys ! i" by auto
  from rest Cons.hyps have "sum_list xs \<le> sum_list ys"
    by (intro sum_list_mono2) auto
  with xy Cons.prems(2) have "x = y" and "sum_list xs = sum_list ys" by auto
  with Cons.IH [OF rest] show ?case by simp
qed

lemma map2_diff_add:
  "length xs = length ys \<Longrightarrow> \<forall>i < length xs. ys ! i \<le> xs ! i \<Longrightarrow>
     map2 (+) ys (map2 (\<lambda>c n. c - n) xs ys) = (xs :: nat list)"
proof (induction xs ys rule: list_induct2)
  case Nil
  then show ?case by simp
next
  case (Cons x xs y ys)
  from Cons.prems have "y \<le> x" and "\<forall>i < length xs. ys ! i \<le> xs ! i" by auto
  with Cons.IH show ?case by simp
qed

lemma class_loop_ok:
  assumes "perm_ok L"
  shows "length ns = length groups \<Longrightarrow> length ts = length groups \<Longrightarrow>
         map2 (+) ns ts = map length groups \<Longrightarrow>
           mset (fst (class_loop L groups ns ts r) @ fst (snd (class_loop L groups ns ts r)))
             = mset (concat groups)
         \<and> length (fst (class_loop L groups ns ts r)) = sum_list ns
         \<and> length (fst (snd (class_loop L groups ns ts r))) = sum_list ts"
proof (induction groups arbitrary: ns ts r)
  case Nil
  then show ?case by simp
next
  case (Cons ci rest)
  from Cons.prems obtain n ns' t ts' where ns: "ns = n # ns'" and ts: "ts = t # ts'"
    by (cases ns; cases ts) auto
  from Cons.prems ns ts have l1: "length ns' = length rest" and l2: "length ts' = length rest"
    and nt: "n + t = length ci" and m: "map2 (+) ns' ts' = map length rest" by auto
  define p where "p = fst (permutation L r (length ci))"
  define r1 where "r1 = snd (permutation L r (length ci))"
  define pic where "pic = take_rows p ci"
  note pp = perm_okD [OF assms, of r "length ci", folded p_def]
  have mp: "mset pic = mset ci" unfolding pic_def using pp(1) by (rule mset_take_rows_perm)
  have lp: "length pic = n + t" using pp(2) nt by (simp add: pic_def)
  note ih = Cons.IH [OF l1 l2 m, of r1]
  have step: "class_loop L (ci # rest) ns ts r =
      (take n pic @ fst (class_loop L rest ns' ts' r1),
       take t (drop n pic) @ fst (snd (class_loop L rest ns' ts' r1)),
       snd (snd (class_loop L rest ns' ts' r1)))"
    unfolding ns ts pic_def p_def r1_def by (simp add: Let_def split: prod.splits)
  have "take n pic @ take t (drop n pic) = pic" using lp
    by (metis append_take_drop_id length_drop add_diff_cancel_left' take_all order_refl)
  then have "mset (take n pic) + mset (take t (drop n pic)) = mset ci"
    using mp by (metis mset_append)
  with ih lp show ?case unfolding step by (simp add: ns ts ac_simps)
qed

lemma stratified_decompose:
  assumes "perm_ok L" and "n_train + n_test = length ys" and "0 < n_test"
    and "stratified_shuffle_split L seed ys n_train n_test = Inr (train, test)"
  shows "\<exists>n_i t_i r2.
           n_i = fst (approximate_mode L (class_counts ys) n_train (RandomState L seed))
         \<and> length n_i = length (class_counts ys) \<and> length t_i = length (class_counts ys)
         \<and> sum_list n_i = n_train \<and> sum_list t_i = n_test
         \<and> map2 (+) n_i t_i = class_counts ys
         \<and> mset train = mset (fst (class_loop L (class_indices ys) n_i t_i r2))
         \<and> mset test = mset (fst (snd (class_loop L (class_indices ys) n_i t_i r2)))"
proof -
  define counts where "counts = class_counts ys"
  define r0 where "r0 = RandomState L seed"
  define n_i where "n_i = fst (approximate_mode L counts n_train r0)"
  define r1 where "r1 = snd (approximate_mode L counts n_train r0)"
  define remaining where "remaining = map2 (\<lambda>c n. c - n) counts n_i"
  define t_i where "t_i = fst (approximate_mode L remaining n_test r1)"
  define r2 where "r2 = snd (approximate_mode L remaining n_test r1)"
  define train0 where "train0 = fst (class_loop L (class_indices ys) n_i t_i r2)"
  define test0 where "test0 = fst (snd (class_loop L (class_indices ys) n_i t_i r2))"
  define r3 where "r3 = snd (snd (class_loop L (class_indices ys) n_i t_i r2))"
  define p1 where "p1 = fst (permutation L r3 (length train0))"
  define r4 where "r4 = snd (permutation L r3 (length train0))"
  define p2 where "p2 = fst (permutation L r4 (length test0))"
  from assms(4) have "Inr (train, test) =
      (let (n_i, r1) = approximate_mode L (class_counts ys) n_train (RandomState L seed);
           class_counts_remaining = map2 (\<lambda>c n. c - n) (class_counts ys) n_i;
           (t_i, r2) = approximate_mode L class_counts_remaining n_test r1;
           (train, test, r3) = class_loop L (class_indices ys) n_i t_i r2;
           (p1, r4) = permutation L r3 (length train);
           (p2, r5) = permutation L r4 (length test)
       in (Inr (take_rows p1 train, take_rows p2 test) :: exn + (nat list \<times> nat list)))"
    by (simp add: stratified_shuffle_split_def Let_def split: if_splits)
  then have res: "train = take_rows p1 train0" "test = take_rows p2 test0"
    unfolding p1_def p2_def r4_def train0_def test0_def r3_def t_i_def r2_def remaining_def
      n_i_def r1_def counts_def r0_def
    by (simp_all add: Let_def split: prod.splits)
  have sc: "sum_list counts = length ys" by (simp add: counts_def sum_class_counts)
  with assms(2,3) have pos: "0 < sum_list counts" and le: "n_train \<le> sum_list counts" by linarith+
  from approximate_mode_ok [OF assms(1) pos le, of r0]
  have nl: "length n_i = length counts" and ns: "sum_list n_i = n_train"
    and np: "\<forall>i < length counts. n_i ! i \<le> counts ! i"
    unfolding n_i_def by blast+
  have rl: "length remaining = length counts" by (simp add: remaining_def nl)
  have rs: "sum_list remaining = n_test"
    using sum_list_map2_diff [OF nl [symmetric] np] ns sc assms(2) by (simp add: remaining_def)
  then have pos2: "0 < sum_list remaining" and le2: "n_test \<le> sum_list remaining"
    using assms(3) by simp_all
  from approximate_mode_ok [OF assms(1) pos2 le2, of r1]
  have tl: "length t_i = length remaining" and ts: "sum_list t_i = n_test"
    and tp: "\<forall>i < length remaining. t_i ! i \<le> remaining ! i"
    unfolding t_i_def by blast+
  have "t_i = remaining"
    using tl tp ts rs by (intro pointwise_le_sum_eq) simp_all
  then have m: "map2 (+) n_i t_i = counts"
    using map2_diff_add [OF nl [symmetric] np] by (simp add: remaining_def)
  have m1: "mset train = mset train0"
    unfolding res(1) p1_def using perm_okD(1) [OF assms(1)] by (intro mset_take_rows_perm) simp
  have m2: "mset test = mset test0"
    unfolding res(2) p2_def using perm_okD(1) [OF assms(1)] by (intro mset_take_rows_perm) simp
  show ?thesis
    apply (rule exI [of _ n_i])
    apply (rule exI [of _ t_i])
    apply (rule exI [of _ r2])
    apply (insert nl tl rl ns ts m m1 m2)
    apply (simp add: counts_def n_i_def r0_def train0_def test0_def)
    done
qed

lemma stratified_shuffle_split_ok:
  assumes "perm_ok L" and "n_train + n_test = length ys" and "0 < n_test"
    and "stratified_shuffle_split L seed ys n_train n_test = Inr (train, test)"
  shows "length train = n_train \<and> length test = n_test
       \<and> mset (train @ test) = mset [0..<length ys]"
proof -
  from stratified_decompose [OF assms] obtain n_i t_i r2 where
    nl: "length n_i = length (class_counts ys)" and tl: "length t_i = length (class_counts ys)"
    and ns: "sum_list n_i = n_train" and ts: "sum_list t_i = n_test"
    and m: "map2 (+) n_i t_i = class_counts ys"
    and m1: "mset train = mset (fst (class_loop L (class_indices ys) n_i t_i r2))"
    and m2: "mset test = mset (fst (snd (class_loop L (class_indices ys) n_i t_i r2)))"
    by blast
  have lg: "length (class_indices ys) = length (class_counts ys)"
    by (simp add: class_indices_def class_counts_def)
  have m': "map2 (+) n_i t_i = map length (class_indices ys)"
    using m by (simp add: class_indices_lengths)
  have q1: "length n_i = length (class_indices ys)" by (simp only: nl lg)
  have q2: "length t_i = length (class_indices ys)" by (simp only: tl lg)
  from class_loop_ok [OF assms(1) q1 q2 m', of r2]
  have cm: "mset (fst (class_loop L (class_indices ys) n_i t_i r2)
                  @ fst (snd (class_loop L (class_indices ys) n_i t_i r2)))
              = mset (concat (class_indices ys))"
    and cl1: "length (fst (class_loop L (class_indices ys) n_i t_i r2)) = sum_list n_i"
    and cl2: "length (fst (snd (class_loop L (class_indices ys) n_i t_i r2))) = sum_list t_i"
    by blast+
  have "length train = n_train" using m1 cl1 ns by (metis size_mset)
  moreover have "length test = n_test" using m2 cl2 ts by (metis size_mset)
  moreover have "mset (train @ test) = mset [0..<length ys]"
    using m1 m2 cm by (simp add: mset_class_indices)
  ultimately show ?thesis by blast
qed

lemma train_test_split_ok:
  assumes "perm_ok L"
    and "train_test_split L n n_y 0.2 seed stratify = Inr (train, test)"
    and "stratify = None \<or> stratify = Some ys \<and> length ys = n_y"
  shows "length train = n - (n + 4) div 5 \<and> length test = (n + 4) div 5
       \<and> 0 < length train \<and> mset (train @ test) = mset [0..<n] \<and> n_y = n"
proof -
  from assms(2) have nn: "n_y = n" by (auto simp: train_test_split_def split: if_splits)
  from assms(2) nn obtain n_train n_test where
    v: "validate_shuffle_split n 0.2 = Inr (n_train, n_test)"
    by (cases "validate_shuffle_split n 0.2") (auto simp: train_test_split_def)
  note vs = validate_shuffle_split_Inr [OF v]
  have "length train = n_train \<and> length test = n_test \<and> mset (train @ test) = mset [0..<n]"
  proof (cases stratify)
    case None
    with assms(2) nn v have "shuffle_split L seed n n_train n_test = (train, test)"
      by (simp add: train_test_split_def)
    from shuffle_split_ok [OF assms(1) vs(4) this] show ?thesis by blast
  next
    case (Some ys')
    with assms(3) nn have ys: "ys' = ys" "length ys = n" by auto
    from Some assms(2) nn v ys
    have s: "stratified_shuffle_split L seed ys n_train n_test = Inr (train, test)"
      by (simp add: train_test_split_def)
    have "0 < n_test" using vs(1,3,4) by linarith
    from stratified_shuffle_split_ok [OF assms(1) _ this s] vs(4) ys(2) show ?thesis by simp
  qed
  with vs nn show ?thesis by simp
qed

lemma approximate_mode_share:
  assumes "perm_ok L" and "0 < sum_list counts" and "d \<le> sum_list counts"
    and "i < length counts"
  shows "counts ! i * d div sum_list counts \<le> fst (approximate_mode L counts d r) ! i
       \<and> fst (approximate_mode L counts d r) ! i \<le> counts ! i * d div sum_list counts + 1"
proof -
  define T where "T = sum_list counts"
  define floored where "floored = map (\<lambda>c. c * d div T) counts"
  define remainder where "remainder = map (\<lambda>c. c * d mod T) counts"
  define need where "need = d - sum_list floored"
  note sh = shares [of counts d, folded T_def, folded floored_def remainder_def, OF assms(2,3) [folded T_def]]
  have am: "approximate_mode L counts d r =
      (if 0 < need
       then add_by_remainder L (rev (sort (remdups remainder))) remainder floored need r
       else (floored, r))"
    unfolding need_def floored_def remainder_def T_def
    by (simp only: approximate_mode_def Let_def)
  have fi: "floored ! i = counts ! i * d div T" using assms(4) by (simp add: floored_def)
  show ?thesis
  proof (cases "0 < need")
    case False
    then show ?thesis unfolding am using fi by (simp add: T_def)
  next
    case True
    define vs where "vs = rev (sort (remdups remainder))"
    have d: "distinct vs" and s: "sorted (rev vs)" and sv: "set vs = set remainder"
      by (simp_all add: vs_def)
    have "filter (\<lambda>x. x \<in> set vs \<and> 0 < x) remainder = filter (\<lambda>x. 0 < x) remainder"
      by (rule filter_cong) (auto simp: sv)
    then have enough: "need \<le> length (filter (\<lambda>x. x \<in> set vs \<and> 0 < x) remainder)"
      using sh(2) by (simp add: need_def)
    have lfr: "length floored = length remainder" by (simp add: floored_def remainder_def)
    define res where "res = fst (add_by_remainder L vs remainder floored need r)"
    from add_by_remainder_ok [OF assms(1) lfr d s True enough, of r]
    have rp: "\<forall>i < length floored. res ! i = floored ! i
           \<or> (res ! i = floored ! i + 1 \<and> remainder ! i \<in> set vs \<and> 0 < remainder ! i)"
      unfolding res_def by blast
    have res: "fst (approximate_mode L counts d r) = res"
      unfolding am res_def vs_def using True by simp
    have "i < length floored" using assms(4) by (simp add: floored_def)
    with rp have "res ! i = floored ! i \<or> res ! i = floored ! i + 1" by blast
    then show ?thesis unfolding res using fi by (auto simp: T_def)
  qed
qed

lemma class_loop_counts:
  assumes "perm_ok L"
  shows "length ns = length groups \<Longrightarrow> length ts = length groups \<Longrightarrow> length cs = length groups \<Longrightarrow>
         distinct cs \<Longrightarrow> map2 (+) ns ts = map length groups \<Longrightarrow>
         \<forall>i < length groups. \<forall>j \<in> set (groups ! i). g j = cs ! i \<Longrightarrow>
           map (\<lambda>c. length (filter (\<lambda>j. g j = c) (fst (class_loop L groups ns ts r)))) cs = ns
         \<and> map (\<lambda>c. length (filter (\<lambda>j. g j = c) (fst (snd (class_loop L groups ns ts r))))) cs = ts
         \<and> (\<forall>j \<in> set (fst (class_loop L groups ns ts r)). g j \<in> set cs)
         \<and> (\<forall>j \<in> set (fst (snd (class_loop L groups ns ts r))). g j \<in> set cs)"
proof (induction groups arbitrary: ns ts cs r)
  case Nil
  then show ?case by simp
next
  case (Cons ci rest)
  from Cons.prems obtain n ns' t ts' c cs' where ns: "ns = n # ns'" and ts: "ts = t # ts'"
    and cs: "cs = c # cs'"
    by (cases ns; cases ts; cases cs) auto
  from Cons.prems ns ts cs have l1: "length ns' = length rest" and l2: "length ts' = length rest"
    and l3: "length cs' = length rest" and dc: "distinct cs'" and cnot: "c \<notin> set cs'"
    and nt: "n + t = length ci" and m: "map2 (+) ns' ts' = map length rest" by auto
  from Cons.prems(6) have g0: "\<forall>j \<in> set ci. g j = c"
    unfolding cs by (metis length_Cons nth_Cons_0 zero_less_Suc)
  from Cons.prems(6) have grest: "\<forall>i < length rest. \<forall>j \<in> set (rest ! i). g j = cs' ! i"
    unfolding cs by (metis Suc_less_eq length_Cons nth_Cons_Suc)
  define p where "p = fst (permutation L r (length ci))"
  define r1 where "r1 = snd (permutation L r (length ci))"
  define pic where "pic = take_rows p ci"
  define train' where "train' = fst (class_loop L rest ns' ts' r1)"
  define test' where "test' = fst (snd (class_loop L rest ns' ts' r1))"
  note pp = perm_okD [OF assms, of r "length ci", folded p_def]
  have mp: "mset pic = mset ci" unfolding pic_def using pp(1) by (rule mset_take_rows_perm)
  then have sp: "set pic = set ci" by (metis set_mset_mset)
  have lp: "length pic = n + t" using pp(2) nt by (simp add: pic_def)
  from Cons.IH [OF l1 l2 l3 dc m grest, of r1]
  have ih1: "map (\<lambda>c. length (filter (\<lambda>j. g j = c) train')) cs' = ns'"
    and ih2: "map (\<lambda>c. length (filter (\<lambda>j. g j = c) test')) cs' = ts'"
    and ih3: "\<forall>j \<in> set train'. g j \<in> set cs'"
    and ih4: "\<forall>j \<in> set test'. g j \<in> set cs'"
    unfolding train'_def test'_def by blast+
  define part1 where "part1 = take n pic"
  define part2 where "part2 = take t (drop n pic)"
  have step: "class_loop L (ci # rest) ns ts r =
      (part1 @ train', part2 @ test', snd (snd (class_loop L rest ns' ts' r1)))"
    unfolding ns ts pic_def p_def r1_def train'_def test'_def part1_def part2_def
    by (simp add: Let_def split: prod.splits)
  have len1: "length part1 = n" and len2: "length part2 = t"
    using lp by (simp_all add: part1_def part2_def)
  have all1: "\<forall>j \<in> set part1. g j = c"
    using g0 sp by (auto simp: part1_def dest: in_set_takeD)
  have all2: "\<forall>j \<in> set part2. g j = c"
    using g0 sp by (auto simp: part2_def dest!: in_set_takeD in_set_dropD)
  have h1: "filter (\<lambda>j. g j = c) part1 = part1" using all1 by (simp add: filter_id_conv)
  have h2: "filter (\<lambda>j. g j = c) part2 = part2" using all2 by (simp add: filter_id_conv)
  have h3: "filter (\<lambda>j. g j = c) train' = []" using ih3 cnot by (auto simp: filter_empty_conv)
  have h4: "filter (\<lambda>j. g j = c) test' = []" using ih4 cnot by (auto simp: filter_empty_conv)
  have k1: "\<And>c'. c' \<in> set cs' \<Longrightarrow> filter (\<lambda>j. g j = c') part1 = []"
    using all1 cnot by (auto simp: filter_empty_conv)
  have k2: "\<And>c'. c' \<in> set cs' \<Longrightarrow> filter (\<lambda>j. g j = c') part2 = []"
    using all2 cnot by (auto simp: filter_empty_conv)
  have A: "map (\<lambda>c. length (filter (\<lambda>j. g j = c) (part1 @ train'))) cs = ns"
  proof -
    have "map (\<lambda>c. length (filter (\<lambda>j. g j = c) (part1 @ train'))) cs'
        = map (\<lambda>c. length (filter (\<lambda>j. g j = c) train')) cs'"
      by (rule map_cong [OF refl]) (simp add: k1)
    then show ?thesis by (simp add: cs ns h1 h3 ih1 len1)
  qed
  have B: "map (\<lambda>c. length (filter (\<lambda>j. g j = c) (part2 @ test'))) cs = ts"
  proof -
    have "map (\<lambda>c. length (filter (\<lambda>j. g j = c) (part2 @ test'))) cs'
        = map (\<lambda>c. length (filter (\<lambda>j. g j = c) test')) cs'"
      by (rule map_cong [OF refl]) (simp add: k2)
    then show ?thesis by (simp add: cs ts h2 h4 ih2 len2)
  qed
  have C: "\<forall>j \<in> set (part1 @ train'). g j \<in> set cs"
    using all1 ih3 by (auto simp: cs)
  have D: "\<forall>j \<in> set (part2 @ test'). g j \<in> set cs"
    using all2 ih4 by (auto simp: cs)
  from A B C D show ?case unfolding step by simp
qed


lemma class_of_index:
  "i < length (unique_classes ys) \<Longrightarrow> \<forall>j \<in> set (class_indices ys ! i). ys ! j = unique_classes ys ! i"
  by (simp add: class_indices_def)

lemma length_filter_mset: "mset xs = mset ys \<Longrightarrow> length (filter P xs) = length (filter P ys)"
  by (metis mset_filter size_mset)

lemma stratified_counts:
  assumes "perm_ok L" and "n_train + n_test = length ys" and "0 < n_test"
    and "stratified_shuffle_split L seed ys n_train n_test = Inr (train, test)"
    and "c \<in> set ys"
  shows "length (filter (\<lambda>j. ys ! j = c) train) + length (filter (\<lambda>j. ys ! j = c) test)
           = length (filter (\<lambda>v. v = c) ys)
       \<and> length (filter (\<lambda>v. v = c) ys) * n_train div length ys
           \<le> length (filter (\<lambda>j. ys ! j = c) train)
       \<and> length (filter (\<lambda>j. ys ! j = c) train)
           \<le> length (filter (\<lambda>v. v = c) ys) * n_train div length ys + 1"
proof -
  from stratified_decompose [OF assms(1-4)] obtain n_i t_i r2 where
    ni: "n_i = fst (approximate_mode L (class_counts ys) n_train (RandomState L seed))"
    and nl: "length n_i = length (class_counts ys)" and tl: "length t_i = length (class_counts ys)"
    and m: "map2 (+) n_i t_i = class_counts ys"
    and m1: "mset train = mset (fst (class_loop L (class_indices ys) n_i t_i r2))"
    and m2: "mset test = mset (fst (snd (class_loop L (class_indices ys) n_i t_i r2)))"
    by blast
  define cs where "cs = unique_classes ys"
  have lc: "length (class_counts ys) = length cs" by (simp add: class_counts_def cs_def)
  have lg: "length (class_indices ys) = length cs" by (simp add: class_indices_def cs_def)
  have m': "map2 (+) n_i t_i = map length (class_indices ys)"
    using m by (simp add: class_indices_lengths)
  have grp: "\<forall>i < length (class_indices ys). \<forall>j \<in> set (class_indices ys ! i). ys ! j = cs ! i"
    using class_of_index [of _ ys] lg by (simp add: cs_def)
  have dcs: "distinct cs" by (simp add: cs_def unique_classes_props)
  have q1: "length n_i = length (class_indices ys)" by (simp only: nl lc lg)
  have q2: "length t_i = length (class_indices ys)" by (simp only: tl lc lg)
  have q3: "length cs = length (class_indices ys)" by (simp only: lg)
  from class_loop_counts [OF assms(1) q1 q2 q3 dcs m' grp, of r2]
  have c1: "map (\<lambda>c. length (filter (\<lambda>j. ys ! j = c) (fst (class_loop L (class_indices ys) n_i t_i r2)))) cs = n_i"
    and c2: "map (\<lambda>c. length (filter (\<lambda>j. ys ! j = c) (fst (snd (class_loop L (class_indices ys) n_i t_i r2))))) cs = t_i"
    by blast+
  from assms(5) have "c \<in> set cs" by (simp add: cs_def unique_classes_props)
  then obtain i where i: "i < length cs" and ci: "cs ! i = c" by (metis in_set_conv_nth)
  have tr: "length (filter (\<lambda>j. ys ! j = c) train) = n_i ! i"
    using arg_cong [OF c1, of "\<lambda>xs. xs ! i"] i ci length_filter_mset [OF m1] by simp
  have te: "length (filter (\<lambda>j. ys ! j = c) test) = t_i ! i"
    using arg_cong [OF c2, of "\<lambda>xs. xs ! i"] i ci length_filter_mset [OF m2] by simp
  have k: "class_counts ys ! i = length (filter (\<lambda>v. v = c) ys)"
    using i ci by (simp add: class_counts_def cs_def)
  have "map2 (+) n_i t_i ! i = n_i ! i + t_i ! i" using i nl tl lc by simp
  with m k have sum: "n_i ! i + t_i ! i = length (filter (\<lambda>v. v = c) ys)" by simp
  have sc: "sum_list (class_counts ys) = length ys" by (rule sum_class_counts)
  with assms(2,3) have pos: "0 < sum_list (class_counts ys)" and le: "n_train \<le> sum_list (class_counts ys)"
    by linarith+
  from approximate_mode_share [OF assms(1) pos le, of i "RandomState L seed"] i lc
  have "class_counts ys ! i * n_train div length ys \<le> n_i ! i
      \<and> n_i ! i \<le> class_counts ys ! i * n_train div length ys + 1"
    by (simp add: ni sc)
  with tr te sum k show ?thesis by simp
qed

subsection \<open>What the stages compute\<close>

lemma feature_selection_ok:
  assumes "self_X s = Some x" and "self_y s = Some target"
    and "fst (feature_selection L s) = Inr ()"
  shows "\<exists>train test cs.
           provisional_split L x target = Inr (train, test)
         \<and> selected_features (snd (feature_selection L s)) =
             map fst (take 5 (chi2_scores L (select_dtypes [Int64, Float64] (frame_rows x train))
                                (series_rows target train)))
         \<and> getitem_list x (selected_features (snd (feature_selection L s))) = Inr cs
         \<and> self_X (snd (feature_selection L s)) = Some (x\<lparr>f_columns := cs\<rparr>)
         \<and> self_y (snd (feature_selection L s)) = Some target
         \<and> self_df (snd (feature_selection L s)) = self_df s
         \<and> label_encoder (snd (feature_selection L s)) = label_encoder s
         \<and> scaler (snd (feature_selection L s)) = scaler s"
proof -
  from assms(3) obtain u where ok: "fst (feature_selection_body L s) = Inr u"
    by (auto simp: feature_selection_fst split: sum.splits)
  then have snd_eq: "snd (feature_selection L s) = snd (feature_selection_body L s)"
    by (simp add: feature_selection_snd)
  from ok assms(1,2) obtain train test where sp: "provisional_split L x target = Inr (train, test)"
    by (auto simp: feature_selection_body_def split: sum.splits)
  define top where "top = map fst (take 5 (chi2_scores L (select_dtypes [Int64, Float64] (frame_rows x train))
                                (series_rows target train)))"
  from ok assms(1,2) sp obtain cs where cs: "getitem_list x top = Inr cs"
    unfolding top_def
    by (auto simp: feature_selection_body_def Let_def split: sum.splits option.splits)
  from ok assms(1,2) sp cs have
    "selected_features (snd (feature_selection_body L s)) = top"
    "self_X (snd (feature_selection_body L s)) = Some (x\<lparr>f_columns := cs\<rparr>)"
    "self_y (snd (feature_selection_body L s)) = Some target"
    "self_df (snd (feature_selection_body L s)) = self_df s"
    "label_encoder (snd (feature_selection_body L s)) = label_encoder s"
    "scaler (snd (feature_selection_body L s)) = scaler s"
    unfolding top_def
    by (auto simp: feature_selection_body_def Let_def split: sum.splits option.splits)
  with sp cs show ?thesis unfolding snd_eq top_def by auto
qed

lemma split_and_scale_ok:
  assumes "self_X s = Some x" and "self_y s = Some target"
    and "fst (split_and_scale L s) = Inr (X_train, X_test, y_train, y_test)"
  shows "\<exists>train test.
           final_split L x target = Inr (train, test)
         \<and> scaler (snd (split_and_scale L s)) = Some (scaler_fit L (frame_rows x train))
         \<and> X_train = scaler_transform L (scaler_fit L (frame_rows x train)) (frame_rows x train)
         \<and> X_test = scaler_transform L (scaler_fit L (frame_rows x train)) (frame_rows x test)
         \<and> y_train = series_rows target train
         \<and> y_test = series_rows target test
         \<and> self_X (snd (split_and_scale L s)) = Some x
         \<and> self_y (snd (split_and_scale L s)) = Some target
         \<and> selected_features (snd (split_and_scale L s)) = selected_features s"
proof -
  from assms(3) have ok: "fst (split_and_scale_body L s) = Inr (X_train, X_test, y_train, y_test)"
    by (auto simp: split_and_scale_fst split: sum.splits)
  then have snd_eq: "snd (split_and_scale L s) = snd (split_and_scale_body L s)"
    by (simp add: split_and_scale_snd)
  from ok assms(1,2) obtain train test where sp: "final_split L x target = Inr (train, test)"
    by (auto simp: split_and_scale_body_def split: sum.splits)
  from ok assms(1,2) sp show ?thesis
    unfolding snd_eq
    by (auto simp: split_and_scale_body_def Let_def split: sum.splits option.splits)
qed

lemma length_scaler_transform:
  "length (scaler_transform L stats d) = n_rows d"
  by (simp add: scaler_transform_def to_numpy_def)

lemma width_scaler_transform:
  assumes "row \<in> set (scaler_transform L (scaler_fit L d') d)"
    and "length (f_columns d') = length (f_columns d)"
  shows "length row = length (f_columns d)"
  using assms by (auto simp: scaler_transform_def to_numpy_def scaler_fit_def)

lemma frame_rows_simps [simp]:
  "n_rows (frame_rows x idx) = length idx"
  "length (f_columns (frame_rows x idx)) = length (f_columns x)"
  by (simp_all add: frame_rows_def n_rows_def)

lemma series_rows_simps [simp]:
  "s_values (series_rows y idx) = map (\<lambda>i. s_values y ! i) idx"
  "s_dtype (series_rows y idx) = s_dtype y"
  "s_index (series_rows y idx) = map (\<lambda>i. s_index y ! i) idx"
  by (simp_all add: series_rows_def take_rows_def)

lemma final_split_ok:
  assumes "perm_ok L" and "final_split L x target = Inr (train, test)"
  shows "length train = n_rows x - (n_rows x + 4) div 5 \<and> length test = (n_rows x + 4) div 5
       \<and> 0 < length train \<and> mset (train @ test) = mset [0..<n_rows x]
       \<and> length (s_values target) = n_rows x"
proof -
  have h: "Some (s_values target) = None
      \<or> Some (s_values target) = Some (s_values target)
        \<and> length (s_values target) = length (s_values target)" by simp
  from train_test_split_ok [OF assms(1) assms(2) [unfolded final_split_def] h]
  show ?thesis .
qed

lemma provisional_split_ok:
  assumes "perm_ok L" and "provisional_split L x target = Inr (train, test)"
  shows "length train = n_rows x - (n_rows x + 4) div 5 \<and> length test = (n_rows x + 4) div 5
       \<and> 0 < length train \<and> mset (train @ test) = mset [0..<n_rows x]
       \<and> length (s_values target) = n_rows x"
proof -
  have h: "None = None \<or> None = Some (s_values target)
        \<and> length (s_values target) = length (s_values target)" by simp
  from train_test_split_ok [OF assms(1) assms(2) [unfolded provisional_split_def] h]
  show ?thesis .
qed

lemma final_split_counts:
  assumes "perm_ok L" and "final_split L x target = Inr (train, test)"
    and "c \<in> set (s_values target)"
  shows "length (filter (\<lambda>j. s_values target ! j = c) train)
           + length (filter (\<lambda>j. s_values target ! j = c) test)
           = length (filter (\<lambda>v. v = c) (s_values target))
       \<and> length (filter (\<lambda>v. v = c) (s_values target)) * length train div n_rows x
           \<le> length (filter (\<lambda>j. s_values target ! j = c) train)
       \<and> length (filter (\<lambda>j. s_values target ! j = c) train)
           \<le> length (filter (\<lambda>v. v = c) (s_values target)) * length train div n_rows x + 1"
proof -
  note ok = final_split_ok [OF assms(1,2)]
  define n where "n = n_rows x"
  define ys where "ys = s_values target"
  from assms(2) ok obtain n_train n_test where
    v: "validate_shuffle_split n 0.2 = Inr (n_train, n_test)"
    unfolding n_def
    by (cases "validate_shuffle_split (n_rows x) 0.2")
      (auto simp: final_split_def train_test_split_def split: if_splits)
  note vs = validate_shuffle_split_Inr [OF v]
  from assms(2) ok v have s: "stratified_shuffle_split L 42 ys n_train n_test = Inr (train, test)"
    by (simp add: final_split_def train_test_split_def n_def ys_def)
  have len: "n_train + n_test = length ys" using vs(4) ok by (simp add: n_def ys_def)
  have pos: "0 < n_test" using vs(1,3,4) by linarith
  have lt: "length train = n_train" using ok vs by (simp add: n_def)
  have ly: "length ys = n_rows x" using ok by (simp add: ys_def)
  from stratified_counts [OF assms(1) len pos s assms(3) [folded ys_def]]
  show ?thesis unfolding lt ys_def [symmetric] ly [symmetric] by simp
qed

lemma round_examples: "round (0.8 * 6 :: rat) = 5" "round (0.2 * 6 :: rat) = 1"
  by (simp_all add: round_def floor_eq_iff)

lemma map_of_filter_other:
  "k \<noteq> name \<Longrightarrow> map_of (filter (\<lambda>c. fst c \<noteq> name) cs) k = map_of cs k"
  by (induction cs) auto

lemma preprocess_target:
  assumes "self_df s = Some d"
    and "map_of (f_columns d) ''Survival_Prediction'' = Some (dt, vs)"
    and "fst (preprocess_data L s) = Inr ()"
  shows "self_y (snd (preprocess_data L s)) =
           Some \<lparr>s_index = f_index d, s_dtype = dt, s_values = vs\<rparr>"
proof -
  from assms(3) have ok: "fst (preprocess_body s) = Inr ()"
    by (auto simp: preprocess_data_fst split: sum.splits)
  from preprocess_body_ok [OF assms(1) ok] obtain d1 x target where
    d1: "drop_columns d ''Patient_ID'' = Inr d1"
    and g: "getitem d1 ''Survival_Prediction'' = Inr target"
    and body: "preprocess_body s =
             encode_columns (columns_of (select_dtypes [Object] x))
               (s\<lparr>self_df := Some d1, self_X := Some x, self_y := Some target\<rparr>)"
    by blast
  have "map_of (f_columns d1) ''Survival_Prediction'' = Some (dt, vs)"
    using assms(2) by (simp add: drop_columns_Inr [OF d1] map_of_filter_other)
  with g have "target = \<lparr>s_index = f_index d, s_dtype = dt, s_values = vs\<rparr>"
    by (simp add: getitem_def drop_columns_Inr [OF d1])
  then show ?thesis
    using ok by (simp add: preprocess_data_snd body encode_columns_frame)
qed

lemma feature_selection_needs_X:
  assumes "fst (feature_selection L s) = Inr ()"
  shows "\<exists>x target. self_X s = Some x \<and> self_y s = Some target"
  using assms
  by (auto simp: feature_selection_fst feature_selection_body_def split: sum.splits option.splits)

lemma disjoint_filters:
  "(\<And>x. \<not> (P x \<and> Q x)) \<Longrightarrow> length (filter P xs) + length (filter Q xs) \<le> length xs"
  by (induction xs) auto

lemma length_filter_pos_ex: "0 < length (filter P xs) \<Longrightarrow> \<exists>x \<in> set xs. P x"
  by (induction xs) (auto split: if_splits)

subsection \<open>The stages read the object only\<close>

lemma fields_of_log [simp]:
  "fields_of (logger_info m s) = fields_of s"
  "fields_of (logger_error m e s) = fields_of s"
  "fields_of (logger_info_list m xs s) = fields_of s"
  "fields_of (s\<lparr>env := w\<rparr>) = fields_of s"
  by (simp_all add: fields_of_def)

lemma fields_of_eqD:
  assumes "fields_of s = fields_of t"
  shows "input_path s = input_path t" "label_encoder s = label_encoder t" "scaler s = scaler t"
    "self_df s = self_df t" "self_X s = self_X t" "self_y s = self_y t"
    "selected_features s = selected_features t"
  using assms by (simp_all add: fields_of_def)

lemma fields_of_update:
  assumes "fields_of s = fields_of t"
  shows "fields_of (s\<lparr>self_df := a\<rparr>) = fields_of (t\<lparr>self_df := a\<rparr>)"
    "fields_of (s\<lparr>self_X := b\<rparr>) = fields_of (t\<lparr>self_X := b\<rparr>)"
    "fields_of (s\<lparr>self_y := c\<rparr>) = fields_of (t\<lparr>self_y := c\<rparr>)"
    "fields_of (s\<lparr>scaler := d\<rparr>) = fields_of (t\<lparr>scaler := d\<rparr>)"
    "fields_of (s\<lparr>selected_features := e\<rparr>) = fields_of (t\<lparr>selected_features := e\<rparr>)"
    "fields_of (s\<lparr>self_X := b, label_encoder := f\<rparr>) = fields_of (t\<lparr>self_X := b, label_encoder := f\<rparr>)"
  using assms by (simp_all add: fields_of_def)

lemma encode_columns_same:
  "fields_of s = fields_of t \<Longrightarrow>
     fst (encode_columns cols s) = fst (encode_columns cols t)
   \<and> fields_of (snd (encode_columns cols s)) = fields_of (snd (encode_columns cols t))"
proof (induction cols arbitrary: s t)
  case Nil
  then show ?case by simp
next
  case (Cons col rest)
  note eq = fields_of_eqD [OF Cons.prems]
  show ?case
  proof (cases "self_X t")
    case None
    with eq Cons.prems show ?thesis by simp
  next
    case (Some x)
    show ?thesis
    proof (cases "getitem x col")
      case (Inl e)
      with Some eq Cons.prems show ?thesis by simp
    next
      case (Inr column)
      show ?thesis
      proof (cases "fit_transform (s_values column)")
        case (Inl e)
        with Inr Some eq Cons.prems show ?thesis by simp
      next
        case (Inr r)
        obtain le codes where r: "r = (le, codes)" by (cases r)
        have "fields_of (s\<lparr>self_X := Some (setitem x col (codes_dtype codes) codes),
                           label_encoder := (label_encoder t)(col \<mapsto> le)\<rparr>)
            = fields_of (t\<lparr>self_X := Some (setitem x col (codes_dtype codes) codes),
                           label_encoder := (label_encoder t)(col \<mapsto> le)\<rparr>)"
          by (rule fields_of_update(6) [OF Cons.prems])
        from Cons.IH [OF this] Inr r \<open>getitem x col = Inr column\<close> Some eq
        show ?thesis by simp
      qed
    qed
  qed
qed

lemma preprocess_body_same:
  assumes "fields_of s = fields_of t"
  shows "fst (preprocess_body s) = fst (preprocess_body t)
       \<and> fields_of (snd (preprocess_body s)) = fields_of (snd (preprocess_body t))"
proof -
  note eq = fields_of_eqD [OF assms]
  have u: "\<And>a b c. fields_of (s\<lparr>self_df := a, self_X := b, self_y := c\<rparr>)
                   = fields_of (t\<lparr>self_df := a, self_X := b, self_y := c\<rparr>)"
    using assms by (simp add: fields_of_def)
  have u1: "\<And>a. fields_of (s\<lparr>self_df := a\<rparr>) = fields_of (t\<lparr>self_df := a\<rparr>)"
    using assms by (simp add: fields_of_def)
  have u2: "\<And>a b. fields_of (s\<lparr>self_df := a, self_X := b\<rparr>) = fields_of (t\<lparr>self_df := a, self_X := b\<rparr>)"
    using assms by (simp add: fields_of_def)
  show ?thesis
    using assms eq u1 u2 encode_columns_same [OF u]
    by (simp add: preprocess_body_def Let_def split: option.splits sum.splits)
qed

lemma preprocess_data_same:
  assumes "fields_of s = fields_of t"
  shows "fst (preprocess_data L s) = fst (preprocess_data L t)
       \<and> fields_of (snd (preprocess_data L s)) = fields_of (snd (preprocess_data L t))"
  using preprocess_body_same [OF assms]
  by (simp add: preprocess_data_fst preprocess_data_snd split: sum.splits)

lemma feature_selection_body_same:
  assumes "fields_of s = fields_of t"
  shows "fst (feature_selection_body L s) = fst (feature_selection_body L t)
       \<and> fields_of (snd (feature_selection_body L s)) = fields_of (snd (feature_selection_body L t))"
proof -
  note eq = fields_of_eqD [OF assms]
  have u: "\<And>a. fields_of (s\<lparr>selected_features := a\<rparr>) = fields_of (t\<lparr>selected_features := a\<rparr>)"
    using assms by (simp add: fields_of_def)
  have u2: "\<And>a b. fields_of (s\<lparr>selected_features := a, self_X := b\<rparr>)
      = fields_of (t\<lparr>selected_features := a, self_X := b\<rparr>)"
    using assms by (simp add: fields_of_def)
  have v: "\<And>m xs a b. fields_of ((logger_info_list m xs (s\<lparr>selected_features := a\<rparr>))\<lparr>self_X := b\<rparr>)
      = fields_of ((logger_info_list m xs (t\<lparr>selected_features := a\<rparr>))\<lparr>self_X := b\<rparr>)"
    using assms by (simp add: fields_of_def logger_info_list_def)
  show ?thesis
    using assms eq u v
    by (simp add: feature_selection_body_def Let_def split: option.splits sum.splits prod.splits)
qed

lemma feature_selection_same:
  assumes "fields_of s = fields_of t"
  shows "fst (feature_selection L s) = fst (feature_selection L t)
       \<and> fields_of (snd (feature_selection L s)) = fields_of (snd (feature_selection L t))"
  using feature_selection_body_same [OF assms, of L]
  by (simp add: feature_selection_fst feature_selection_snd split: sum.splits)

lemma split_and_scale_body_same:
  assumes "fields_of s = fields_of t"
  shows "fst (split_and_scale_body L s) = fst (split_and_scale_body L t)
       \<and> fields_of (snd (split_and_scale_body L s)) = fields_of (snd (split_and_scale_body L t))"
proof -
  note eq = fields_of_eqD [OF assms]
  have u: "\<And>a. fields_of (s\<lparr>scaler := a\<rparr>) = fields_of (t\<lparr>scaler := a\<rparr>)"
    using assms by (simp add: fields_of_def)
  show ?thesis
    using assms eq u
    by (simp add: split_and_scale_body_def Let_def split: option.splits sum.splits prod.splits)
qed

lemma split_and_scale_same:
  assumes "fields_of s = fields_of t"
  shows "fst (split_and_scale L s) = fst (split_and_scale L t)
       \<and> fields_of (snd (split_and_scale L s)) = fields_of (snd (split_and_scale L t))"
  using split_and_scale_body_same [OF assms, of L]
  by (simp add: split_and_scale_fst split_and_scale_snd split: sum.splits)

lemma load_data_same:
  assumes "fields_of s = fields_of t"
    and "files (env s) (input_path s) = files (env t) (input_path t)"
    and "readable (env s) (input_path s) = readable (env t) (input_path t)"
  shows "fst (load_data L s) = fst (load_data L t)
       \<and> fields_of (snd (load_data L s)) = fields_of (snd (load_data L t))"
proof -
  have "read_csv L (env s) (input_path s) = read_csv L (env t) (input_path t)"
    using assms(2,3) fields_of_eqD(1) [OF assms(1)] by (simp add: read_csv_def split: option.splits)
  moreover have "\<And>a. fields_of (s\<lparr>self_df := a\<rparr>) = fields_of (t\<lparr>self_df := a\<rparr>)"
    using assms(1) by (simp add: fields_of_def)
  ultimately show ?thesis using assms(1) by (simp add: load_data_def split: sum.splits)
qed

lemma save_fields: "fields_of (snd (save_data_and_scaler L a s)) = fields_of s"
  by (simp add: save_data_and_scaler_def split: prod.splits option.splits)


lemma save_fields_eq: "save_data_and_scaler L a s = (r, s') \<Longrightarrow> fields_of s' = fields_of s"
  using save_fields [of L a s] by simp

lemma run_fields:
  "fields_of (snd (run L s)) =
     (if isl (fst (load_data L s)) then fields_of (snd (load_data L s))
      else if isl (fst (preprocess_data L (snd (load_data L s))))
      then fields_of (snd (preprocess_data L (snd (load_data L s))))
      else if isl (fst (feature_selection L (snd (preprocess_data L (snd (load_data L s))))))
      then fields_of (before_split L s)
      else fields_of (snd (split_and_scale L (before_split L s))))"
proof -
  obtain r1 t1 where 1: "load_data L s = (r1, t1)" by (cases "load_data L s")
  obtain r2 t2 where 2: "preprocess_data L t1 = (r2, t2)" by (cases "preprocess_data L t1")
  obtain r3 t3 where 3: "feature_selection L t2 = (r3, t3)" by (cases "feature_selection L t2")
  obtain r4 t4 where 4: "split_and_scale L t3 = (r4, t4)" by (cases "split_and_scale L t3")
  show ?thesis
  proof (cases r1)
    case (Inl e)
    with 1 show ?thesis by (simp add: run_def)
  next
    case (Inr u1)
    show ?thesis
    proof (cases r2)
      case (Inl e)
      with 1 2 \<open>r1 = Inr u1\<close> show ?thesis by (simp add: run_def)
    next
      case (Inr u2)
      show ?thesis
      proof (cases r3)
        case (Inl e)
        with 1 2 3 \<open>r1 = Inr u1\<close> \<open>r2 = Inr u2\<close> show ?thesis
          by (simp add: run_def before_split_def)
      next
        case (Inr u3)
        show ?thesis
        proof (cases r4)
          case (Inl e)
          with 1 2 3 4 \<open>r1 = Inr u1\<close> \<open>r2 = Inr u2\<close> \<open>r3 = Inr u3\<close> show ?thesis
            by (simp add: run_def before_split_def)
        next
          case (Inr arr)
          obtain r5 t5 where 5: "save_data_and_scaler L arr t4 = (r5, t5)"
            by (cases "save_data_and_scaler L arr t4")
          from save_fields_eq [OF 5] have "fields_of t5 = fields_of t4" .
          with 1 2 3 4 5 Inr \<open>r1 = Inr u1\<close> \<open>r2 = Inr u2\<close> \<open>r3 = Inr u3\<close> show ?thesis
            by (cases r5) (simp_all add: run_def before_split_def)
        qed
      qed
    qed
  qed
qed

section \<open>The claims on the data\<close>

text \<open>
  Claim C3. After a successful \<open>feature_selection\<close> the selected features are the first
  five names (all of them when there are fewer) of a list that holds every column of dtype
  int64 or float64 with its chi-squared score on the provisional training rows, in
  descending order of score (NaN last); their number is the minimum of 5 and the number of
  such columns, and \<open>X\<close> keeps exactly the selected columns, in that order.
\<close>

theorem feature_selection_top_five:
  assumes "self_X s = Some x" and "self_y s = Some target"
    and "fst (feature_selection L s) = Inr ()"
  shows "\<exists>train test ranked x'.
           provisional_split L x target = Inr (train, test)
         \<and> mset ranked =
             mset (chi2_table L (select_dtypes [Int64, Float64] (frame_rows x train))
                     (series_rows target train))
         \<and> sorted_wrt (\<lambda>a b. score_ge (snd a) (snd b)) ranked
         \<and> selected_features (snd (feature_selection L s)) = map fst (take 5 ranked)
         \<and> length (selected_features (snd (feature_selection L s))) =
             min 5 (length (f_columns (select_dtypes [Int64, Float64] x)))
         \<and> self_X (snd (feature_selection L s)) = Some x'
         \<and> columns_of x' = selected_features (snd (feature_selection L s))"
proof -
  from assms(3) obtain u where ok: "fst (feature_selection_body L s) = Inr u"
    by (auto simp: feature_selection_fst split: sum.splits)
  then have snd_eq: "snd (feature_selection L s) = snd (feature_selection_body L s)"
    by (simp add: feature_selection_snd)
  from ok assms(1,2) obtain train test where sp: "provisional_split L x target = Inr (train, test)"
    by (auto simp: feature_selection_body_def split: sum.splits)
  let ?X_cat = "select_dtypes [Int64, Float64] (frame_rows x train)"
  let ?y_train = "series_rows target train"
  let ?ranked = "chi2_scores L ?X_cat ?y_train"
  let ?top = "map fst (take 5 ?ranked)"
  from ok assms(1,2) sp obtain cs where cs: "getitem_list x ?top = Inr cs"
    by (auto simp: feature_selection_body_def Let_def split: sum.splits option.splits)
  from ok assms(1,2) sp cs have
    sel: "selected_features (snd (feature_selection_body L s)) = ?top"
    and x': "self_X (snd (feature_selection_body L s)) = Some (x\<lparr>f_columns := cs\<rparr>)"
    by (auto simp: feature_selection_body_def Let_def split: sum.splits option.splits)
  have m: "mset ?ranked = mset (chi2_table L ?X_cat ?y_train)"
    by (simp add: chi2_scores_def mset_sort_values_desc)
  have srt: "sorted_wrt (\<lambda>a b. score_ge (snd a) (snd b)) ?ranked"
    by (simp add: chi2_scores_def sorted_sort_values_desc)
  have "length ?ranked = length (f_columns (select_dtypes [Int64, Float64] x))"
    by (simp add: chi2_scores_def length_sort_values_desc chi2_table_def numeric_columns_rows)
  then have len: "length ?top = min 5 (length (f_columns (select_dtypes [Int64, Float64] x)))"
    by simp
  have cols: "columns_of (x\<lparr>f_columns := cs\<rparr>) = ?top"
    using getitem_list_names [OF cs] by (simp add: columns_of_def)
  from sp m srt sel len x' cols show ?thesis
    unfolding snd_eq by (intro exI conjI) simp_all
qed

theorem feature_selection_top_five_witness:
  "self_X example_preprocessed = Some example_X
   \<and> self_y example_preprocessed = Some example_y
   \<and> fst (feature_selection example_library example_preprocessed) = Inr ()
   \<and> selected_features (snd (feature_selection example_library example_preprocessed)) =
       [''Age'', ''Tumor_Size'', ''Gender'']
   \<and> length (selected_features (snd (feature_selection example_library example_preprocessed))) =
       min 5 (length (f_columns (select_dtypes [Int64, Float64] example_X)))"
  using feature_selection_top_five [OF example_preprocessed_X example_preprocessed_y example_selection_ok]
    example_preprocessed_X example_preprocessed_y example_selection_ok
    example_selected_features [unfolded example_selected_def]
  by blast

text \<open>
  Claim C5. After a successful \<open>preprocess_data\<close> on a loaded table (distinct column names,
  no encoder yet), \<open>label_encoder\<close> holds an encoder for exactly the feature columns of
  dtype object. Each such column now holds the codes of its values, as integers (an empty
  column becomes an empty column of floats). The codes are exactly \<open>0, ..., k - 1\<close>, where
  \<open>k\<close> is the number of distinct values of the column, and two values have the same code
  only if Python holds them equal; \<open>inverse_transform\<close> of the retained encoder gives back
  a column equal to the original, value by value. For a column of strings (with or
  without missing values) this says: the encoding is a bijection from the values of the
  column to the codes, and \<open>inverse_transform\<close> returns the original column. The other
  columns are unchanged.
\<close>

theorem label_encoding_roundtrip:
  assumes "self_df s = Some d" and "distinct (columns_of d)"
    and "label_encoder s = Map.empty"
    and "fst (preprocess_data L s) = Inr ()"
  shows "\<exists>d1 x x'.
           drop_columns d ''Patient_ID'' = Inr d1
         \<and> drop_columns d1 ''Survival_Prediction'' = Inr x
         \<and> self_X (snd (preprocess_data L s)) = Some x'
         \<and> columns_of x' = columns_of x
         \<and> dom (label_encoder (snd (preprocess_data L s))) =
             {name. \<exists>vs. (name, Object, vs) \<in> set (f_columns x)}
         \<and> (\<forall>(name, dt, vs) \<in> set (f_columns x).
               if dt = Object
               then \<exists>classes decoded.
                      label_encoder (snd (preprocess_data L s)) name = Some classes
                    \<and> map_of (f_columns x') name =
                        Some (if vs = [] then Float64 else Int64, map (encode classes) vs)
                    \<and> inverse_transform classes (map (encode classes) vs) = Inr decoded
                    \<and> list_all2 py_eq decoded vs
                    \<and> ((\<forall>v \<in> set vs. \<not> is_number v) \<longrightarrow> decoded = vs)
                    \<and> encode classes ` set vs = IntV ` int ` {..<length classes}
                    \<and> length classes = card (cell_key ` set vs)
                    \<and> (\<forall>u \<in> set vs. \<forall>v \<in> set vs.
                          encode classes u = encode classes v \<longleftrightarrow> py_eq u v)
                    \<and> ((\<forall>v \<in> set vs. \<not> is_number v) \<longrightarrow>
                          bij_betw (encode classes) (set vs) (IntV ` int ` {..<length classes}))
               else map_of (f_columns x') name = Some (dt, vs))"
proof -
  from assms(4) have ok: "fst (preprocess_body s) = Inr ()"
    by (auto simp: preprocess_data_fst split: sum.splits)
  from preprocess_body_ok [OF assms(1) ok] obtain d1 x target where
    d1: "drop_columns d ''Patient_ID'' = Inr d1"
    and x: "drop_columns d1 ''Survival_Prediction'' = Inr x"
    and body: "preprocess_body s =
             encode_columns (columns_of (select_dtypes [Object] x))
               (s\<lparr>self_df := Some d1, self_X := Some x, self_y := Some target\<rparr>)"
    by blast
  let ?names = "columns_of (select_dtypes [Object] x)"
  let ?s3 = "s\<lparr>self_df := Some d1, self_X := Some x, self_y := Some target\<rparr>"
  let ?s' = "snd (encode_columns ?names ?s3)"
  have dx: "distinct (columns_of x)"
    using distinct_drop_columns [OF x distinct_drop_columns [OF d1 assms(2)]] .
  then have dn: "distinct ?names"
    by (simp add: select_dtypes_def columns_of_def distinct_map_filter)
  have sub: "set ?names \<subseteq> set (columns_of x)"
    by (auto simp: select_dtypes_def columns_of_def)
  have names: "set ?names = {name. \<exists>vs. (name, Object, vs) \<in> set (f_columns x)}"
    by (force simp: select_dtypes_def columns_of_def)
  have ok': "fst (encode_columns ?names ?s3) = Inr ()" using ok body by simp
  have X3: "self_X ?s3 = Some x" by simp
  from encode_columns_ok [OF X3 sub dn ok'] obtain x' where
    X': "self_X ?s' = Some x'" and c': "columns_of x' = columns_of x"
    and inn: "\<forall>name\<in>set ?names. \<exists>dt vs classes.
                map_of (f_columns x) name = Some (dt, vs)
              \<and> fit_transform vs = Inr (classes, map (encode classes) vs)
              \<and> map_of (f_columns x') name = Some (codes_dtype vs, map (encode classes) vs)
              \<and> label_encoder ?s' name = Some classes"
    and out: "\<forall>name. name \<notin> set ?names \<longrightarrow>
                map_of (f_columns x') name = map_of (f_columns x) name
              \<and> label_encoder ?s' name = label_encoder ?s3 name"
    by blast
  have fin: "snd (preprocess_data L s) =
      logger_info ''Data processing - Label encoding done...'' ?s'"
    using ok body by (simp add: preprocess_data_snd)
  have dom: "dom (label_encoder ?s') = {name. \<exists>vs. (name, Object, vs) \<in> set (f_columns x)}"
  proof (intro equalityI subsetI)
    fix name assume "name \<in> dom (label_encoder ?s')"
    then have "name \<in> set ?names" using out assms(3) by (cases "name \<in> set ?names") auto
    then show "name \<in> {name. \<exists>vs. (name, Object, vs) \<in> set (f_columns x)}" using names by simp
  next
    fix name assume "name \<in> {name. \<exists>vs. (name, Object, vs) \<in> set (f_columns x)}"
    then have "name \<in> set ?names" using names by simp
    with inn show "name \<in> dom (label_encoder ?s')" by fastforce
  qed
  have dmap: "distinct (map fst (f_columns x))" using dx by (simp add: columns_of_def)
  have each: "\<forall>(name, dt, vs) \<in> set (f_columns x).
               if dt = Object
               then \<exists>classes decoded.
                      label_encoder ?s' name = Some classes
                    \<and> map_of (f_columns x') name =
                        Some (if vs = [] then Float64 else Int64, map (encode classes) vs)
                    \<and> inverse_transform classes (map (encode classes) vs) = Inr decoded
                    \<and> list_all2 py_eq decoded vs
                    \<and> ((\<forall>v \<in> set vs. \<not> is_number v) \<longrightarrow> decoded = vs)
                    \<and> encode classes ` set vs = IntV ` int ` {..<length classes}
                    \<and> length classes = card (cell_key ` set vs)
                    \<and> (\<forall>u \<in> set vs. \<forall>v \<in> set vs.
                          encode classes u = encode classes v \<longleftrightarrow> py_eq u v)
                    \<and> ((\<forall>v \<in> set vs. \<not> is_number v) \<longrightarrow>
                          bij_betw (encode classes) (set vs) (IntV ` int ` {..<length classes}))
               else map_of (f_columns x') name = Some (dt, vs)"
  proof (clarify)
    fix name dt vs assume mem: "(name, dt, vs) \<in> set (f_columns x)"
    then have mo: "map_of (f_columns x) name = Some (dt, vs)" using dmap by simp
    show "if dt = Object
               then \<exists>classes decoded.
                      label_encoder ?s' name = Some classes
                    \<and> map_of (f_columns x') name =
                        Some (if vs = [] then Float64 else Int64, map (encode classes) vs)
                    \<and> inverse_transform classes (map (encode classes) vs) = Inr decoded
                    \<and> list_all2 py_eq decoded vs
                    \<and> ((\<forall>v \<in> set vs. \<not> is_number v) \<longrightarrow> decoded = vs)
                    \<and> encode classes ` set vs = IntV ` int ` {..<length classes}
                    \<and> length classes = card (cell_key ` set vs)
                    \<and> (\<forall>u \<in> set vs. \<forall>v \<in> set vs.
                          encode classes u = encode classes v \<longleftrightarrow> py_eq u v)
                    \<and> ((\<forall>v \<in> set vs. \<not> is_number v) \<longrightarrow>
                          bij_betw (encode classes) (set vs) (IntV ` int ` {..<length classes}))
               else map_of (f_columns x') name = Some (dt, vs)"
    proof (cases "dt = Object")
      case True
      with mem names have "name \<in> set ?names" by auto
      with inn mo obtain classes where
        ft: "fit_transform vs = Inr (classes, map (encode classes) vs)"
        and m': "map_of (f_columns x') name = Some (codes_dtype vs, map (encode classes) vs)"
        and le: "label_encoder ?s' name = Some classes"
        by fastforce
      from m' have m'': "map_of (f_columns x') name =
                        Some (if vs = [] then Float64 else Int64, map (encode classes) vs)"
        by (simp add: codes_dtype_def)
      from fit_transform_roundtrip [OF ft] obtain decoded where
        r1: "inverse_transform classes (map (encode classes) vs) = Inr decoded"
        and r2: "list_all2 py_eq decoded vs"
        and r3: "(\<forall>v \<in> set vs. \<not> is_number v) \<longrightarrow> decoded = vs"
        and r4: "encode classes ` set vs = IntV ` int ` {..<length classes}"
        and r5: "length classes = card (cell_key ` set vs)"
        and r6: "\<forall>u \<in> set vs. \<forall>v \<in> set vs.
                          encode classes u = encode classes v \<longleftrightarrow> py_eq u v"
        and r7: "(\<forall>v \<in> set vs. \<not> is_number v) \<longrightarrow>
                          bij_betw (encode classes) (set vs) (IntV ` int ` {..<length classes})"
        by blast
      have ex: "\<exists>classes decoded.
                      label_encoder ?s' name = Some classes
                    \<and> map_of (f_columns x') name =
                        Some (if vs = [] then Float64 else Int64, map (encode classes) vs)
                    \<and> inverse_transform classes (map (encode classes) vs) = Inr decoded
                    \<and> list_all2 py_eq decoded vs
                    \<and> ((\<forall>v \<in> set vs. \<not> is_number v) \<longrightarrow> decoded = vs)
                    \<and> encode classes ` set vs = IntV ` int ` {..<length classes}
                    \<and> length classes = card (cell_key ` set vs)
                    \<and> (\<forall>u \<in> set vs. \<forall>v \<in> set vs.
                          encode classes u = encode classes v \<longleftrightarrow> py_eq u v)
                    \<and> ((\<forall>v \<in> set vs. \<not> is_number v) \<longrightarrow>
                          bij_betw (encode classes) (set vs) (IntV ` int ` {..<length classes}))"
        apply (rule exI [of _ classes])
        apply (rule exI [of _ decoded])
        apply (insert le m'' r1 r2 r3 r4 r5 r6 r7)
        apply (intro conjI; assumption)
        done
      show ?thesis by (subst if_P [OF True]) (rule ex)
    next
      case False
      have "name \<notin> set ?names"
      proof
        assume "name \<in> set ?names"
        with names obtain vs' where "(name, Object, vs') \<in> set (f_columns x)" by auto
        with dmap have "map_of (f_columns x) name = Some (Object, vs')" by simp
        with mo False show False by simp
      qed
      with out mo False show ?thesis by simp
    qed
  qed
  have le_eq: "label_encoder ?s' = label_encoder (snd (preprocess_data L s))"
    by (simp add: fin)
  have X'': "self_X (snd (preprocess_data L s)) = Some x'"
    using X' by (simp add: fin)
  show ?thesis
    apply (rule exI [of _ d1])
    apply (rule exI [of _ x])
    apply (rule exI [of _ x'])
    apply (insert d1 x X'' c' dom [unfolded le_eq] each [unfolded le_eq])
    apply (intro conjI; assumption)
    done
qed

theorem label_encoding_roundtrip_witness:
  "self_df example_loaded = Some example_table
   \<and> distinct (columns_of example_table)
   \<and> label_encoder example_loaded = Map.empty
   \<and> fst (preprocess_data example_library example_loaded) = Inr ()
   \<and> dom (label_encoder (snd (preprocess_data example_library example_loaded))) = {''Gender''}
   \<and> self_X (snd (preprocess_data example_library example_loaded)) = Some example_X
   \<and> label_encoder (snd (preprocess_data example_library example_loaded)) ''Gender'' =
       Some [StrV ''F'', StrV ''M'']"
proof -
  have d: "distinct (columns_of example_table)"
    by (simp add: columns_of_def example_table_def)
  from label_encoding_roundtrip [OF example_loaded_df d example_loaded_encoders example_preprocess_ok]
  obtain d1 x where d1: "drop_columns example_table ''Patient_ID'' = Inr d1"
    and x: "drop_columns d1 ''Survival_Prediction'' = Inr x"
    and dom: "dom (label_encoder (snd (preprocess_data example_library example_loaded))) =
             {name. \<exists>vs. (name, Object, vs) \<in> set (f_columns x)}"
    by blast
  from d1 have "f_columns d1 = filter (\<lambda>c. fst c \<noteq> ''Patient_ID'') (f_columns example_table)"
    by (auto simp: drop_columns_def split: if_splits)
  with x have "f_columns x = filter (\<lambda>c. fst c \<noteq> ''Survival_Prediction'')
      (filter (\<lambda>c. fst c \<noteq> ''Patient_ID'') (f_columns example_table))"
    by (auto simp: drop_columns_def split: if_splits)
  then have "{name. \<exists>vs. (name, Object, vs) \<in> set (f_columns x)} = {''Gender''}"
    by (auto simp: example_table_def)
  with dom have dg: "dom (label_encoder (snd (preprocess_data example_library example_loaded))) =
      {''Gender''}" by simp
  have le: "label_encoder (snd (preprocess_data example_library example_loaded)) ''Gender'' =
       Some [StrV ''F'', StrV ''M'']"
    by code_simp
  from example_loaded_df d example_loaded_encoders example_preprocess_ok dg
    example_preprocessed_X [unfolded example_preprocessed_def] le
  show ?thesis by (intro conjI)
qed

text \<open>
  Claim C4, as amended. When \<open>split_and_scale\<close> returns after \<open>feature_selection\<close> on a
  table of \<open>n\<close> rows, the test features have \<open>ceil(0.2 * n)\<close> rows, which is
  \<open>(n + 4) div 5\<close>, and the training features the other \<open>n - ceil(0.2 * n)\<close> rows:
  800 and 200 for 1000 rows. Every row has as many entries as there are selected features,
  at most 5. The targets have as many values as their features have rows. The split is
  stratified: the rows of every target class are divided between the two partitions, and
  the training partition holds the proportional share of the class, rounded down, or one
  row more.
\<close>

theorem split_and_scale_shapes:
  assumes "perm_ok L" and "self_X s0 = Some x0" and "self_y s0 = Some target"
    and "fst (feature_selection L s0) = Inr ()"
    and "fst (split_and_scale L (snd (feature_selection L s0))) =
           Inr (X_train, X_test, y_train, y_test)"
  shows "length X_train = n_rows x0 - (n_rows x0 + 4) div 5
       \<and> length X_test = (n_rows x0 + 4) div 5
       \<and> (n_rows x0 = 1000 \<longrightarrow> length X_train = 800 \<and> length X_test = 200)
       \<and> (\<forall>row \<in> set X_train \<union> set X_test.
             length row = length (selected_features (snd (feature_selection L s0)))
           \<and> length row \<le> 5)
       \<and> length (s_values y_train) = length X_train
       \<and> length (s_values y_test) = length X_test
       \<and> (\<forall>c \<in> set (s_values target).
             length (filter (\<lambda>v. v = c) (s_values y_train))
               + length (filter (\<lambda>v. v = c) (s_values y_test))
               = length (filter (\<lambda>v. v = c) (s_values target))
           \<and> length (filter (\<lambda>v. v = c) (s_values target)) * length X_train div n_rows x0
               \<le> length (filter (\<lambda>v. v = c) (s_values y_train))
           \<and> length (filter (\<lambda>v. v = c) (s_values y_train))
               \<le> length (filter (\<lambda>v. v = c) (s_values target)) * length X_train div n_rows x0 + 1)"
proof -
  let ?s1 = "snd (feature_selection L s0)"
  from feature_selection_ok [OF assms(2,3,4)] obtain cs where
    sel: "getitem_list x0 (selected_features ?s1) = Inr cs"
    and top: "\<exists>train test. selected_features ?s1 =
             map fst (take 5 (chi2_scores L (select_dtypes [Int64, Float64] (frame_rows x0 train))
                                (series_rows target train)))"
    and X1: "self_X ?s1 = Some (x0\<lparr>f_columns := cs\<rparr>)"
    and y1: "self_y ?s1 = Some target"
    by blast
  define x where "x = x0\<lparr>f_columns := cs\<rparr>"
  have nx: "n_rows x = n_rows x0" by (simp add: x_def n_rows_def)
  have wx: "length (f_columns x) = length (selected_features ?s1)"
    using getitem_list_names [OF sel] by (simp add: x_def) (metis length_map)
  have w5: "length (selected_features ?s1) \<le> 5" using top by auto
  from split_and_scale_ok [OF X1 [folded x_def] y1 assms(5)] obtain train test where
    sp: "final_split L x target = Inr (train, test)"
    and Xtr: "X_train = scaler_transform L (scaler_fit L (frame_rows x train)) (frame_rows x train)"
    and Xte: "X_test = scaler_transform L (scaler_fit L (frame_rows x train)) (frame_rows x test)"
    and ytr: "y_train = series_rows target train"
    and yte: "y_test = series_rows target test"
    by blast
  note ok = final_split_ok [OF assms(1) sp, unfolded nx]
  have l1: "length X_train = length train" by (simp add: Xtr length_scaler_transform)
  have l2: "length X_test = length test" by (simp add: Xte length_scaler_transform)
  have A: "length X_train = n_rows x0 - (n_rows x0 + 4) div 5" using ok l1 by simp
  have B: "length X_test = (n_rows x0 + 4) div 5" using ok l2 by simp
  have C: "n_rows x0 = 1000 \<longrightarrow> length X_train = 800 \<and> length X_test = 200"
    using A B by simp
  have D: "\<forall>row \<in> set X_train \<union> set X_test.
             length row = length (selected_features ?s1) \<and> length row \<le> 5"
  proof
    fix row assume "row \<in> set X_train \<union> set X_test"
    then have "length row = length (f_columns x)"
      unfolding Xtr Xte by (auto dest!: width_scaler_transform)
    with wx w5 show "length row = length (selected_features ?s1) \<and> length row \<le> 5" by simp
  qed
  have E: "length (s_values y_train) = length X_train" by (simp add: ytr l1)
  have F: "length (s_values y_test) = length X_test" by (simp add: yte l2)
  have cnt: "\<And>c idx. length (filter (\<lambda>v. v = c) (map (\<lambda>i. s_values target ! i) idx))
      = length (filter (\<lambda>j. s_values target ! j = c) idx)"
    by (simp add: filter_map comp_def)
  have G: "\<forall>c \<in> set (s_values target).
             length (filter (\<lambda>v. v = c) (s_values y_train))
               + length (filter (\<lambda>v. v = c) (s_values y_test))
               = length (filter (\<lambda>v. v = c) (s_values target))
           \<and> length (filter (\<lambda>v. v = c) (s_values target)) * length X_train div n_rows x0
               \<le> length (filter (\<lambda>v. v = c) (s_values y_train))
           \<and> length (filter (\<lambda>v. v = c) (s_values y_train))
               \<le> length (filter (\<lambda>v. v = c) (s_values target)) * length X_train div n_rows x0 + 1"
  proof
    fix c assume c: "c \<in> set (s_values target)"
    from final_split_counts [OF assms(1) sp c]
    show "length (filter (\<lambda>v. v = c) (s_values y_train))
               + length (filter (\<lambda>v. v = c) (s_values y_test))
               = length (filter (\<lambda>v. v = c) (s_values target))
           \<and> length (filter (\<lambda>v. v = c) (s_values target)) * length X_train div n_rows x0
               \<le> length (filter (\<lambda>v. v = c) (s_values y_train))
           \<and> length (filter (\<lambda>v. v = c) (s_values y_train))
               \<le> length (filter (\<lambda>v. v = c) (s_values target)) * length X_train div n_rows x0 + 1"
      unfolding ytr yte series_rows_simps cnt l1 nx .
  qed
  from A B C D E F G show ?thesis by blast
qed

theorem split_and_scale_shapes_witness:
  "perm_ok example_library
   \<and> fst (split_and_scale example_library (snd (feature_selection example_library example_preprocessed)))
       = Inr example_arrays
   \<and> n_rows example_X = 10
   \<and> length (fst example_arrays) = 8
   \<and> length (fst (snd example_arrays)) = 2"
proof -
  obtain X_train X_test y_train y_test where a: "example_arrays = (X_train, X_test, y_train, y_test)"
    by (cases example_arrays)
  have n: "n_rows example_X = 10" by (simp add: n_rows_def example_X_def)
  from split_and_scale_shapes [OF example_perm_ok example_preprocessed_X example_preprocessed_y
      example_selection_ok example_split_ok [unfolded a]]
  have "length X_train = 8" and "length X_test = 2" by (simp_all add: n)
  with n example_perm_ok example_split_ok [unfolded a] show ?thesis unfolding a by simp
qed

text \<open>
  Claim C4 as stated fails: on six rows, three of each class, the training features have
  4 rows and the test features 2, where \<open>round(0.8 * 6) = 5\<close> and \<open>round(0.2 * 6) = 1\<close>.
\<close>

theorem split_and_scale_round_counterexample:
  "map_sum id (length \<circ> fst) (fst (split_and_scale example_library six_rows)) = Inr 4
   \<and> map_sum id (length \<circ> fst \<circ> snd) (fst (split_and_scale example_library six_rows)) = Inr 2
   \<and> round (0.8 * 6 :: rat) = 5 \<and> round (0.2 * 6 :: rat) = 1"
proof -
  have "map_sum id (length \<circ> fst) (fst (split_and_scale example_library six_rows)) = Inr 4"
    by code_simp
  moreover have "map_sum id (length \<circ> fst \<circ> snd) (fst (split_and_scale example_library six_rows)) = Inr 2"
    by code_simp
  ultimately show ?thesis using round_examples by simp
qed

text \<open>
  Claim C10. The target vector that \<open>preprocess_data\<close> extracts is the target column of the
  loaded table, with its dtype and values; \<open>feature_selection\<close> and \<open>split_and_scale\<close> leave
  \<open>self.y\<close> as it is. The \<open>y_train\<close> and \<open>y_test\<close> that \<open>split_and_scale\<close> returns, and that
  \<open>save_data_and_scaler\<close> hands to \<open>joblib.dump\<close> unchanged, keep the dtype of the column
  and hold its original values at a partition of the row positions: together they are the
  values of the column, each once.
\<close>

theorem target_only_partitioned:
  assumes "perm_ok L" and "self_df s0 = Some d"
    and "map_of (f_columns d) ''Survival_Prediction'' = Some (dt, vs)"
    and "fst (preprocess_data L s0) = Inr ()"
    and "fst (feature_selection L (snd (preprocess_data L s0))) = Inr ()"
    and "fst (split_and_scale L (snd (feature_selection L (snd (preprocess_data L s0))))) =
           Inr (X_train, X_test, y_train, y_test)"
  shows "self_y (snd (preprocess_data L s0)) =
           Some \<lparr>s_index = f_index d, s_dtype = dt, s_values = vs\<rparr>
       \<and> self_y (snd (feature_selection L (snd (preprocess_data L s0)))) =
           self_y (snd (preprocess_data L s0))
       \<and> self_y (snd (split_and_scale L (snd (feature_selection L (snd (preprocess_data L s0)))))) =
           self_y (snd (preprocess_data L s0))
       \<and> s_dtype y_train = dt \<and> s_dtype y_test = dt
       \<and> (\<exists>train test.
             mset (train @ test) = mset [0..<length vs]
           \<and> s_values y_train = map (\<lambda>i. vs ! i) train
           \<and> s_values y_test = map (\<lambda>i. vs ! i) test)
       \<and> mset (s_values y_train @ s_values y_test) = mset vs
       \<and> map fst (artifacts s (X_train, X_test, y_train, y_test)) =
           [Ndarray X_train, Ndarray X_test, Series_obj y_train, Series_obj y_test,
            Scaler_obj (scaler s)]"
proof -
  let ?s1 = "snd (preprocess_data L s0)"
  let ?s2 = "snd (feature_selection L ?s1)"
  let ?s3 = "snd (split_and_scale L ?s2)"
  define target where "target = \<lparr>s_index = f_index d, s_dtype = dt, s_values = vs\<rparr>"
  have y1: "self_y ?s1 = Some target"
    unfolding target_def by (rule preprocess_target [OF assms(2,3,4)])
  from feature_selection_needs_X [OF assms(5)] y1 obtain x1 where X1: "self_X ?s1 = Some x1"
    by auto
  from feature_selection_ok [OF X1 y1 assms(5)] obtain cs where
    X2: "self_X ?s2 = Some (x1\<lparr>f_columns := cs\<rparr>)" and y2: "self_y ?s2 = Some target"
    by blast
  from split_and_scale_ok [OF X2 y2 assms(6)] obtain train test where
    sp: "final_split L (x1\<lparr>f_columns := cs\<rparr>) target = Inr (train, test)"
    and ytr: "y_train = series_rows target train"
    and yte: "y_test = series_rows target test"
    and y3: "self_y ?s3 = Some target"
    by blast
  note ok = final_split_ok [OF assms(1) sp]
  have lv: "length vs = n_rows (x1\<lparr>f_columns := cs\<rparr>)" using ok by (simp add: target_def)
  have part: "mset (train @ test) = mset [0..<length vs]" using ok lv by simp
  have vtr: "s_values y_train = map (\<lambda>i. vs ! i) train" by (simp add: ytr target_def)
  have vte: "s_values y_test = map (\<lambda>i. vs ! i) test" by (simp add: yte target_def)
  have "mset (s_values y_train @ s_values y_test) = image_mset (\<lambda>i. vs ! i) (mset (train @ test))"
    by (simp add: vtr vte)
  also have "\<dots> = mset (map (\<lambda>i. vs ! i) [0..<length vs])" by (simp only: part mset_map)
  also have "\<dots> = mset vs" by (simp add: map_nth)
  finally have all: "mset (s_values y_train @ s_values y_test) = mset vs" .
  have dts: "s_dtype y_train = dt" "s_dtype y_test = dt" by (simp_all add: ytr yte target_def)
  have art: "map fst (artifacts s (X_train, X_test, y_train, y_test)) =
           [Ndarray X_train, Ndarray X_test, Series_obj y_train, Series_obj y_test,
            Scaler_obj (scaler s)]"
    by (simp add: artifacts_def)
  have ex: "\<exists>train test.
             mset (train @ test) = mset [0..<length vs]
           \<and> s_values y_train = map (\<lambda>i. vs ! i) train
           \<and> s_values y_test = map (\<lambda>i. vs ! i) test"
    using part vtr vte by blast
  from y1 y2 y3 dts ex all art show ?thesis unfolding target_def by simp
qed

theorem target_only_partitioned_witness:
  "perm_ok example_library
   \<and> self_df example_loaded = Some example_table
   \<and> fst (preprocess_data example_library example_loaded) = Inr ()
   \<and> fst (split_and_scale example_library
           (snd (feature_selection example_library (snd (preprocess_data example_library example_loaded)))))
       = Inr example_arrays
   \<and> mset (s_values (fst (snd (snd example_arrays))) @ s_values (snd (snd (snd example_arrays)))) =
       mset (map StrV [''No'', ''No'', ''Yes'', ''No'', ''Yes'', ''No'', ''Yes'', ''Yes'', ''No'', ''Yes''])"
proof -
  obtain X_train X_test y_train y_test where a: "example_arrays = (X_train, X_test, y_train, y_test)"
    by (cases example_arrays)
  have t: "map_of (f_columns example_table) ''Survival_Prediction'' =
      Some (Object, map StrV [''No'', ''No'', ''Yes'', ''No'', ''Yes'', ''No'', ''Yes'', ''Yes'', ''No'', ''Yes''])"
    by (simp add: example_table_def)
  note sel = example_selection_ok [unfolded example_preprocessed_def]
  note spl = example_split_ok [unfolded example_preprocessed_def a]
  from target_only_partitioned [OF example_perm_ok example_loaded_df t example_preprocess_ok sel spl]
  have "mset (s_values y_train @ s_values y_test) =
       mset (map StrV [''No'', ''No'', ''Yes'', ''No'', ''Yes'', ''No'', ''Yes'', ''Yes'', ''No'', ''Yes''])"
    by blast
  with example_perm_ok example_loaded_df example_preprocess_ok spl show ?thesis
    unfolding a by simp
qed

text \<open>
  Claim C2 fails on the code. The chi-squared scores are computed from the training rows
  of the provisional split of line 58, which is not stratified; the persisted test set is
  that of the stratified split of line 76. For every generator: on a table of ten rows
  with two target classes of five rows each, where the two test rows of the provisional
  split are of the same class, the selected features are ranked by scores over the
  provisional training rows, and the persisted test target holds a row of the other class
  that is among those rows.
\<close>

theorem selection_scores_final_test_row:
  assumes "perm_ok L"
    and "self_X s = Some x" and "self_y s = Some target"
    and "n_rows x = 10" and "s_index target = [0..<10]"
    and "a \<noteq> b"
    and "length (filter (\<lambda>v. v = a) (s_values target)) = 5"
    and "length (filter (\<lambda>v. v = b) (s_values target)) = 5"
    and "provisional_split L x target = Inr (train0, test0)"
    and "\<forall>j \<in> set test0. s_values target ! j = a"
    and "fst (feature_selection L s) = Inr ()"
    and "fst (split_and_scale L (snd (feature_selection L s))) =
           Inr (X_train, X_test, y_train, y_test)"
  shows "selected_features (snd (feature_selection L s)) =
           map fst (take 5 (chi2_scores L (select_dtypes [Int64, Float64] (frame_rows x train0))
                              (series_rows target train0)))
       \<and> (\<exists>j \<in> set (s_index y_test). j \<in> set train0 \<and> s_values target ! j = b)"
proof -
  let ?s1 = "snd (feature_selection L s)"
  define ys where "ys = s_values target"
  from feature_selection_ok [OF assms(2,3,11)] assms(9) obtain cs where
    top: "selected_features ?s1 =
           map fst (take 5 (chi2_scores L (select_dtypes [Int64, Float64] (frame_rows x train0))
                              (series_rows target train0)))"
    and X1: "self_X ?s1 = Some (x\<lparr>f_columns := cs\<rparr>)"
    and y1: "self_y ?s1 = Some target"
    by auto
  define x' where "x' = x\<lparr>f_columns := cs\<rparr>"
  have nx: "n_rows x' = 10" using assms(4) by (simp add: x'_def n_rows_def)
  from split_and_scale_ok [OF X1 [folded x'_def] y1 assms(12)] obtain train1 test1 where
    sp: "final_split L x' target = Inr (train1, test1)"
    and yte: "y_test = series_rows target test1"
    by blast
  note f = final_split_ok [OF assms(1) sp, unfolded nx]
  note p = provisional_split_ok [OF assms(1,9), unfolded assms(4)]
  have ltr: "length train1 = 8" and lte: "length test1 = 2" using f by simp_all
  have ain: "a \<in> set ys" using assms(7) length_filter_pos_ex [of "\<lambda>v. v = a" ys]
    by (auto simp: ys_def)
  have bin: "b \<in> set ys" using assms(8) length_filter_pos_ex [of "\<lambda>v. v = b" ys]
    by (auto simp: ys_def)
  from final_split_counts [OF assms(1) sp ain [unfolded ys_def]] assms(7) ltr nx
  have a4: "4 \<le> length (filter (\<lambda>j. ys ! j = a) train1)" by (simp add: ys_def)
  from final_split_counts [OF assms(1) sp bin [unfolded ys_def]] assms(8) ltr nx
  have b4: "4 \<le> length (filter (\<lambda>j. ys ! j = b) train1)"
    and bsum: "length (filter (\<lambda>j. ys ! j = b) train1) + length (filter (\<lambda>j. ys ! j = b) test1) = 5"
    by (simp_all add: ys_def)
  have "length (filter (\<lambda>j. ys ! j = a) train1) + length (filter (\<lambda>j. ys ! j = b) train1)
          \<le> length train1"
    using assms(6) by (intro disjoint_filters) auto
  with a4 b4 ltr have "length (filter (\<lambda>j. ys ! j = b) train1) = 4" by linarith
  with bsum have "0 < length (filter (\<lambda>j. ys ! j = b) test1)" by simp
  from length_filter_pos_ex [OF this] obtain j where j: "j \<in> set test1" and jb: "ys ! j = b"
    by blast
  have "set (train1 @ test1) = {0..<10}" using f by (metis set_mset_mset set_upt)
  with j have j10: "j < 10" by auto
  have "j \<notin> set test0" using assms(10,6) jb by (auto simp: ys_def)
  moreover have "set (train0 @ test0) = {0..<10}" using p by (metis set_mset_mset set_upt)
  ultimately have jtr: "j \<in> set train0" using j10 by auto
  have bound: "\<forall>i \<in> set test1. i < 10"
    using \<open>set (train1 @ test1) = {0..<10}\<close> by auto
  have "s_index y_test = map (\<lambda>i. [0..<10] ! i) test1" by (simp add: yte assms(5))
  also have "\<dots> = test1" using bound by (intro map_idI) simp
  finally have "j \<in> set (s_index y_test)" using j by simp
  with jtr jb top show ?thesis unfolding ys_def by blast
qed

theorem selection_scores_final_test_row_witness:
  "perm_ok example_library
   \<and> self_X example_preprocessed = Some example_X
   \<and> self_y example_preprocessed = Some example_y
   \<and> provisional_split example_library example_X example_y = Inr ([2, 3, 4, 5, 6, 7, 8, 9], [0, 1])
   \<and> fst (split_and_scale example_library (snd (feature_selection example_library example_preprocessed)))
       = Inr example_arrays
   \<and> (\<exists>j \<in> set (s_index (snd (snd (snd example_arrays)))).
         j \<in> set [2, 3, 4, 5, 6, 7, 8, 9] \<and> s_values example_y ! j = StrV ''Yes'')"
proof -
  obtain X_train X_test y_train y_test where a: "example_arrays = (X_train, X_test, y_train, y_test)"
    by (cases example_arrays)
  have n: "n_rows example_X = 10" by (simp add: n_rows_def example_X_def)
  have i: "s_index example_y = [0..<10]" by (simp add: example_y_def upt_rec)
  have ab: "StrV ''No'' \<noteq> StrV ''Yes''" by simp
  have ca: "length (filter (\<lambda>v. v = StrV ''No'') (s_values example_y)) = 5"
    by (simp add: example_y_def)
  have cb: "length (filter (\<lambda>v. v = StrV ''Yes'') (s_values example_y)) = 5"
    by (simp add: example_y_def)
  have t0: "\<forall>j \<in> set [0, 1]. s_values example_y ! j = StrV ''No''"
    by (simp add: example_y_def)
  from selection_scores_final_test_row [OF example_perm_ok example_preprocessed_X
      example_preprocessed_y n i ab ca cb example_provisional t0 example_selection_ok
      example_split_ok [unfolded a]]
  have "\<exists>j \<in> set (s_index y_test).
         j \<in> set [2, 3, 4, 5, 6, 7, 8, 9] \<and> s_values example_y ! j = StrV ''Yes''"
    by blast
  with example_perm_ok example_preprocessed_X example_preprocessed_y example_provisional
    example_split_ok [unfolded a]
  show ?thesis unfolding a by simp
qed

text \<open>
  Claim C1. Two objects made by \<open>__init__\<close> for the same input path, in two worlds that
  agree on the input file (its content and whether it can be read) and may differ in all
  else (other files, directories, permissions, log, output path), run to the same selected
  features, feature table, target vector, scaler and encoders; \<open>split_and_scale\<close> returns
  the same arrays (or raises the same exception) in both runs, and \<open>joblib.dump\<close> is
  handed the same objects. The seed 42 of both splits is a constant of the code.
\<close>

theorem run_deterministic:
  assumes "init inp out1 w1 = Inr s1" and "init inp out2 w2 = Inr s2"
    and "files w1 inp = files w2 inp" and "readable w1 inp = readable w2 inp"
  shows "selected_features (snd (run L s1)) = selected_features (snd (run L s2))
       \<and> self_X (snd (run L s1)) = self_X (snd (run L s2))
       \<and> self_y (snd (run L s1)) = self_y (snd (run L s2))
       \<and> scaler (snd (run L s1)) = scaler (snd (run L s2))
       \<and> label_encoder (snd (run L s1)) = label_encoder (snd (run L s2))
       \<and> selected_features (before_split L s1) = selected_features (before_split L s2)
       \<and> fst (split_and_scale L (before_split L s1)) = fst (split_and_scale L (before_split L s2))
       \<and> map fst (artifacts (snd (split_and_scale L (before_split L s1))) a) =
           map fst (artifacts (snd (split_and_scale L (before_split L s2))) a)"
proof -
  have f0: "fields_of s1 = fields_of s2"
    using assms(1,2) by (auto simp: init_def fields_of_def logger_info_def split: sum.splits)
  have ip: "input_path s1 = inp" "input_path s2 = inp"
    using init_fields(2) [OF assms(1)] init_fields(2) [OF assms(2)] by simp_all
  have fl: "files (env s1) (input_path s1) = files (env s2) (input_path s2)"
    using init_fields(3) [OF assms(1)] init_fields(3) [OF assms(2)] assms(3) ip by simp
  have "readable (env s1) = readable w1" "readable (env s2) = readable w2"
    using assms(1,2) by (auto simp: init_def makedirs_def logger_info_def split: sum.splits if_splits)
  with assms(4) ip have rd: "readable (env s1) (input_path s1) = readable (env s2) (input_path s2)"
    by simp
  note l = load_data_same [OF f0 fl rd, of L]
  note p = preprocess_data_same [OF l [THEN conjunct2], of L]
  note f = feature_selection_same [OF p [THEN conjunct2], of L]
  note sp = split_and_scale_same [OF f [THEN conjunct2, folded before_split_def], of L]
  have fin: "fields_of (snd (run L s1)) = fields_of (snd (run L s2))"
    unfolding run_fields
    using l p f [folded before_split_def] sp by simp
  have art: "map fst (artifacts (snd (split_and_scale L (before_split L s1))) a) =
           map fst (artifacts (snd (split_and_scale L (before_split L s2))) a)"
    using fields_of_eqD(3) [OF sp [THEN conjunct2]] by (cases a) (simp add: artifacts_def)
  from fields_of_eqD [OF fin] fields_of_eqD(7) [OF f [THEN conjunct2, folded before_split_def]]
    sp art
  show ?thesis by simp
qed

theorem run_deterministic_witness:
  "init ''artifacts/raw/data.csv'' ''artifacts/processed'' example_world = Inr example_object
   \<and> init ''artifacts/raw/data.csv'' ''elsewhere'' other_world = Inr other_object
   \<and> files example_world ''artifacts/raw/data.csv'' = files other_world ''artifacts/raw/data.csv''
   \<and> fst (run example_library example_object) = Inr ()
   \<and> fst (run example_library other_object) =
       Inl (CustomException ''Failed to save data'' (PermissionError ''elsewhere/X_train.pkl''))
   \<and> selected_features (snd (run example_library example_object)) =
       selected_features (snd (run example_library other_object))
   \<and> fst (split_and_scale example_library (before_split example_library example_object)) =
       fst (split_and_scale example_library (before_split example_library other_object))"
proof -
  have f: "files example_world ''artifacts/raw/data.csv'' = files other_world ''artifacts/raw/data.csv''"
    by (simp add: example_world_def other_world_def)
  have r: "readable example_world ''artifacts/raw/data.csv'' = readable other_world ''artifacts/raw/data.csv''"
    by (simp add: example_world_def other_world_def)
  have o: "fst (run example_library other_object) =
       Inl (CustomException ''Failed to save data'' (PermissionError ''elsewhere/X_train.pkl''))"
    by code_simp
  from run_deterministic [OF init_example other_init f r, of example_library]
  have "selected_features (snd (run example_library example_object)) =
       selected_features (snd (run example_library other_object))
     \<and> fst (split_and_scale example_library (before_split example_library example_object)) =
       fst (split_and_scale example_library (before_split example_library other_object))"
    by blast
  with init_example other_init f example_run_ok o show ?thesis by simp
qed

end
